(* ===== verification/Prelude.thy ===== *)
theory Prelude
  imports Main "HOL-Library.Monad_Syntax"
begin

text \<open>
  What the components of the development share: the C result codes of
  include/initng/misc.h, the loop schemes of include/initng/list.h over an abstract list
  (the loop cursor walks a list that the loop body may change), and the lemmas that turn
  such a loop into a plain recursion over the list when the body leaves it alone.

  A computation of the program is a function on the program state with an option result:
  the value None stands for a computation that does not return, because it crashed on a
  NULL pointer or because its loop or recursion did not end within the fuel.
\<close>

named_theorems list_laws \<open>laws of the intrusive list operations\<close>
named_theorems data_laws \<open>laws of the service variables\<close>
named_theorems state_laws \<open>laws of the state change operations\<close>
named_theorems handler_laws \<open>laws of the start and stop handlers\<close>

section \<open>Result codes\<close>

abbreviation TRUE :: int where "TRUE \<equiv> 1"
abbreviation FALSE :: int where "FALSE \<equiv> 0"
abbreviation FAIL :: int where "FAIL \<equiv> -1"

text \<open>The truth value of a C expression as an int.\<close>

definition of_cond :: "bool \<Rightarrow> int" where
  "of_cond b = (if b then TRUE else FALSE)"

text \<open>Integer division of C99: the quotient is truncated towards zero.\<close>

definition c_div :: "int \<Rightarrow> int \<Rightarrow> int" where
  "c_div a b = sgn a * sgn b * (\<bar>a\<bar> div \<bar>b\<bar>)"

section \<open>Lists as the list macros see them\<close>

text \<open>
  A list is kept in the order of the \<open>next\<close> pointers, starting after the list head.
  \<open>list_add\<close> puts an entry right after the head and does nothing for an entry that is
  linked already; \<open>list_del\<close> unlinks an entry. The theory Linked_List proves that the
  pointer code of list.h does exactly this.
\<close>

definition list_add :: "'a \<Rightarrow> 'a list \<Rightarrow> 'a list" where
  "list_add x xs = (if x \<in> set xs then xs else x # xs)"

definition list_del :: "'a \<Rightarrow> 'a list \<Rightarrow> 'a list" where
  "list_del x xs = remove1 x xs"

text \<open>
  The \<open>prev\<close> pointer of a cursor. A cursor is None when it stands on the list head.
  The result None is the NULL pointer of an entry that is not linked.
\<close>

fun entry_before :: "'a list \<Rightarrow> 'a \<Rightarrow> 'a option option" where
  "entry_before [] p = None"
| "entry_before [x] p = (if x = p then Some None else None)"
| "entry_before (x # y # ys) p =
     (if x = p then Some None else if y = p then Some (Some x) else entry_before (y # ys) p)"

definition prev_of :: "'a list \<Rightarrow> 'a option \<Rightarrow> 'a option option" where
  "prev_of xs c = (case c of
     None \<Rightarrow> Some (if xs = [] then None else Some (last xs))
   | Some p \<Rightarrow> entry_before xs p)"

text \<open>
  The loop \<open>initng_list_foreach_rev\<close>: the cursor moves to the \<open>prev\<close> entry after the body
  has run. A body that yields a value leaves the loop with a return statement.
\<close>

fun foreach_rev :: "('s \<Rightarrow> 'a list) \<Rightarrow> ('a \<Rightarrow> 's \<Rightarrow> ('r option \<times> 's) option) \<Rightarrow> nat \<Rightarrow>
    'a option \<Rightarrow> 's \<Rightarrow> ('r option \<times> 's) option" where
  "foreach_rev L body 0 pos s = None"
| "foreach_rev L body (Suc k) None s = Some (None, s)"
| "foreach_rev L body (Suc k) (Some p) s = do {
     (r, s') \<leftarrow> body p s;
     (case r of
        Some v \<Rightarrow> Some (Some v, s')
      | None \<Rightarrow> do { n \<leftarrow> prev_of (L s') (Some p); foreach_rev L body k n s' }) }"

definition while_list :: "('s \<Rightarrow> 'a list) \<Rightarrow> ('a \<Rightarrow> 's \<Rightarrow> ('r option \<times> 's) option) \<Rightarrow> nat \<Rightarrow>
    's \<Rightarrow> ('r option \<times> 's) option" where
  "while_list L body k s = do {
     pos \<leftarrow> prev_of (L s) None;
     foreach_rev L body k pos s }"

text \<open>
  The loop \<open>initng_list_foreach_rev_safe\<close>: the cursor of the next round is read before the
  body runs, so that the body may unlink the current entry.
\<close>

fun foreach_rev_safe :: "('s \<Rightarrow> 'a list) \<Rightarrow> ('a \<Rightarrow> 's \<Rightarrow> ('r option \<times> 's) option) \<Rightarrow> nat \<Rightarrow>
    'a option \<Rightarrow> 'a option \<Rightarrow> 's \<Rightarrow> ('r option \<times> 's) option" where
  "foreach_rev_safe L body 0 pos n s = None"
| "foreach_rev_safe L body (Suc k) None n s = Some (None, s)"
| "foreach_rev_safe L body (Suc k) (Some p) n s = do {
     (r, s') \<leftarrow> body p s;
     (case r of
        Some v \<Rightarrow> Some (Some v, s')
      | None \<Rightarrow> do { n' \<leftarrow> prev_of (L s') n; foreach_rev_safe L body k n n' s' }) }"

definition while_list_safe :: "('s \<Rightarrow> 'a list) \<Rightarrow> ('a \<Rightarrow> 's \<Rightarrow> ('r option \<times> 's) option) \<Rightarrow> nat \<Rightarrow>
    's \<Rightarrow> ('r option \<times> 's) option" where
  "while_list_safe L body k s = do {
     pos \<leftarrow> prev_of (L s) None;
     n \<leftarrow> prev_of (L s) pos;
     foreach_rev_safe L body k pos n s }"

text \<open>The plain recursion over a list that does not change, with early return.\<close>

fun each :: "('a \<Rightarrow> 's \<Rightarrow> ('r option \<times> 's) option) \<Rightarrow> 'a list \<Rightarrow> 's \<Rightarrow> ('r option \<times> 's) option" where
  "each body [] s = Some (None, s)"
| "each body (x # xs) s = do {
     (r, s') \<leftarrow> body x s;
     (case r of Some v \<Rightarrow> Some (Some v, s') | None \<Rightarrow> each body xs s') }"

section \<open>Lemmas on lists and loops\<close>

lemma list_add_simps [simp, list_laws]:
  "set (list_add x xs) = insert x (set xs)"
  "x \<in> set xs \<Longrightarrow> list_add x xs = xs"
  "x \<notin> set xs \<Longrightarrow> list_add x xs = x # xs"
  by (auto simp: list_add_def)

lemma distinct_list_add [simp, list_laws]: "distinct (list_add x xs) = distinct xs"
  by (simp add: list_add_def)

lemma distinct_list_del [simp, list_laws]: "distinct xs \<Longrightarrow> distinct (list_del x xs)"
  by (simp add: list_del_def)

lemma set_list_del [simp, list_laws]: "distinct xs \<Longrightarrow> set (list_del x xs) = set xs - {x}"
  by (simp add: list_del_def)

lemma entry_before_last:
  "distinct (ys @ [x, p] @ zs) \<Longrightarrow> entry_before (ys @ [x, p] @ zs) p = Some (Some x)"
proof (induction ys)
  case Nil
  then show ?case by simp
next
  case (Cons y ys)
  then show ?case by (cases ys) auto
qed

lemma entry_before_first [simp]: "entry_before (p # zs) p = Some None"
  by (cases zs) auto

lemma prev_of_snoc:
  assumes "distinct (ys @ p # zs)"
  shows "prev_of (ys @ p # zs) (Some p) = Some (if ys = [] then None else Some (last ys))"
proof (cases ys rule: rev_cases)
  case Nil
  then show ?thesis by (simp add: prev_of_def)
next
  case (snoc us u)
  with assms have "distinct (us @ [u, p] @ zs)" by simp
  from entry_before_last [OF this] show ?thesis
    by (simp add: prev_of_def snoc)
qed

lemma prev_of_head [simp]: "prev_of xs None = Some (if xs = [] then None else Some (last xs))"
  by (simp add: prev_of_def)

text \<open>
  When the body never changes the list, the cursor loop visits its entries once, from the
  last one (the first one added) to the first one.
\<close>

lemma foreach_rev_each:
  assumes inv: "\<And>p s s'. P s \<Longrightarrow> body p s = Some (None, s') \<Longrightarrow> L s' = L s \<and> P s'"
  shows "P s \<Longrightarrow> distinct (L s) \<Longrightarrow> L s = ys @ zs \<Longrightarrow> length ys < k \<Longrightarrow>
    foreach_rev L body k (if ys = [] then None else Some (last ys)) s = each body (rev ys) s"
proof (induction k arbitrary: ys zs s)
  case 0
  then show ?case by simp
next
  case (Suc k)
  show ?case
  proof (cases ys rule: rev_cases)
    case Nil
    then show ?thesis by simp
  next
    case (snoc us u)
    show ?thesis
    proof (cases "body u s")
      case None
      then show ?thesis by (simp add: snoc)
    next
      case (Some rs)
      obtain r s' where rs: "rs = (r, s')" by (cases rs)
      show ?thesis
      proof (cases r)
        case None
        with Some rs have b: "body u s = Some (None, s')" by simp
        from inv [OF Suc.prems(1) b] Suc.prems snoc have L: "L s' = us @ u # zs" "distinct (L s')" "P s'"
          by simp_all
        have p: "prev_of (L s') (Some u) = Some (if us = [] then None else Some (last us))"
          using L prev_of_snoc [of us u zs] by simp
        from Suc.IH [OF L(3,2,1)] Suc.prems(4) snoc show ?thesis
          by (simp add: b p)
      next
        case (Some v)
        with \<open>body u s = Some rs\<close> rs show ?thesis by (simp add: snoc)
      qed
    qed
  qed
qed

lemma while_list_each_inv:
  assumes "\<And>p s s'. P s \<Longrightarrow> body p s = Some (None, s') \<Longrightarrow> L s' = L s \<and> P s'"
    and "P s" and "distinct (L s)" and "length (L s) < k"
  shows "while_list L body k s = each body (rev (L s)) s"
  using foreach_rev_each [of P body L s "L s" "[]" k] assms
  by (simp add: while_list_def)

lemma while_list_each:
  assumes "\<And>p s s'. body p s = Some (None, s') \<Longrightarrow> L s' = L s"
    and "distinct (L s)" and "length (L s) < k"
  shows "while_list L body k s = each body (rev (L s)) s"
  using while_list_each_inv [of "\<lambda>_. True" body L s k] assms by simp

text \<open>The body may also unlink the entry it works on.\<close>

lemma foreach_rev_safe_each:
  assumes inv: "\<And>p s s'. P s \<Longrightarrow> body p s = Some (None, s') \<Longrightarrow>
      (L s' = L s \<or> L s' = list_del p (L s)) \<and> P s'"
  shows "P s \<Longrightarrow> distinct (L s) \<Longrightarrow> L s = ys @ zs \<Longrightarrow> length ys < k \<Longrightarrow>
    prev_of (L s) (if ys = [] then None else Some (last ys)) = Some n \<Longrightarrow>
    foreach_rev_safe L body k (if ys = [] then None else Some (last ys)) n s = each body (rev ys) s"
proof (induction k arbitrary: ys zs s n)
  case 0
  then show ?case by simp
next
  case (Suc k)
  show ?case
  proof (cases ys rule: rev_cases)
    case Nil
    then show ?thesis by simp
  next
    case (snoc us u)
    from Suc.prems snoc have n: "n = (if us = [] then None else Some (last us))"
      using prev_of_snoc [of us u zs] by (simp split: if_splits)
    show ?thesis
    proof (cases "body u s")
      case None
      then show ?thesis by (simp add: snoc)
    next
      case (Some rs)
      obtain r s' where rs: "rs = (r, s')" by (cases rs)
      show ?thesis
      proof (cases r)
        case None
        with Some rs have b: "body u s = Some (None, s')" by simp
        have "list_del u (L s) = us @ zs"
          using Suc.prems snoc by (simp add: list_del_def remove1_append)
        with inv [OF Suc.prems(1) b] Suc.prems snoc obtain ws where
          L: "L s' = us @ ws" "distinct (L s')" "P s'" by auto
        have "\<exists>m. prev_of (L s') n = Some m"
        proof (cases us rule: rev_cases)
          case Nil
          with n show ?thesis by simp
        next
          case (snoc vs v)
          with n L prev_of_snoc [of vs v ws] show ?thesis by simp
        qed
        then obtain m where m: "prev_of (L s') n = Some m" ..
        from m Suc.IH [of s' us ws m] L Suc.prems(4) snoc show ?thesis
          by (simp add: b n)
      next
        case (Some v)
        with \<open>body u s = Some rs\<close> rs show ?thesis by (simp add: snoc)
      qed
    qed
  qed
qed

lemma while_list_safe_each_inv:
  assumes inv: "\<And>p s s'. P s \<Longrightarrow> body p s = Some (None, s') \<Longrightarrow>
      (L s' = L s \<or> L s' = list_del p (L s)) \<and> P s'"
    and P: "P s" and d: "distinct (L s)" and k: "length (L s) < k"
  shows "while_list_safe L body k s = each body (rev (L s)) s"
proof -
  have "\<exists>n. prev_of (L s) (if L s = [] then None else Some (last (L s))) = Some n"
  proof (cases "L s" rule: rev_cases)
    case Nil
    then show ?thesis by simp
  next
    case (snoc us u)
    with d prev_of_snoc [of us u "[]"] show ?thesis by simp
  qed
  then obtain n where
    n: "prev_of (L s) (if L s = [] then None else Some (last (L s))) = Some n" ..
  with foreach_rev_safe_each [of P body L s "L s" "[]" k n] inv P d k show ?thesis
    by (simp add: while_list_safe_def)
qed

lemma while_list_safe_each:
  assumes "\<And>p s s'. body p s = Some (None, s') \<Longrightarrow> L s' = L s \<or> L s' = list_del p (L s)"
    and "distinct (L s)" and "length (L s) < k"
  shows "while_list_safe L body k s = each body (rev (L s)) s"
  using while_list_safe_each_inv [of "\<lambda>_. True" body L s k] assms by simp

text \<open>An invariant of the body is an invariant of the recursion.\<close>

lemma each_invariant:
  assumes "\<And>p s r s'. p \<in> set xs \<Longrightarrow> body p s = Some (r, s') \<Longrightarrow> P s \<Longrightarrow> P s'"
    and "each body xs s = Some (r, s')" and "P s"
  shows "P s'"
  using assms
proof (induction xs arbitrary: s)
  case Nil
  then show ?case by simp
next
  case (Cons x xs)
  from Cons.prems(2) obtain q t where b: "body x s = Some (q, t)"
    by (cases "body x s") auto
  with Cons.prems have "P t" by auto
  show ?case
  proof (cases q)
    case None
    with b Cons.prems(2) have "each body xs t = Some (r, s')" by simp
    with Cons.IH [of t] Cons.prems(1) \<open>P t\<close> show ?thesis by auto
  next
    case (Some v)
    with b Cons.prems(2) \<open>P t\<close> show ?thesis by simp
  qed
qed

text \<open>The same for the cursor loops, whatever the body does to the list.\<close>

lemma each_total:
  assumes "\<And>c s. c \<in> set cs \<Longrightarrow> P s \<Longrightarrow> \<exists>r s'. body c s = Some (r, s') \<and> P s' \<and> (A \<longrightarrow> r = None)"
  shows "P s \<Longrightarrow> \<exists>r s'. each body cs s = Some (r, s') \<and> P s' \<and> (A \<longrightarrow> r = None)"
  using assms
proof (induction cs arbitrary: s)
  case (Cons c cs)
  from Cons.prems obtain r s' where b: "body c s = Some (r, s')" "P s'" "A \<longrightarrow> r = None"
    by (meson list.set_intros(1))
  show ?case
  proof (cases r)
    case None
    with Cons.IH [OF b(2)] Cons.prems(2) b show ?thesis by simp
  qed (use b in auto)
qed simp

lemma foreach_rev_invariant:
  assumes "\<And>p s r s'. body p s = Some (r, s') \<Longrightarrow> P s \<Longrightarrow> P s'"
  shows "foreach_rev L body k pos s = Some (r, s') \<Longrightarrow> P s \<Longrightarrow> P s'"
proof (induction k arbitrary: pos s)
  case (Suc k)
  show ?case
  proof (cases pos)
    case (Some p)
    with Suc.prems obtain q t where b: "body p s = Some (q, t)" by (cases "body p s") auto
    with assms Suc.prems have "P t" by blast
    show ?thesis
    proof (cases q)
      case None
      with Some b Suc.prems obtain n where "foreach_rev L body k n t = Some (r, s')"
        by (auto split: bind_splits)
      with Suc.IH \<open>P t\<close> show ?thesis by blast
    qed (use Some b Suc.prems \<open>P t\<close> in auto)
  qed (use Suc.prems in auto)
qed simp

lemma while_list_invariant:
  assumes "\<And>p s r s'. body p s = Some (r, s') \<Longrightarrow> P s \<Longrightarrow> P s'"
    and "while_list L body k s = Some (r, s')" and "P s"
  shows "P s'"
  using foreach_rev_invariant [of body P L k _ s r s'] assms
  by (auto simp: while_list_def split: bind_splits)

lemma foreach_rev_safe_invariant:
  assumes "\<And>p s r s'. body p s = Some (r, s') \<Longrightarrow> P s \<Longrightarrow> P s'"
  shows "foreach_rev_safe L body k pos n s = Some (r, s') \<Longrightarrow> P s \<Longrightarrow> P s'"
proof (induction k arbitrary: pos n s)
  case (Suc k)
  show ?case
  proof (cases pos)
    case (Some p)
    with Suc.prems obtain q t where b: "body p s = Some (q, t)" by (cases "body p s") auto
    with assms Suc.prems have "P t" by blast
    show ?thesis
    proof (cases q)
      case None
      with Some b Suc.prems obtain m where "foreach_rev_safe L body k n m t = Some (r, s')"
        by (auto split: bind_splits)
      with Suc.IH \<open>P t\<close> show ?thesis by blast
    qed (use Some b Suc.prems \<open>P t\<close> in auto)
  qed (use Suc.prems in auto)
qed simp

lemma while_list_safe_invariant:
  assumes "\<And>p s r s'. body p s = Some (r, s') \<Longrightarrow> P s \<Longrightarrow> P s'"
    and "while_list_safe L body k s = Some (r, s')" and "P s"
  shows "P s'"
  using foreach_rev_safe_invariant [of body P L k _ _ s r s'] assms
  by (auto simp: while_list_safe_def split: bind_splits if_splits)

text \<open>
  The invariants again, for bodies that rely on something about the entry they get: it holds for
  the entries of the list, and the body keeps it for every entry.
\<close>

lemma prev_of_member: "prev_of xs c = Some (Some p) \<Longrightarrow> p \<in> set xs"
proof -
  have "entry_before xs q = Some (Some p) \<Longrightarrow> p \<in> set xs" for q
    by (induction xs q rule: entry_before.induct) (auto split: if_splits)
  then show "prev_of xs c = Some (Some p) \<Longrightarrow> p \<in> set xs"
    by (auto simp: prev_of_def split: option.splits if_splits)
qed

lemma foreach_rev_members:
  assumes body: "\<And>p s r s'. P s \<Longrightarrow> A p s \<Longrightarrow> body p s = Some (r, s') \<Longrightarrow> P s' \<and> (\<forall>q. A q s \<longrightarrow> A q s')"
    and mem: "\<And>p s. P s \<Longrightarrow> p \<in> set (L s) \<Longrightarrow> A p s"
  shows "foreach_rev L body k pos s = Some (r, s') \<Longrightarrow> P s \<Longrightarrow> (\<forall>p. pos = Some p \<longrightarrow> A p s) \<Longrightarrow> P s'"
proof (induction k arbitrary: pos s)
  case (Suc k)
  show ?case
  proof (cases pos)
    case (Some p)
    with Suc.prems obtain q t where b: "body p s = Some (q, t)" by (cases "body p s") auto
    with body [of s p q t] Suc.prems Some have "P t" by simp
    show ?thesis
    proof (cases q)
      case None
      with Some b Suc.prems obtain n where n: "prev_of (L t) (Some p) = Some n" "foreach_rev L body k n t = Some (r, s')"
        by (auto split: bind_splits)
      then have "\<forall>p. n = Some p \<longrightarrow> A p t" using mem [OF \<open>P t\<close>] prev_of_member by fastforce
      with Suc.IH n \<open>P t\<close> show ?thesis by blast
    qed (use Some b Suc.prems \<open>P t\<close> in auto)
  qed (use Suc.prems in auto)
qed simp

lemma while_list_members:
  assumes "\<And>p s r s'. P s \<Longrightarrow> A p s \<Longrightarrow> body p s = Some (r, s') \<Longrightarrow> P s' \<and> (\<forall>q. A q s \<longrightarrow> A q s')"
    and "\<And>p s. P s \<Longrightarrow> p \<in> set (L s) \<Longrightarrow> A p s"
    and "while_list L body k s = Some (r, s')" and "P s"
  shows "P s'"
proof -
  from assms(3) obtain pos where pos: "prev_of (L s) None = Some pos" "foreach_rev L body k pos s = Some (r, s')"
    by (auto simp: while_list_def split: bind_splits)
  have "\<forall>p. pos = Some p \<longrightarrow> A p s" using assms(2) [OF assms(4)] pos(1) prev_of_member by fastforce
  from foreach_rev_members [where P = P and A = A, OF assms(1,2) pos(2) assms(4) this] show ?thesis .
qed

lemma foreach_rev_safe_members:
  assumes body: "\<And>p s r s'. P s \<Longrightarrow> A p s \<Longrightarrow> body p s = Some (r, s') \<Longrightarrow> P s' \<and> (\<forall>q. A q s \<longrightarrow> A q s')"
    and mem: "\<And>p s. P s \<Longrightarrow> p \<in> set (L s) \<Longrightarrow> A p s"
  shows "foreach_rev_safe L body k pos n s = Some (r, s') \<Longrightarrow> P s \<Longrightarrow> (\<forall>p. pos = Some p \<longrightarrow> A p s) \<Longrightarrow>
    (\<forall>p. n = Some p \<longrightarrow> A p s) \<Longrightarrow> P s'"
proof (induction k arbitrary: pos n s)
  case (Suc k)
  show ?case
  proof (cases pos)
    case (Some p)
    with Suc.prems obtain q t where b: "body p s = Some (q, t)" by (cases "body p s") auto
    with body [of s p q t] Suc.prems Some have t: "P t" "\<forall>x. A x s \<longrightarrow> A x t" by simp_all
    show ?thesis
    proof (cases q)
      case None
      with Some b Suc.prems obtain m where m: "prev_of (L t) n = Some m"
        "foreach_rev_safe L body k n m t = Some (r, s')" by (auto split: bind_splits)
      then have "\<forall>p. m = Some p \<longrightarrow> A p t" using mem [OF t(1)] prev_of_member by fastforce
      with Suc.IH [OF m(2) t(1)] t(2) Suc.prems(4) show ?thesis by blast
    qed (use Some b Suc.prems t in auto)
  qed (use Suc.prems in auto)
qed simp

lemma while_list_safe_members:
  assumes "\<And>p s r s'. P s \<Longrightarrow> A p s \<Longrightarrow> body p s = Some (r, s') \<Longrightarrow> P s' \<and> (\<forall>q. A q s \<longrightarrow> A q s')"
    and "\<And>p s. P s \<Longrightarrow> p \<in> set (L s) \<Longrightarrow> A p s"
    and "while_list_safe L body k s = Some (r, s')" and "P s"
  shows "P s'"
proof -
  from assms(3) obtain pos n where pos: "prev_of (L s) None = Some pos" "prev_of (L s) pos = Some n"
    "foreach_rev_safe L body k pos n s = Some (r, s')"
    by (auto simp: while_list_safe_def split: bind_splits)
  have "\<forall>p. pos = Some p \<longrightarrow> A p s" "\<forall>p. n = Some p \<longrightarrow> A p s"
    using assms(2) [OF assms(4)] pos(1,2) prev_of_member by fastforce+
  from foreach_rev_safe_members [where P = P and A = A, OF assms(1,2) pos(3) assms(4) this] show ?thesis .
qed

lemma foreach_rev_safe_visits:
  assumes body: "\<And>c s r t. P s \<Longrightarrow> body c s = Some (r, t) \<Longrightarrow>
      r = None \<and> P t \<and> Q t c \<and> (\<forall>x. Q s x \<longrightarrow> Q t x) \<and> (\<exists>new. L t = new @ L s)"
    and d: "\<And>s. P s \<Longrightarrow> distinct (L s)"
  shows "foreach_rev_safe L body k (if us = [] then None else Some (last us)) n s = Some (r, t) \<Longrightarrow> P s \<Longrightarrow>
    L s = us @ ws \<Longrightarrow> prev_of (L s) (if us = [] then None else Some (last us)) = Some n \<Longrightarrow>
    (\<forall>c \<in> set us. Q t c) \<and> (\<forall>x. Q s x \<longrightarrow> Q t x)"
proof (induction k arbitrary: us ws n s)
  case (Suc k)
  show ?case
  proof (cases us rule: rev_cases)
    case (snoc vs p)
    with Suc.prems(1) obtain r' u where b: "body p s = Some (r', u)" by (auto split: bind_splits)
    from body [OF Suc.prems(2) b] obtain new where u: "r' = None" "P u" "Q u p" "\<forall>x. Q s x \<longrightarrow> Q u x" "L u = new @ L s"
      by blast
    from d [OF Suc.prems(2)] Suc.prems(3,4) snoc prev_of_snoc [of vs p ws] have n: "n = (if vs = [] then None else Some (last vs))"
      by simp
    from Suc.prems(1) snoc b u(1) obtain n' where n': "prev_of (L u) n = Some n'" "foreach_rev_safe L body k n n' u = Some (r, t)"
      by (auto split: bind_splits)
    have "(\<forall>c \<in> set vs. Q t c) \<and> (\<forall>x. Q u x \<longrightarrow> Q t x)"
    proof (cases "vs = []")
      case True
      with Suc.IH [of "[]" n' u "L u"] n n' u(2) show ?thesis by simp
    next
      case False
      with Suc.IH [of "new @ vs" n' u "p # ws"] n n' u(2,5) Suc.prems(3) snoc show ?thesis by simp
    qed
    with u snoc show ?thesis by auto
  qed (use Suc.prems in simp)
qed simp

text \<open>A loop whose body may add entries in front visits every entry that was there when it started.\<close>

lemma while_list_safe_visits:
  assumes "\<And>c s r t. P s \<Longrightarrow> body c s = Some (r, t) \<Longrightarrow>
      r = None \<and> P t \<and> Q t c \<and> (\<forall>x. Q s x \<longrightarrow> Q t x) \<and> (\<exists>new. L t = new @ L s)"
    and "\<And>s. P s \<Longrightarrow> distinct (L s)" and "P s" and "while_list_safe L body k s = Some (r, t)"
  shows "\<forall>c \<in> set (L s). Q t c"
proof -
  from assms(4) obtain n where n: "prev_of (L s) (if L s = [] then None else Some (last (L s))) = Some n"
    "foreach_rev_safe L body k (if L s = [] then None else Some (last (L s))) n s = Some (r, t)"
    by (auto simp: while_list_safe_def split: bind_splits)
  from foreach_rev_safe_visits [where P = P and Q = Q, OF assms(1,2) n(2) assms(3) _ n(1), of "[]"] show ?thesis by simp
qed

end
