(* ===== verification/Linked_List.thy ===== *)
theory Linked_List
  imports Prelude
begin

text \<open>
  The intrusive doubly linked list of include/initng/list.h at the level of its pointers.
  A heap gives the \<open>next\<close> and the \<open>prev\<close> pointer of every list node; None is NULL. Each
  operation of list.h is the sequence of its assignments and gives None when it goes through
  a NULL pointer. The predicate \<open>dll\<close> relates a heap to the list of nodes that hang on a
  list head, and the interface \<open>intrusive_list\<close> states what the rest of the program uses of
  the operations.
\<close>

section \<open>Nodes and operations\<close>

type_synonym node = nat

record list_heap =
  nx :: "node \<Rightarrow> node option"
  pv :: "node \<Rightarrow> node option"

definition set_next :: "node \<Rightarrow> node option \<Rightarrow> list_heap \<Rightarrow> list_heap" where
  "set_next p v h = h\<lparr>nx := (nx h)(p := v)\<rparr>"

definition set_prev :: "node \<Rightarrow> node option \<Rightarrow> list_heap \<Rightarrow> list_heap" where
  "set_prev p v h = h\<lparr>pv := (pv h)(p := v)\<rparr>"

definition initng_list_init :: "node \<Rightarrow> list_heap \<Rightarrow> list_heap" where
  "initng_list_init l h = set_prev l (Some l) (set_next l (Some l) h)"

definition initng_list_add :: "node \<Rightarrow> node \<Rightarrow> list_heap \<Rightarrow> list_heap option" where
  "initng_list_add newe head h =
     (if nx h newe \<noteq> None \<or> pv h newe \<noteq> None then Some h
      else do {
        n \<leftarrow> nx h head;
        let h = set_prev n (Some newe) h;
        let h = set_next newe (nx h head) h;
        let h = set_prev newe (Some head) h;
        Some (set_next head (Some newe) h) })"

definition initng_list_add_tail :: "node \<Rightarrow> node \<Rightarrow> list_heap \<Rightarrow> list_heap option" where
  "initng_list_add_tail newe head h =
     (if nx h newe \<noteq> None \<or> pv h newe \<noteq> None then Some h
      else do {
        p \<leftarrow> pv h head;
        let h = set_next p (Some newe) h;
        let h = set_prev head (Some newe) h;
        let h = set_next newe (Some head) h;
        Some (set_prev newe (pv h head) h) })"

definition initng_list_del :: "node \<Rightarrow> list_heap \<Rightarrow> list_heap option" where
  "initng_list_del e h =
     (if nx h e \<noteq> None \<or> pv h e \<noteq> None then do {
        n \<leftarrow> nx h e;
        let h = set_prev n (pv h e) h;
        p \<leftarrow> pv h e;
        let h = set_next p (nx h e) h;
        let h = set_next e None h;
        Some (set_prev e None h) }
      else Some h)"

definition initng_list_move :: "node \<Rightarrow> node \<Rightarrow> list_heap \<Rightarrow> list_heap option" where
  "initng_list_move l head h = do { h \<leftarrow> initng_list_del l h; initng_list_add l head h }"

definition list_move_tail :: "node \<Rightarrow> node \<Rightarrow> list_heap \<Rightarrow> list_heap option" where
  "list_move_tail l head h = do { h \<leftarrow> initng_list_del l h; initng_list_add_tail l head h }"

definition initng_list_isempty :: "node \<Rightarrow> list_heap \<Rightarrow> bool" where
  "initng_list_isempty l h = (nx h l = Some l)"

definition initng_list_join :: "node \<Rightarrow> node \<Rightarrow> list_heap \<Rightarrow> list_heap option" where
  "initng_list_join l head h =
     (if initng_list_isempty l h then Some h
      else do {
        first \<leftarrow> nx h l;
        let last = pv h l;
        let at = nx h head;
        let h = set_prev first (Some head) h;
        let h = set_next head (Some first) h;
        lst \<leftarrow> last;
        let h = set_next lst at h;
        a \<leftarrow> at;
        let h = set_prev a (Some lst) h;
        Some (initng_list_init l h) })"

text \<open>
  The nodes a read-only loop over the list visits, with the number of rounds bounded by the
  fuel: \<open>initng_list_foreach\<close> follows \<open>next\<close>, \<open>initng_list_foreach_rev\<close> follows \<open>prev\<close>.
\<close>

fun walk_links :: "(node \<Rightarrow> node option) \<Rightarrow> node \<Rightarrow> nat \<Rightarrow> node option \<Rightarrow> node list option" where
  "walk_links f head 0 p = None"
| "walk_links f head (Suc k) None = None"
| "walk_links f head (Suc k) (Some p) =
     (if p = head then Some []
      else do { r \<leftarrow> walk_links f head k (f p); Some (p # r) })"

definition initng_list_foreach :: "node \<Rightarrow> nat \<Rightarrow> list_heap \<Rightarrow> node list option" where
  "initng_list_foreach head k h = walk_links (nx h) head k (nx h head)"

definition initng_list_foreach_rev :: "node \<Rightarrow> nat \<Rightarrow> list_heap \<Rightarrow> node list option" where
  "initng_list_foreach_rev head k h = walk_links (pv h) head k (pv h head)"

section \<open>The list on a head\<close>

fun path :: "(node \<Rightarrow> node option) \<Rightarrow> node list \<Rightarrow> bool" where
  "path f (a # b # r) = (f a = Some b \<and> path f (b # r))"
| "path f _ = True"

definition dll :: "list_heap \<Rightarrow> node \<Rightarrow> node list \<Rightarrow> bool" where
  "dll h head xs = (distinct (head # xs) \<and> path (nx h) (head # xs @ [head])
     \<and> path (pv h) (head # rev xs @ [head]))"

definition linked :: "node \<Rightarrow> list_heap \<Rightarrow> bool" where
  "linked p h = (nx h p \<noteq> None \<or> pv h p \<noteq> None)"

text \<open>Operations on a list as values, and their effect on a heap and on a plain list.\<close>

datatype 'p list_op = Op_add 'p | Op_del 'p

fun op_node :: "'p list_op \<Rightarrow> 'p" where
  "op_node (Op_add p) = p"
| "op_node (Op_del p) = p"

fun run_heap_ops :: "('p \<Rightarrow> 'h \<Rightarrow> 'h option) \<Rightarrow> ('p \<Rightarrow> 'h \<Rightarrow> 'h option) \<Rightarrow> 'p list_op list \<Rightarrow>
    'h \<Rightarrow> 'h option" where
  "run_heap_ops add del [] h = Some h"
| "run_heap_ops add del (Op_add p # os) h = do { h \<leftarrow> add p h; run_heap_ops add del os h }"
| "run_heap_ops add del (Op_del p # os) h = do { h \<leftarrow> del p h; run_heap_ops add del os h }"

fun run_list_ops :: "'p list_op list \<Rightarrow> 'p list \<Rightarrow> 'p list" where
  "run_list_ops [] xs = xs"
| "run_list_ops (Op_add p # os) xs = run_list_ops os (list_add p xs)"
| "run_list_ops (Op_del p # os) xs = run_list_ops os (list_del p xs)"

section \<open>The interface of the list\<close>

locale intrusive_list =
  fixes rep :: "'h \<Rightarrow> 'p list \<Rightarrow> bool"
    and node_ok :: "'p \<Rightarrow> bool"
    and is_linked :: "'p \<Rightarrow> 'h \<Rightarrow> bool"
    and add :: "'p \<Rightarrow> 'h \<Rightarrow> 'h option"
    and del :: "'p \<Rightarrow> 'h \<Rightarrow> 'h option"
    and walk :: "nat \<Rightarrow> 'h \<Rightarrow> 'p list option"
  assumes rep_distinct: "rep h xs \<Longrightarrow> distinct xs"
    and rep_linked: "rep h xs \<Longrightarrow> p \<in> set xs \<Longrightarrow> is_linked p h"
    and add_linked: "is_linked p h \<Longrightarrow> add p h = Some h"
    and add_fresh: "rep h xs \<Longrightarrow> node_ok p \<Longrightarrow> \<not> is_linked p h \<Longrightarrow>
      \<exists>h'. add p h = Some h' \<and> rep h' (p # xs) \<and> (\<forall>q. node_ok q \<longrightarrow>
        is_linked q h' = (is_linked q h \<or> q = p))"
    and del_unlinked: "\<not> is_linked p h \<Longrightarrow> del p h = Some h"
    and del_member: "rep h xs \<Longrightarrow> p \<in> set xs \<Longrightarrow>
      \<exists>h'. del p h = Some h' \<and> rep h' (list_del p xs) \<and> (\<forall>q. node_ok q \<longrightarrow>
        is_linked q h' = (is_linked q h \<and> q \<noteq> p))"
    and walk_rep: "rep h xs \<Longrightarrow> length xs < k \<Longrightarrow> walk k h = Some (rev xs)"
begin

definition owns :: "'p set \<Rightarrow> 'h \<Rightarrow> 'p list \<Rightarrow> bool" where
  "owns Q h xs = (rep h xs \<and> (\<forall>q \<in> Q. node_ok q \<and> (is_linked q h \<longleftrightarrow> q \<in> set xs)))"

lemma owns_add:
  assumes "owns Q h xs" and "p \<in> Q"
  shows "\<exists>h'. add p h = Some h' \<and> owns Q h' (list_add p xs)"
proof (cases "p \<in> set xs")
  case True
  with assms add_linked [of p h] show ?thesis by (auto simp: owns_def)
next
  case False
  with assms add_fresh [of h xs p] show ?thesis by (fastforce simp: owns_def)
qed

lemma owns_del:
  assumes "owns Q h xs" and "p \<in> Q"
  shows "\<exists>h'. del p h = Some h' \<and> owns Q h' (list_del p xs)"
proof (cases "p \<in> set xs")
  case True
  with assms del_member [of h xs p] rep_distinct [of h xs] show ?thesis
    by (auto simp: owns_def)
next
  case False
  with assms del_unlinked [of p h] show ?thesis
    by (auto simp: owns_def list_del_def remove1_idem)
qed

lemma run_refines:
  "owns Q h xs \<Longrightarrow> op_node ` set os \<subseteq> Q \<Longrightarrow>
    \<exists>h'. run_heap_ops add del os h = Some h' \<and> owns Q h' (run_list_ops os xs)"
proof (induction os arbitrary: h xs)
  case Nil
  then show ?case by simp
next
  case (Cons a os)
  show ?case
  proof (cases a)
    case (Op_add p)
    with Cons.prems owns_add obtain h' where "add p h = Some h'" "owns Q h' (list_add p xs)"
      by force
    with Cons.IH [of h' "list_add p xs"] Cons.prems Op_add show ?thesis by simp
  next
    case (Op_del p)
    with Cons.prems owns_del obtain h' where "del p h = Some h'" "owns Q h' (list_del p xs)"
      by force
    with Cons.IH [of h' "list_del p xs"] Cons.prems Op_del show ?thesis by simp
  qed
qed

lemma run_then_walk:
  assumes "owns Q h xs" and "op_node ` set os \<subseteq> Q" and "length (run_list_ops os xs) < k"
  shows "\<exists>h'. run_heap_ops add del os h = Some h' \<and> walk k h' = Some (rev (run_list_ops os xs))"
  using run_refines [OF assms(1,2)] walk_rep assms(3) by (auto simp: owns_def)

end

section \<open>Paths\<close>

lemma heap_upd_simps [simp]:
  "nx (set_next p v h) = (nx h)(p := v)" "pv (set_next p v h) = pv h"
  "pv (set_prev p v h) = (pv h)(p := v)" "nx (set_prev p v h) = nx h"
  by (simp_all add: set_next_def set_prev_def)

lemma path_append: "path f (as @ x # bs) \<longleftrightarrow> path f (as @ [x]) \<and> path f (x # bs)"
  by (induction as rule: path.induct) (auto split: list.splits simp: neq_Nil_conv)

lemma path_split:
  "path f (as @ x # y # bs) \<longleftrightarrow> path f (as @ [x]) \<and> f x = Some y \<and> path f (y # bs)"
  using path_append [of f as x "y # bs"] by simp

lemma path_split_Cons:
  "path f (a # as @ x # y # bs) \<longleftrightarrow> path f (a # as @ [x]) \<and> f x = Some y \<and> path f (y # bs)"
  using path_split [of f "a # as"] by simp

lemmas path_splits = path_split path_split_Cons

lemma path_upd [simp]: "x \<notin> set (butlast l) \<Longrightarrow> path (f(x := v)) l = path f l"
  by (induction f l rule: path.induct) auto

lemma path_member: "path f (xs @ [y]) \<Longrightarrow> p \<in> set xs \<Longrightarrow> f p \<noteq> None"
proof (induction xs)
  case (Cons a xs)
  then show ?case by (cases xs) auto
qed simp

lemma walk_path: "path f (xs @ [head]) \<Longrightarrow> head \<notin> set xs \<Longrightarrow> length xs < k \<Longrightarrow>
    walk_links f head k (Some (hd (xs @ [head]))) = Some xs"
proof (induction xs arbitrary: k)
  case Nil
  then show ?case by (cases k) auto
next
  case (Cons a xs)
  then obtain j where k: "k = Suc j" by (cases k) auto
  from Cons.prems have "f a = Some (hd (xs @ [head]))" "path f (xs @ [head])"
    by (cases xs; simp)+
  with Cons k show ?case by auto
qed

lemma path_first: "path f (a # l @ [b]) \<Longrightarrow> f a = Some (hd (l @ [b])) \<and> path f (l @ [b])"
  by (cases l) auto

section \<open>The operations on a list\<close>

lemma dll_walk: "dll h head xs \<Longrightarrow> length xs < k \<Longrightarrow> initng_list_foreach head k h = Some xs"
  unfolding initng_list_foreach_def dll_def
  using path_first [of "nx h" head xs head] walk_path [of "nx h" xs head k] by auto

lemma dll_walk_rev: "dll h head xs \<Longrightarrow> length xs < k \<Longrightarrow> initng_list_foreach_rev head k h = Some (rev xs)"
  unfolding initng_list_foreach_rev_def dll_def
  using path_first [of "pv h" head "rev xs" head] walk_path [of "pv h" "rev xs" head k] by auto

lemma dll_init: "dll (initng_list_init head h) head []"
  by (simp add: dll_def initng_list_init_def)

lemma dll_linked: "dll h head xs \<Longrightarrow> p \<in> set xs \<Longrightarrow> linked p h"
  unfolding dll_def linked_def using path_member [of "nx h" "head # xs" head p] by auto

lemma dll_head: "dll h head xs \<Longrightarrow>
    nx h head = Some (hd (xs @ [head])) \<and> pv h head = Some (hd (rev xs @ [head]))"
  unfolding dll_def using path_first [of "nx h" head xs head] path_first [of "pv h" head "rev xs" head]
  by simp

lemma add_dll:
  assumes d: "dll h head xs" and p: "\<not> linked p h"
  shows "\<exists>h'. initng_list_add p head h = Some h' \<and> dll h' head (p # xs)"
proof -
  from d have "nx h head \<noteq> None" by (simp add: dll_head)
  with p have ne: "p \<noteq> head" by (auto simp: linked_def)
  from d p have notin: "p \<notin> set xs" using dll_linked by blast
  show ?thesis
  proof (cases xs)
    case Nil
    with d p ne show ?thesis
      by (simp add: initng_list_add_def dll_def linked_def)
  next
    case (Cons y ys)
    with d p ne notin show ?thesis
      by (simp add: initng_list_add_def dll_def linked_def path_splits butlast_append)
  qed
qed

lemma dll_cong:
  "dll h head xs \<Longrightarrow> \<forall>q \<in> set (head # xs). nx h' q = nx h q \<and> pv h' q = pv h q \<Longrightarrow> dll h' head xs"
proof -
  have cong: "path f l \<Longrightarrow> \<forall>q \<in> set (butlast l). g q = f q \<Longrightarrow> path g l" for f g l
    by (induction f l rule: path.induct) auto
  assume "dll h head xs" "\<forall>q \<in> set (head # xs). nx h' q = nx h q \<and> pv h' q = pv h q"
  then show "dll h' head xs"
    using cong [of "nx h" "head # xs @ [head]" "nx h'"]
      cong [of "pv h" "head # rev xs @ [head]" "pv h'"]
    by (simp add: dll_def butlast_append)
qed

lemma del_dll:
  assumes d: "dll h head (as @ p # bs)"
  shows "\<exists>h'. initng_list_del p h = Some h' \<and> dll h' head (as @ bs)
    \<and> nx h' p = None \<and> pv h' p = None"
proof (cases as rule: rev_cases)
  case Nil
  show ?thesis
  proof (cases bs)
    case Nil
    with \<open>as = []\<close> d show ?thesis
      by (simp add: initng_list_del_def dll_def)
  next
    case (Cons w ws)
    with \<open>as = []\<close> d show ?thesis
      by (simp add: initng_list_del_def dll_def path_splits butlast_append)
  qed
next
  case (snoc us u)
  show ?thesis
  proof (cases bs)
    case Nil
    with snoc d show ?thesis
      by (simp add: initng_list_del_def dll_def path_splits butlast_append)
  next
    case (Cons w ws)
    with snoc d show ?thesis
      by (simp add: initng_list_del_def dll_def path_splits butlast_append)
  qed
qed

lemma join_dll:
  assumes x: "dll h l xs" and y: "dll h head ys" and dis: "set (l # xs) \<inter> set (head # ys) = {}"
  shows "\<exists>h'. initng_list_join l head h = Some h' \<and> dll h' head (xs @ ys) \<and> dll h' l []"
proof (cases xs rule: rev_cases)
  case Nil
  with x y show ?thesis
    by (auto simp: initng_list_join_def initng_list_isempty_def dll_def)
next
  case (snoc us u)
  show ?thesis
  proof (cases us)
    case Nil
    with snoc x y dis show ?thesis
      by (cases ys) (simp_all add: initng_list_join_def initng_list_isempty_def
        initng_list_init_def dll_def path_splits butlast_append Let_def)
  next
    case (Cons v vs)
    with snoc dis have ne: "head \<noteq> l" "l \<noteq> head" "head \<noteq> v" "v \<noteq> head" "head \<noteq> u" "u \<noteq> head"
      and ny: "l \<notin> set ys" "v \<notin> set ys" "u \<notin> set ys" "head \<notin> set vs" by auto
    from x y have xd: "distinct (l # v # vs @ [u])" and yd: "distinct (head # ys)"
      by (simp_all add: dll_def snoc Cons)
    with ne ny snoc Cons x y dis show ?thesis
      by (cases ys) (auto simp add: initng_list_join_def initng_list_isempty_def
        initng_list_init_def dll_def path_splits butlast_append Let_def)
  qed
qed

lemma add_linked_frame:
  assumes d: "dll h head xs" and a: "initng_list_add p head h = Some h'" and p: "\<not> linked p h"
    and q: "q \<noteq> head"
  shows "linked q h' = (linked q h \<or> q = p)"
proof -
  from d obtain n where n: "nx h head = Some n" "n = hd (xs @ [head])" by (simp add: dll_head)
  with d dll_linked [of h head xs n] have l: "linked n h \<or> n = head" by (cases xs) auto
  from a p n have h': "nx h' = (nx h)(p := Some n, head := Some p)"
      "pv h' = (pv h)(n := Some p, p := Some head)"
    by (auto simp: initng_list_add_def linked_def)
  from l q show ?thesis
    by (auto simp: linked_def h')
qed

lemma del_linked_frame:
  assumes d: "dll h head (as @ p # bs)" and a: "initng_list_del p h = Some h'" and q: "q \<noteq> head"
  shows "linked q h' = (linked q h \<and> q \<noteq> p)"
proof -
  from d obtain n m where n: "nx h p = Some n" "n = hd (bs @ [head])"
      and m: "pv h p = Some m" "m = hd (rev as @ [head])"
    using path_append [of "nx h" "head # as" p "bs @ [head]"]
      path_append [of "pv h" "head # rev bs" p "rev as @ [head]"]
      path_first [of "nx h" p bs head] path_first [of "pv h" p "rev as" head]
    by (simp add: dll_def)
  from n d dll_linked have ln: "linked n h \<or> n = head" by (cases bs) auto
  from m d dll_linked have lm: "linked m h \<or> m = head" by (cases as rule: rev_cases) auto
  have ne: "n \<noteq> p" "m \<noteq> p"
    using n m d by (auto simp: dll_def hd_append hd_rev)
  with a n m have h': "nx h' = (nx h)(m := Some n, p := None)" "pv h' = (pv h)(n := Some m, p := None)"
    by (auto simp: initng_list_del_def)
  from ln lm ne q show ?thesis
    by (auto simp: linked_def h')
qed

interpretation plist: intrusive_list
  "\<lambda>h. dll h head" "\<lambda>p. p \<noteq> head" linked "\<lambda>p. initng_list_add p head" initng_list_del
  "initng_list_foreach_rev head"
proof (unfold_locales, goal_cases)
  case (1 h xs)
  then show ?case by (simp add: dll_def)
next
  case (2 h xs p)
  then show ?case by (rule dll_linked)
next
  case (3 p h)
  then show ?case by (auto simp: initng_list_add_def linked_def)
next
  case (4 h xs p)
  with add_dll [of h head xs p] add_linked_frame show ?case by blast
next
  case (5 p h)
  then show ?case by (auto simp: initng_list_del_def linked_def)
next
  case (6 h xs p)
  then obtain as bs where xs: "xs = as @ p # bs" by (meson split_list)
  with 6 have "list_del p xs = as @ bs"
    by (auto simp: list_del_def remove1_append dll_def)
  moreover from 6 xs obtain h' where h': "initng_list_del p h = Some h'" "dll h' head (as @ bs)"
    using del_dll [of h head as p bs] by blast
  moreover have "linked q h' = (linked q h \<and> q \<noteq> p)" if "q \<noteq> head" for q
    using del_linked_frame [of h head as p bs h' q] 6 xs h' that by simp
  ultimately show ?case by auto
next
  case (7 h xs k)
  then show ?case by (rule dll_walk_rev)
qed

section \<open>Properties\<close>

text \<open>C9: the pointer code of list.h implements plain lists. On a heap that holds the list
  \<open>xs\<close> on the head, any sequence of \<open>initng_list_add\<close> and \<open>initng_list_del\<close> on entries that
  are in this list or in no list runs without going through a NULL pointer, and the loop
  \<open>initng_list_foreach_rev\<close> then visits exactly the entries of the abstract list after the
  same operations, the first one added first.\<close>

theorem list_ops_refine:
  assumes "dll h head xs"
    and "\<forall>p \<in> op_node ` set os. p \<noteq> head \<and> (linked p h \<longleftrightarrow> p \<in> set xs)"
    and "length (run_list_ops os xs) < k"
  shows "\<exists>h'. run_heap_ops (\<lambda>p. initng_list_add p head) initng_list_del os h = Some h'
    \<and> dll h' head (run_list_ops os xs)
    \<and> initng_list_foreach_rev head k h' = Some (rev (run_list_ops os xs))"
proof -
  have "plist.owns head (op_node ` set os) h xs"
    using assms(1,2) by (simp add: plist.owns_def)
  from plist.run_refines [OF this subset_refl] assms(3) show ?thesis
    using dll_walk_rev plist.owns_def by blast
qed

theorem list_ops_refine_witness:
  "\<exists>h'. run_heap_ops (\<lambda>p. initng_list_add p 0) initng_list_del [Op_add 1, Op_add 2, Op_add 1, Op_del 1]
      (initng_list_init 0 \<lparr>nx = \<lambda>_. None, pv = \<lambda>_. None\<rparr>) = Some h'
    \<and> dll h' 0 [2] \<and> initng_list_foreach_rev 0 5 h' = Some [2]"
  using list_ops_refine [of "initng_list_init 0 \<lparr>nx = \<lambda>_. None, pv = \<lambda>_. None\<rparr>" 0 "[]"
      "[Op_add 1, Op_add 2, Op_add 1, Op_del 1]" 5] dll_init
  by (simp add: linked_def initng_list_init_def list_add_def list_del_def)

text \<open>\<open>initng_list_join\<close> moves every entry of one list in front of the entries of another
  and leaves the first list empty.\<close>

theorem list_join_correct:
  assumes "dll h l xs" and "dll h head ys" and "set (l # xs) \<inter> set (head # ys) = {}"
  shows "\<exists>h'. initng_list_join l head h = Some h' \<and> dll h' head (xs @ ys) \<and> dll h' l []"
  using join_dll [OF assms] .

theorem list_join_correct_witness:
  "\<exists>h'. initng_list_join 0 5 (the (initng_list_add 1 0 (initng_list_init 5 (initng_list_init 0
      \<lparr>nx = \<lambda>_. None, pv = \<lambda>_. None\<rparr>)))) = Some h' \<and> dll h' 5 [1] \<and> dll h' 0 []"
  using list_join_correct [of "the (initng_list_add 1 0 (initng_list_init 5 (initng_list_init 0
      \<lparr>nx = \<lambda>_. None, pv = \<lambda>_. None\<rparr>)))" 0 "[1]" 5 "[]"]
  by (simp add: dll_def initng_list_add_def initng_list_init_def)

text \<open>C32: \<open>initng_list_add_tail\<close> does not append. It overwrites the \<open>prev\<close> pointer of the head
  before it copies it, so the new entry becomes its own predecessor and a loop with
  \<open>initng_list_foreach_rev\<close> over the list never ends.\<close>

theorem list_add_tail_loops:
  assumes "dll h head xs" and "\<not> linked p h"
  shows "\<exists>h'. initng_list_add_tail p head h = Some h' \<and> pv h' p = Some p
    \<and> (\<forall>k. initng_list_foreach_rev head k h' = None)"
proof -
  from assms have q: "pv h head = Some (hd (rev xs @ [head]))" "nx h p = None" "pv h p = None"
    by (auto simp: dll_head linked_def)
  then have ne: "p \<noteq> head" by auto
  have loop: "walk_links f head k (Some p) = None" if "f p = Some p" for f k
    using that ne by (induction k) auto
  from q ne obtain h' where h': "initng_list_add_tail p head h = Some h'"
      "pv h' p = Some p" "pv h' head = Some p"
    by (simp add: initng_list_add_tail_def)
  with loop [of "pv h'"] show ?thesis
    by (simp add: initng_list_foreach_rev_def)
qed

theorem list_add_tail_loops_witness:
  "\<exists>h'. initng_list_add_tail 1 0 (initng_list_init 0 \<lparr>nx = \<lambda>_. None, pv = \<lambda>_. None\<rparr>) = Some h'
    \<and> pv h' 1 = Some 1 \<and> (\<forall>k. initng_list_foreach_rev 0 k h' = None)"
  using list_add_tail_loops [of "initng_list_init 0 \<lparr>nx = \<lambda>_. None, pv = \<lambda>_. None\<rparr>" 0 "[]" 1]
    dll_init by (simp add: linked_def initng_list_init_def)

end
