(* ===== verification/C_String.thy ===== *)
theory C_String
  imports Prelude "HOL-Library.Sublist"
begin

text \<open>
  The string helpers of src/main/string. A C string is its list of characters without the
  terminating NUL. Routines that work in place or may read behind the terminator (escape
  resolution, splitting) are written over the buffer, and a read behind it is the result None.
\<close>

section \<open>Operations\<close>

definition NUL :: char where "NUL = CHR 0x00"

text \<open>strcspn: the length of the longest prefix without a character of the set.\<close>

definition strcspn :: "string \<Rightarrow> string \<Rightarrow> nat" where
  "strcspn s reject = length (takeWhile (\<lambda>c. c \<notin> set reject) s)"

definition jump_spaces :: "string \<Rightarrow> string" where
  "jump_spaces s = dropWhile (\<lambda>c. c = CHR '' '' \<or> c = CHR 0x09) s"

text \<open>The quoted word of both parsers: the text up to the closing character.\<close>

definition dup_until :: "char \<Rightarrow> string \<Rightarrow> string option \<times> string" where
  "dup_until q s =
     (let i = strcspn s [q] in
      if i < 1 then (None, s)
      else let td = take i s; s = drop i s in
        (Some td, if s \<noteq> [] \<and> hd s = q then tl s else s))"

definition dup_plain :: "string \<Rightarrow> string \<Rightarrow> string option \<times> string" where
  "dup_plain stops s =
     (let i = strcspn s stops in
      if i < 1 then (None, s) else (Some (take i s), drop i s))"

definition initng_string_dup_next_word :: "string \<Rightarrow> string option \<times> string" where
  "initng_string_dup_next_word string =
     (let s = jump_spaces string in
      if s = [] \<or> hd s = CHR 0x0A then (None, s)
      else if hd s = CHR 0x22 then dup_until (CHR 0x22) (tl s)
      else if hd s = CHR ''{'' then dup_until (CHR ''}'') (tl s)
      else dup_plain [CHR '' '', CHR 0x09, CHR 0x0A, CHR '';'', CHR '',''] s)"

definition initng_string_dup_line :: "string \<Rightarrow> string option \<times> string" where
  "initng_string_dup_line string =
     (let s = jump_spaces string in
      if s = [] \<or> hd s = CHR 0x0A then (None, s)
      else if hd s = CHR 0x22 then dup_until (CHR 0x22) (tl s)
      else if hd s = CHR ''{'' then dup_until (CHR ''}'') (tl s)
      else dup_plain [CHR 0x0A, CHR '';''] s)"

text \<open>
  Escape resolution in place: \<open>s\<close> reads, \<open>d\<close> writes, over a buffer that ends with NUL. A read
  behind the buffer gives None.
\<close>

definition escape_char :: "char \<Rightarrow> char" where
  "escape_char c =
     (if c = CHR ''a'' then CHR 0x07 else if c = CHR ''b'' then CHR 0x08
      else if c = CHR ''f'' then CHR 0x0C else if c = CHR ''n'' then CHR 0x0A
      else if c = CHR ''r'' then CHR 0x0D else if c = CHR ''t'' then CHR 0x09
      else if c = CHR ''v'' then CHR 0x0B else c)"

function fix_loop :: "nat \<Rightarrow> nat \<Rightarrow> string \<Rightarrow> string option" where
  "fix_loop s d str =
     (if length str \<le> s then None
      else if str ! s = NUL then Some (str[d := NUL])
      else if str ! s \<noteq> CHR 0x5C then fix_loop (s + 1) (d + 1) (if s \<noteq> d then str[d := str ! s] else str)
      else if length str \<le> s + 1 then None
      else fix_loop (s + 2) (d + 1) (str[d := escape_char (str ! (s + 1))]))"
  by pat_completeness auto
termination
  by (relation "measure (\<lambda>(s, d, str). length str - s)") auto

declare fix_loop.simps [simp del]

definition initng_string_fix_escapes :: "string \<Rightarrow> string option" where
  "initng_string_fix_escapes str = fix_loop 0 0 str"

text \<open>The C string a buffer holds.\<close>

definition c_str :: "string \<Rightarrow> string" where
  "c_str buf = takeWhile (\<lambda>c. c \<noteq> NUL) buf"

definition slash_count :: "string \<Rightarrow> nat" where
  "slash_count s = length (filter (\<lambda>c. c = CHR ''/'') s)"

text \<open>fnmatch of the C library is the argument \<open>fnm\<close>: pattern first, then the string.\<close>

definition initng_string_match :: "(string \<Rightarrow> string \<Rightarrow> bool) \<Rightarrow> string \<Rightarrow> string \<Rightarrow> int" where
  "initng_string_match fnm string pattern =
     (if CHR ''*'' \<in> set string \<or> CHR ''?'' \<in> set string then FALSE
      else if \<not> fnm pattern string then FALSE
      else of_cond (slash_count string = slash_count pattern))"

definition is_wild :: "char \<Rightarrow> bool" where
  "is_wild c = (c = CHR ''*'' \<or> c = CHR ''?'')"

text \<open>The text in front of the last occurrence of a character, as strrchr finds it.\<close>

definition strrchr_pos :: "char \<Rightarrow> string \<Rightarrow> nat option" where
  "strrchr_pos c s =
     (if c \<in> set s then Some (length s - 1 - length (takeWhile (\<lambda>x. x \<noteq> c) (rev s))) else None)"

lemma strrchr_pos_less: "strrchr_pos c s = Some i \<Longrightarrow> i < length s"
  by (cases s) (auto simp: strrchr_pos_def split: if_splits)

function trunk_wild :: "string \<Rightarrow> string" where
  "trunk_wild copy =
     (case strrchr_pos (CHR ''*'') copy of
        Some i \<Rightarrow> trunk_wild (take i copy)
      | None \<Rightarrow> (case strrchr_pos (CHR ''?'') copy of
           Some i \<Rightarrow> trunk_wild (take i copy)
         | None \<Rightarrow> copy))"
  by pat_completeness auto
termination
  by (relation "measure length") (auto dest: strrchr_pos_less)

declare trunk_wild.simps [simp del]

definition initng_string_match_in_service :: "string \<Rightarrow> string \<Rightarrow> int" where
  "initng_string_match_in_service string pattern =
     (if CHR ''/'' \<in> set pattern then FALSE
      else let pattern = dropWhile is_wild pattern in
        if sublist pattern string then TRUE
        else if CHR ''*'' \<notin> set pattern \<and> CHR ''?'' \<notin> set pattern then FALSE
        else of_cond (sublist (trunk_wild pattern) string))"

definition initng_string_basename :: "string \<Rightarrow> string" where
  "initng_string_basename s =
     (case strrchr_pos (CHR ''/'') s of None \<Rightarrow> s | Some i \<Rightarrow> drop (i + 1) s)"

definition initng_string_dirname :: "string \<Rightarrow> string" where
  "initng_string_dirname s =
     (case strrchr_pos (CHR ''/'') s of None \<Rightarrow> s | Some i \<Rightarrow> take i s)"

definition initng_string_strip_end :: "string \<Rightarrow> int \<times> string" where
  "initng_string_strip_end s =
     (case strrchr_pos (CHR ''/'') s of None \<Rightarrow> (FALSE, s) | Some i \<Rightarrow> (TRUE, take i s))"

text \<open>
  Splitting: the loop over strtok_r with the set of delimiters; a token is a maximal run of
  other characters. The loop in front of it skips while strcspn is 0, also on the NUL.
\<close>

function strtok_all :: "string \<Rightarrow> string \<Rightarrow> string list" where
  "strtok_all delim s =
     (let s = dropWhile (\<lambda>c. c \<in> set delim) s in
      if s = [] then []
      else takeWhile (\<lambda>c. c \<notin> set delim) s # strtok_all delim (dropWhile (\<lambda>c. c \<notin> set delim) s))"
  by pat_completeness auto
termination
proof (relation "measure (\<lambda>(delim, s). length s)", goal_cases)
  case (2 delim s x)
  then have x: "x = dropWhile (\<lambda>c. c \<in> set delim) s" "x \<noteq> []" by auto
  then have "hd x \<notin> set delim" using hd_dropWhile by blast
  with x(2) have "length (dropWhile (\<lambda>c. c \<notin> set delim) x) < length x"
    by (cases x) (auto simp: less_Suc_eq_le length_dropWhile_le)
  moreover have "length x \<le> length s" by (simp add: x length_dropWhile_le)
  ultimately show ?case by simp
qed simp

declare strtok_all.simps [simp del]

fun skip_delims :: "string \<Rightarrow> string \<Rightarrow> string option" where
  "skip_delims delim [] = None"
| "skip_delims delim (c # cs) = (if c \<in> set delim then skip_delims delim cs else Some (c # cs))"

definition initng_string_split_delim :: "string \<Rightarrow> string \<Rightarrow> (string list \<times> nat) option" where
  "initng_string_split_delim string delim = do {
     s \<leftarrow> skip_delims delim string;
     let toks = strtok_all delim s;
     Some (toks, length toks + 1) }"

text \<open>Escape resolution as a recursion on the string.\<close>

fun unescape :: "string \<Rightarrow> string option" where
  "unescape [] = Some []"
| "unescape [c] = (if c = CHR 0x5C then None else Some [c])"
| "unescape (c # e # cs) =
     (if c = CHR 0x5C then map_option (Cons (escape_char e)) (unescape cs)
      else map_option (Cons c) (unescape (e # cs)))"

section \<open>Lemmas\<close>

lemma escape_char_NUL [simp]: "escape_char c = NUL \<longleftrightarrow> c = NUL" "NUL = escape_char c \<longleftrightarrow> NUL = c"
  by (auto simp: escape_char_def NUL_def)

lemma update_gap:
  "(out @ gap @ c # rest)[length out := v] = (out @ [v]) @ tl (gap @ [c]) @ rest"
  by (cases gap) simp_all

lemma fix_loop_unescape:
  "NUL \<notin> set rest \<Longrightarrow> \<exists>t. fix_loop (length (out @ gap)) (length out) (out @ gap @ rest @ [NUL])
     = map_option (\<lambda>u. out @ u @ NUL # t) (unescape rest)"
proof (induction rest arbitrary: out gap rule: unescape.induct)
  case 1
  show ?case
    using update_gap [of out gap NUL "[]" NUL]
    by (subst fix_loop.simps) (simp add: nth_append)
next
  case (2 c)
  have c: "(out @ gap @ [c, NUL]) ! length (out @ gap) = c" by (simp add: nth_append)
  show ?case
  proof (cases "c = CHR 0x5C")
    case True
    then have "fix_loop (length (out @ gap)) (length out) (out @ gap @ [c, NUL]) = None"
      by (subst fix_loop.simps, subst fix_loop.simps) (use 2 in \<open>auto simp: c NUL_def\<close>)
    with True show ?thesis by simp
  next
    case False
    have eq: "(if length (out @ gap) \<noteq> length out then (out @ gap @ [c, NUL])[length out := c]
        else out @ gap @ [c, NUL]) = (out @ [c]) @ tl (gap @ [c]) @ [NUL]"
      using update_gap [of out gap c "[NUL]" c] by (cases gap) auto
    have "fix_loop (length (out @ gap)) (length out) (out @ gap @ [c, NUL])
        = fix_loop (length (out @ gap) + 1) (length out + 1) ((out @ [c]) @ tl (gap @ [c]) @ [NUL])"
      by (subst fix_loop.simps) (use 2 False c eq in auto)
    also have "\<dots> = Some (((out @ [c]) @ tl (gap @ [c]) @ [NUL])[length out + 1 := NUL])"
      by (subst fix_loop.simps) (cases gap; simp add: nth_append)
    finally show ?thesis
      using update_gap [of "out @ [c]" "tl (gap @ [c])" NUL "[]" NUL] False by simp
  qed
next
  case (3 c e cs)
  have c: "(out @ gap @ c # e # cs @ [NUL]) ! length (out @ gap) = c"
    and e: "(out @ gap @ c # e # cs @ [NUL]) ! (length (out @ gap) + 1) = e"
    by (simp_all add: nth_append)
  show ?case
  proof (cases "c = CHR 0x5C")
    case True
    have "fix_loop (length (out @ gap)) (length out) (out @ gap @ c # e # cs @ [NUL])
        = fix_loop (length (out @ gap) + 2) (length out + 1)
            ((out @ [escape_char e]) @ tl (gap @ [c]) @ e # cs @ [NUL])"
      by (subst fix_loop.simps)
        (use True c e update_gap [of out gap c "e # cs @ [NUL]" "escape_char e"] in \<open>auto simp: NUL_def\<close>)
    with 3(1) [OF True, of "out @ [escape_char e]" "tl (gap @ [c]) @ [e]"] 3(3) True show ?thesis
      by (cases gap) (auto simp: option.map_comp comp_def)
  next
    case False
    have eq: "(if length (out @ gap) \<noteq> length out then (out @ gap @ c # e # cs @ [NUL])[length out := c]
        else out @ gap @ c # e # cs @ [NUL]) = (out @ [c]) @ tl (gap @ [c]) @ e # cs @ [NUL]"
      using update_gap [of out gap c "e # cs @ [NUL]" c] by (cases gap) auto
    have "fix_loop (length (out @ gap)) (length out) (out @ gap @ c # e # cs @ [NUL])
        = fix_loop (length (out @ gap) + 1) (length out + 1) ((out @ [c]) @ tl (gap @ [c]) @ e # cs @ [NUL])"
      by (subst fix_loop.simps) (use 3(3) False c eq in auto)
    with 3(2) [OF False, of "out @ [c]" "tl (gap @ [c])"] 3(3) False show ?thesis
      by (cases gap) (auto simp: option.map_comp comp_def)
  qed
qed

lemma unescape_plain: "CHR 0x5C \<notin> set s \<Longrightarrow> unescape s = Some s"
  by (induction s rule: unescape.induct) auto

lemma unescape_NUL: "unescape s = Some u \<Longrightarrow> NUL \<notin> set s \<Longrightarrow> NUL \<notin> set u"
  by (induction s arbitrary: u rule: unescape.induct) (auto split: if_splits)

lemma c_str_NUL: "NUL \<notin> set u \<Longrightarrow> c_str (u @ NUL # t) = u"
  unfolding c_str_def by (subst takeWhile_append2) auto

lemma unescape_trailing: "unescape (s @ [CHR 0x5C]) = None \<longleftrightarrow> unescape s \<noteq> None"
  by (induction s rule: unescape.induct) (auto split: if_splits)

lemma strrchr_split: "s = a @ c # b \<Longrightarrow> c \<notin> set b \<Longrightarrow> strrchr_pos c s = Some (length a)"
proof -
  assume s: "s = a @ c # b" and c: "c \<notin> set b"
  have "takeWhile (\<lambda>x. x \<noteq> c) (rev b @ [c] @ rev a) = rev b"
    by (subst takeWhile_append2) (use c in auto)
  with s show ?thesis by (simp add: strrchr_pos_def)
qed

lemma strrchr_None: "strrchr_pos c s = None \<longleftrightarrow> c \<notin> set s"
  by (simp add: strrchr_pos_def)

lemma strrchr_Some:
  assumes "strrchr_pos c s = Some i"
  shows "s = take i s @ c # drop (i + 1) s" and "c \<notin> set (drop (i + 1) s)"
proof -
  from assms have "c \<in> set s" by (simp add: strrchr_pos_def split: if_splits)
  then obtain a b where s: "s = a @ c # b" "c \<notin> set b" by (meson split_list_last)
  with assms strrchr_split have "i = length a" by fastforce
  with s show "s = take i s @ c # drop (i + 1) s" "c \<notin> set (drop (i + 1) s)" by simp_all
qed

lemma trunk_wild_takeWhile: "trunk_wild s = takeWhile (\<lambda>c. \<not> is_wild c) s"
proof (induction s rule: trunk_wild.induct)
  case (1 s)
  have cut: "takeWhile (\<lambda>c. \<not> is_wild c) (take i s) = takeWhile (\<lambda>c. \<not> is_wild c) s"
    if i: "strrchr_pos w s = Some i" and w: "is_wild w" for i w
  proof -
    have "takeWhile (\<lambda>c. \<not> is_wild c) (take i s @ w # drop (i + 1) s)
        = takeWhile (\<lambda>c. \<not> is_wild c) (take i s)"
      using w by (simp add: takeWhile_append) (metis takeWhile_eq_all_conv)
    with strrchr_Some(1) [OF i] show ?thesis by simp
  qed
  show ?case
  proof (cases "strrchr_pos (CHR ''*'') s")
    case (Some i)
    with 1 cut [of "CHR ''*''" i] have "trunk_wild (take i s) = takeWhile (\<lambda>c. \<not> is_wild c) s"
      by (simp add: is_wild_def)
    with Some show ?thesis by (subst trunk_wild.simps) simp
  next
    case None
    show ?thesis
    proof (cases "strrchr_pos (CHR ''?'') s")
      case (Some i)
      with None 1 cut [of "CHR ''?''" i] have "trunk_wild (take i s) = takeWhile (\<lambda>c. \<not> is_wild c) s"
        by (simp add: is_wild_def)
      with None Some show ?thesis by (subst trunk_wild.simps) simp
    next
      case N2: None
      from None N2 have tw: "takeWhile (\<lambda>c. \<not> is_wild c) s = s"
        by (auto simp: strrchr_None takeWhile_eq_all_conv is_wild_def)
      from None N2 have "trunk_wild s = s" by (subst trunk_wild.simps) simp
      then show ?thesis by (rule trans [OF _ sym [OF tw]])
    qed
  qed
qed

lemma strtok_all_tokens:
  "(\<forall>t \<in> set (strtok_all delim s). t \<noteq> [] \<and> set t \<inter> set delim = {})
    \<and> concat (strtok_all delim s) = filter (\<lambda>c. c \<notin> set delim) s"
proof (induction delim s rule: strtok_all.induct)
  case (1 delim s)
  define r where "r = dropWhile (\<lambda>c. c \<in> set delim) s"
  have fil: "filter (\<lambda>c. c \<notin> set delim) s = filter (\<lambda>c. c \<notin> set delim) r"
    unfolding r_def by (induction s) auto
  show ?case
  proof (cases "r = []")
    case True
    then have "strtok_all delim s = []" by (subst strtok_all.simps) (simp add: r_def Let_def)
    with fil True show ?thesis by simp
  next
    case False
    define q where "q = dropWhile (\<lambda>c. c \<notin> set delim) r"
    have eq: "strtok_all delim s = takeWhile (\<lambda>c. c \<notin> set delim) r # strtok_all delim q"
      using False by (subst strtok_all.simps) (simp add: r_def q_def Let_def)
    from False have "hd r \<notin> set delim" unfolding r_def using hd_dropWhile by blast
    with False have ne: "takeWhile (\<lambda>c. c \<notin> set delim) r \<noteq> []" by (cases r) auto
    have "filter (\<lambda>c. c \<notin> set delim) r = takeWhile (\<lambda>c. c \<notin> set delim) r @ filter (\<lambda>c. c \<notin> set delim) q"
      unfolding q_def by (induction r) auto
    moreover have "set (takeWhile (\<lambda>c. c \<notin> set delim) r) \<inter> set delim = {}"
      by (auto dest: set_takeWhileD)
    ultimately show ?thesis
      using 1 [OF r_def] False eq ne fil by (simp add: q_def)
  qed
qed

lemma skip_delims_None: "skip_delims delim s = None \<longleftrightarrow> set s \<subseteq> set delim"
  by (induction s) auto

lemma skip_delims_filter:
  "skip_delims delim s = Some r \<Longrightarrow> filter (\<lambda>c. c \<notin> set delim) r = filter (\<lambda>c. c \<notin> set delim) s"
  by (induction s) (auto split: if_splits)

section \<open>Properties\<close>

text \<open>C21: \<open>initng_string_fix_escapes\<close> on the buffer of a string leaves in the buffer the string
  with its escape sequences resolved; on a string that ends in an unpaired backslash (and on
  no other) it reads behind the terminator of the string.\<close>

theorem fix_escapes_correct:
  assumes "NUL \<notin> set str"
  shows "map_option c_str (initng_string_fix_escapes (str @ [NUL])) = unescape str"
proof -
  from fix_loop_unescape [OF assms, of "[]" "[]"] obtain t where
    t: "initng_string_fix_escapes (str @ [NUL]) = map_option (\<lambda>u. u @ NUL # t) (unescape str)"
    by (auto simp: initng_string_fix_escapes_def)
  show ?thesis
    by (cases "unescape str") (use t assms in \<open>auto simp: c_str_NUL dest: unescape_NUL\<close>)
qed

theorem fix_escapes_correct_witness:
  "map_option c_str (initng_string_fix_escapes ([CHR ''a'', CHR 0x5C, CHR ''t'', CHR ''b''] @ [NUL]))
     = Some [CHR ''a'', CHR 0x09, CHR ''b'']
   \<and> initng_string_fix_escapes ([CHR ''a'', CHR 0x5C] @ [NUL]) = None"
  using fix_escapes_correct [of "[CHR ''a'', CHR 0x5C, CHR ''t'', CHR ''b'']"]
    fix_escapes_correct [of "[CHR ''a'', CHR 0x5C]"]
  by (simp add: NUL_def escape_char_def)



text \<open>The directory part, a slash and the base name of a path give the path back, the base
  name has no slash, and repeated \<open>initng_string_strip_end\<close> follows the directory part.\<close>

theorem path_round_trip:
  "(if CHR ''/'' \<in> set s
    then initng_string_dirname s @ ''/'' @ initng_string_basename s = s
      \<and> initng_string_strip_end s = (TRUE, initng_string_dirname s)
    else initng_string_basename s = s \<and> initng_string_strip_end s = (FALSE, s))
   \<and> CHR ''/'' \<notin> set (initng_string_basename s)"
proof (cases "strrchr_pos (CHR ''/'') s")
  case None
  with strrchr_None [of "CHR ''/''" s] show ?thesis
    by (simp add: initng_string_basename_def initng_string_strip_end_def)
next
  case (Some i)
  then have "CHR ''/'' \<in> set s" by (simp add: strrchr_pos_def split: if_splits)
  with Some strrchr_Some(1) [OF Some, symmetric] strrchr_Some(2) [OF Some] show ?thesis
    by (simp add: initng_string_basename_def initng_string_dirname_def initng_string_strip_end_def)
qed

text \<open>\<open>initng_string_match_in_service\<close> accepts exactly when the pattern has no slash and,
  after its leading wildcards, the pattern itself or its text up to the first wildcard occurs
  in the service name; the loop that cuts the wildcards off always ends.\<close>

theorem match_in_service_correct:
  "initng_string_match_in_service string pattern = TRUE \<longleftrightarrow>
     CHR ''/'' \<notin> set pattern \<and>
     (let p = dropWhile is_wild pattern in
        sublist p string \<or> sublist (takeWhile (\<lambda>c. \<not> is_wild c) p) string)"
proof -
  define p where "p = dropWhile is_wild pattern"
  have tw: "sublist (takeWhile (\<lambda>c. \<not> is_wild c) p) string = sublist p string"
    if "CHR ''*'' \<notin> set p" "CHR ''?'' \<notin> set p"
  proof -
    from that have "takeWhile (\<lambda>c. \<not> is_wild c) p = p"
      by (auto simp: takeWhile_eq_all_conv is_wild_def)
    then show ?thesis by (rule arg_cong)
  qed
  show ?thesis
    unfolding initng_string_match_in_service_def Let_def trunk_wild_takeWhile of_cond_def
      p_def [symmetric]
    using tw by (simp split: if_split)
qed

end
