(* ===== verification/Data.thy ===== *)
theory Data
  imports Prelude
begin

text \<open>
  The variables of a service: src/main/data, the entry types of
  include/initng/service/data_type.h and the entries of src/main/static/data_id.c.

  A data head is its list of entries (newest first, the order of the \<open>next\<close> pointers) and the
  data head where a search goes on. The hooks \<open>data_request\<close> and \<open>res_request\<close> are NULL in
  every data head of the program (only DATA_HEAD_INIT is used). An entry carries its address,
  which the iteration with \<open>last\<close> compares, and whether its list pointers are set, which
  \<open>initng_list_add\<close> looks at. A new entry is allocated at an address given by the caller.
\<close>

section \<open>Entry types and entries\<close>

datatype e_dt = U_D_T | STRING | STRINGS | SET | INT_T | ALIAS | TIME_T
  | VARIABLE_STRING | VARIABLE_STRINGS | VARIABLE_SET | VARIABLE_INT | VARIABLE_TIME_T

fun e_dt_val :: "e_dt \<Rightarrow> int" where
  "e_dt_val U_D_T = 0"
| "e_dt_val STRING = 1"
| "e_dt_val STRINGS = 2"
| "e_dt_val SET = 3"
| "e_dt_val INT_T = 6"
| "e_dt_val ALIAS = 7"
| "e_dt_val TIME_T = 8"
| "e_dt_val VARIABLE_STRING = 51"
| "e_dt_val VARIABLE_STRINGS = 52"
| "e_dt_val VARIABLE_SET = 53"
| "e_dt_val VARIABLE_INT = 56"
| "e_dt_val VARIABLE_TIME_T = 58"

datatype s_entry = S_Entry (ent_name: string) (ent_type: e_dt) (ent_alias: "s_entry option")

fun alias_walk :: "s_entry \<Rightarrow> s_entry" where
  "alias_walk (S_Entry n t a) =
     (case a of
        None \<Rightarrow> S_Entry n t a
      | Some e \<Rightarrow> if t = ALIAS then alias_walk e else S_Entry n t a)"

definition IT :: "e_dt \<Rightarrow> s_entry \<Rightarrow> bool" where
  "IT x e = (e_dt_val (ent_type e) = e_dt_val x \<or> e_dt_val (ent_type e) = e_dt_val x + 50)"

text \<open>
  The union of a variable: all zero after calloc, a string, or a number. The value read
  through the member that was not written is left open.
\<close>

datatype u_val = U_zero | U_s string | U_i int

fun val_s :: "u_val \<Rightarrow> string option" where
  "val_s U_zero = None"
| "val_s (U_s s) = Some s"

fun val_i :: "u_val \<Rightarrow> int" where
  "val_i U_zero = 0"
| "val_i (U_i i) = i"

record s_data =
  d_addr :: nat
  d_t :: u_val
  d_type :: "s_entry option"
  d_vn :: "string option"
  d_linked :: bool

datatype data_head = Data_Head (dh_list: "s_data list") (dh_res: "data_head option")

definition DATA_HEAD_INIT :: data_head where
  "DATA_HEAD_INIT = Data_Head [] None"

text \<open>The entries of data_id.c.\<close>

definition ENV :: s_entry where "ENV = S_Entry ''env'' STRING None"
definition USE :: s_entry where "USE = S_Entry ''use'' STRINGS None"
definition NEED :: s_entry where "NEED = S_Entry ''need'' STRINGS None"
definition REQUIRE :: s_entry where "REQUIRE = S_Entry ''require'' STRINGS None"
definition FROM_FILE :: s_entry where "FROM_FILE = S_Entry ''from_file'' STRING None"
definition RESTARTING :: s_entry where "RESTARTING = S_Entry ''internal_restarting'' SET None"

lemmas entry_defs = ENV_def USE_def NEED_def REQUIRE_def FROM_FILE_def RESTARTING_def

section \<open>Searching\<close>

definition entry_match :: "s_entry option \<Rightarrow> string option \<Rightarrow> s_data \<Rightarrow> bool" where
  "entry_match type vn c =
     ((type = None \<or> d_type c = type) \<and> (d_vn c = None \<or> vn = None \<or> d_vn c = vn))"

text \<open>The loop over one list in the order of \<open>prev\<close>: the hit, and what is left of \<open>last\<close>.\<close>

fun scan_entries :: "s_entry option \<Rightarrow> string option \<Rightarrow> s_data list \<Rightarrow> nat option \<Rightarrow>
    s_data option \<times> nat option" where
  "scan_entries type vn [] lst = (None, lst)"
| "scan_entries type vn (c # cs) lst =
     (if lst \<noteq> None \<and> lst \<noteq> Some (d_addr c) then scan_entries type vn cs lst
      else if lst = Some (d_addr c) then scan_entries type vn cs None
      else if entry_match type vn c then (Some c, None)
      else scan_entries type vn cs None)"

fun initng_data_get_next_var :: "s_entry option \<Rightarrow> string option \<Rightarrow> data_head \<Rightarrow> nat option \<Rightarrow>
    s_data option" where
  "initng_data_get_next_var type vn (Data_Head l res) lst =
     (let type = map_option alias_walk type in
      case scan_entries type vn (rev l) lst of
        (Some current, _) \<Rightarrow> Some current
      | (None, lst) \<Rightarrow> (case res of
            Some h \<Rightarrow> initng_data_get_next_var type vn h lst
          | None \<Rightarrow> None))"

definition initng_data_get_int_var :: "s_entry option \<Rightarrow> string option \<Rightarrow> data_head \<Rightarrow> int" where
  "initng_data_get_int_var type vn d =
     (case initng_data_get_next_var type vn d None of
        Some current \<Rightarrow> val_i (d_t current)
      | None \<Rightarrow> 0)"

definition initng_data_get_string_var :: "s_entry option \<Rightarrow> string option \<Rightarrow> data_head \<Rightarrow> string option" where
  "initng_data_get_string_var type vn d =
     (case initng_data_get_next_var type vn d None of
        Some current \<Rightarrow> val_s (d_t current)
      | None \<Rightarrow> None)"

definition initng_data_get_next_string_var ::
    "s_entry option \<Rightarrow> string option \<Rightarrow> data_head \<Rightarrow> nat option \<Rightarrow> string option \<times> nat option" where
  "initng_data_get_next_string_var type vn d cur =
     (let current = initng_data_get_next_var type vn d cur;
          to_ret = (case current of Some c \<Rightarrow> val_s (d_t c) | None \<Rightarrow> None)
      in (to_ret, map_option d_addr current))"

definition initng_data_is_var :: "s_entry option \<Rightarrow> string option \<Rightarrow> data_head \<Rightarrow> bool" where
  "initng_data_is_var type vn d = (initng_data_get_next_var type vn d None \<noteq> None)"

definition initng_data_count_type :: "s_entry option \<Rightarrow> data_head \<Rightarrow> nat" where
  "initng_data_count_type type d =
     length (filter (\<lambda>c. type = None \<or> d_type c = type) (dh_list d))"

text \<open>
  The loop \<open>while ((s = get_next_string(type, service, &itt)))\<close>: the data is read again in
  every round, and the loop ends at the first missing string.
\<close>

fun while_next_string :: "s_entry \<Rightarrow> ('s \<Rightarrow> data_head) \<Rightarrow> (string \<Rightarrow> 's \<Rightarrow> ('r option \<times> 's) option) \<Rightarrow>
    nat \<Rightarrow> nat option \<Rightarrow> 's \<Rightarrow> ('r option \<times> 's) option" where
  "while_next_string type D body 0 itt s = None"
| "while_next_string type D body (Suc k) itt s =
     (case initng_data_get_next_string_var (Some type) None (D s) itt of
        (None, _) \<Rightarrow> Some (None, s)
      | (Some str, itt) \<Rightarrow> do {
          (r, s) \<leftarrow> body str s;
          (case r of Some v \<Rightarrow> Some (Some v, s)
                   | None \<Rightarrow> while_next_string type D body k itt s) })"

text \<open>
  The loop \<open>while ((current = get_next(type, service, current)))\<close> with a body that may change the
  program state.
\<close>

fun while_get_next :: "s_entry option \<Rightarrow> ('s \<Rightarrow> data_head) \<Rightarrow> (s_data \<Rightarrow> 's \<Rightarrow> ('r option \<times> 's) option) \<Rightarrow>
    nat \<Rightarrow> nat option \<Rightarrow> 's \<Rightarrow> ('r option \<times> 's) option" where
  "while_get_next type D body 0 current s = None"
| "while_get_next type D body (Suc k) current s =
     (case initng_data_get_next_var type None (D s) current of
        None \<Rightarrow> Some (None, s)
      | Some c \<Rightarrow> do {
          (r, s) \<leftarrow> body c s;
          (case r of Some v \<Rightarrow> Some (Some v, s)
                   | None \<Rightarrow> while_get_next type D body k (Some (d_addr c)) s) })"

section \<open>Setting and removing\<close>

fun data_list_add :: "s_data \<Rightarrow> data_head \<Rightarrow> data_head" where
  "data_list_add e (Data_Head l res) =
     Data_Head (if d_linked e then l else e\<lparr>d_linked := True\<rparr> # l) res"

text \<open>A write through the pointer to an entry, wherever in the chain it is.\<close>

fun data_update :: "nat \<Rightarrow> (s_data \<Rightarrow> s_data) \<Rightarrow> data_head \<Rightarrow> data_head" where
  "data_update a f (Data_Head l res) =
     Data_Head (map (\<lambda>c. if d_addr c = a then f c else c) l) (map_option (data_update a f) res)"

definition new_entry :: "nat \<Rightarrow> s_entry \<Rightarrow> string option \<Rightarrow> u_val \<Rightarrow> s_data" where
  "new_entry a type vn t = \<lparr>d_addr = a, d_t = t, d_type = Some type, d_vn = vn, d_linked = False\<rparr>"

text \<open>The checks in front of every setter: a type, a name where the type needs one, the kind.\<close>

definition setter_type :: "e_dt \<Rightarrow> s_entry option \<Rightarrow> string option \<Rightarrow> s_entry option" where
  "setter_type kind type vn =
     (case type of
        None \<Rightarrow> None
      | Some ty \<Rightarrow> (let ty = alias_walk ty in
          if vn = None \<and> 50 \<le> e_dt_val (ent_type ty) then None
          else if \<not> IT kind ty then None
          else Some ty))"

text \<open>Overwrite the current entry of this type and name, else create a new one.\<close>

definition store_value :: "nat \<Rightarrow> s_entry \<Rightarrow> string option \<Rightarrow> u_val \<Rightarrow> data_head \<Rightarrow> data_head" where
  "store_value a ty vn t d =
     (case initng_data_get_next_var (Some ty) vn d None of
        Some current \<Rightarrow> data_update (d_addr current) (\<lambda>c. c\<lparr>d_t := t\<rparr>) d
      | None \<Rightarrow> data_list_add (new_entry a ty vn t) d)"

definition initng_data_set_int_var ::
    "nat \<Rightarrow> s_entry option \<Rightarrow> string option \<Rightarrow> data_head \<Rightarrow> int \<Rightarrow> data_head" where
  "initng_data_set_int_var a type vn d v =
     (case setter_type INT_T type vn of
        None \<Rightarrow> d
      | Some ty \<Rightarrow> store_value a ty vn (U_i v) d)"

definition initng_data_set_string_var ::
    "nat \<Rightarrow> s_entry option \<Rightarrow> string option \<Rightarrow> data_head \<Rightarrow> string \<Rightarrow> data_head" where
  "initng_data_set_string_var a type vn d str =
     (case setter_type STRING type vn of
        None \<Rightarrow> d
      | Some ty \<Rightarrow> store_value a ty vn (U_s str) d)"

definition initng_data_set_var ::
    "nat \<Rightarrow> s_entry option \<Rightarrow> string option \<Rightarrow> data_head \<Rightarrow> data_head" where
  "initng_data_set_var a type vn d =
     (case setter_type SET type vn of
        None \<Rightarrow> d
      | Some ty \<Rightarrow>
          if initng_data_is_var (Some ty) vn d then d
          else data_list_add (new_entry a ty vn U_zero) d)"

definition initng_data_set_another_string_var ::
    "nat \<Rightarrow> s_entry option \<Rightarrow> string option \<Rightarrow> data_head \<Rightarrow> string \<Rightarrow> data_head" where
  "initng_data_set_another_string_var a type vn d str =
     (case setter_type STRINGS type vn of
        None \<Rightarrow> d
      | Some ty \<Rightarrow> data_list_add (new_entry a ty vn (U_s str)) d)"

text \<open>dfree: unlink the entry and free it.\<close>

fun dfree :: "nat \<Rightarrow> data_head \<Rightarrow> data_head" where
  "dfree a (Data_Head l res) =
     Data_Head (filter (\<lambda>c. d_addr c \<noteq> a) l) (map_option (dfree a) res)"

text \<open>The entries in the order in which a search meets them.\<close>

fun visible :: "data_head \<Rightarrow> s_data list" where
  "visible (Data_Head l res) = rev l @ (case res of None \<Rightarrow> [] | Some h \<Rightarrow> visible h)"

text \<open>Every entry is freed, then the head is initialised again: the link to \<open>res\<close> goes too.\<close>

definition initng_data_remove_all :: "data_head \<Rightarrow> data_head" where
  "initng_data_remove_all d = DATA_HEAD_INIT"

lemma visible_update [simp]:
  "visible (data_update a f d) = map (\<lambda>c. if d_addr c = a then f c else c) (visible d)"
  by (induction a f d rule: data_update.induct) (auto split: option.splits simp: rev_map)

lemma visible_dfree [simp]: "visible (dfree a d) = filter (\<lambda>c. d_addr c \<noteq> a) (visible d)"
  by (induction a d rule: dfree.induct) (auto split: option.splits simp: rev_filter)

text \<open>A search is a search in the list of visible entries behind \<open>last\<close>.\<close>

definition entries_after :: "nat option \<Rightarrow> s_data list \<Rightarrow> s_data list" where
  "entries_after lst cs =
     (case lst of None \<Rightarrow> cs | Some a \<Rightarrow> tl (dropWhile (\<lambda>c. d_addr c \<noteq> a) cs))"

lemma entries_after_simps [simp]:
  "entries_after None cs = cs" "entries_after (Some a) [] = []"
  "entries_after (Some a) (c # cs) = (if d_addr c = a then cs else entries_after (Some a) cs)"
  by (simp_all add: entries_after_def)

lemma scan_entries_append:
  "(case scan_entries ty vn cs lst of
      (Some c, _) \<Rightarrow> Some c
    | (None, lst') \<Rightarrow> find (entry_match ty vn) (entries_after lst' ds))
   = find (entry_match ty vn) (entries_after lst (cs @ ds))"
proof (induction cs arbitrary: lst)
  case (Cons c cs)
  then show ?case by (cases lst) (auto split: prod.splits option.splits)
qed simp

lemma alias_walk_idem [simp]: "alias_walk (alias_walk e) = alias_walk e"
  by (induction e rule: alias_walk.induct) (auto split: option.splits)

lemma get_next_find [data_laws]:
  "initng_data_get_next_var ty vn d lst =
     find (entry_match (map_option alias_walk ty) vn) (entries_after lst (visible d))"
proof (induction ty vn d lst rule: initng_data_get_next_var.induct)
  case (1 ty vn l res lst)
  let ?ty = "map_option alias_walk ty"
  have idem: "map_option alias_walk ?ty = ?ty" by (cases ty) auto
  show ?case
  proof (cases res)
    case None
    then show ?thesis
      using scan_entries_append [where ty = ?ty and vn = vn and cs = "rev l" and lst = lst and ds = "[]"]
      by (auto simp: entries_after_def split: prod.splits option.splits)
  next
    case (Some h)
    obtain c' lst' where sc: "scan_entries ?ty vn (rev l) lst = (c', lst')" by fastforce
    show ?thesis
    proof (cases c')
      case None
      with 1 [OF refl sc [symmetric] None Some] scan_entries_append [where ty = ?ty and vn = vn and cs = "rev l" and lst = lst and ds = "visible h"]
      show ?thesis by (simp add: Some sc Let_def idem)
    next
      case c: (Some c)
      with scan_entries_append [where ty = ?ty and vn = vn and cs = "rev l" and lst = lst and ds = "visible h"] show ?thesis
        by (auto simp: Some sc Let_def split: option.splits)
    qed
  qed
qed

lemma find_hit: "find P xs = Some c \<Longrightarrow> c \<in> set xs \<and> P c"
  by (auto simp: find_Some_iff)

lemma get_next_hit:
  "initng_data_get_next_var ty vn d None = Some c \<Longrightarrow>
    c \<in> set (visible d) \<and> entry_match (map_option alias_walk ty) vn c"
  by (auto simp: get_next_find dest: find_hit)

function initng_data_remove_var :: "s_entry \<Rightarrow> string option \<Rightarrow> data_head \<Rightarrow> data_head" where
  "initng_data_remove_var type vn d =
     (case initng_data_get_next_var (Some type) vn d None of
        Some current \<Rightarrow> initng_data_remove_var type vn (dfree (d_addr current) d)
      | None \<Rightarrow> d)"
  by pat_completeness auto
termination
proof (relation "measure (\<lambda>(type, vn, d). length (visible d))", goal_cases)
  case (2 type vn d c)
  then have "c \<in> set (visible d)" by (auto dest: get_next_hit)
  then have "length (filter (\<lambda>x. d_addr x \<noteq> d_addr c) (visible d)) < length (visible d)"
    by (rule length_filter_less) simp
  then show ?case by simp
qed simp

declare initng_data_remove_var.simps [simp del]

text \<open>
  Copying: every entry is duplicated with memcpy, its list pointers included, and handed to
  \<open>initng_list_add\<close>.
\<close>

fun copy_entries :: "nat \<Rightarrow> s_data list \<Rightarrow> data_head \<Rightarrow> data_head" where
  "copy_entries a [] to = to"
| "copy_entries a (c # cs) to =
     (if d_type c = None then copy_entries a cs to
      else copy_entries (a + 1) cs (data_list_add (c\<lparr>d_addr := a\<rparr>) to))"

definition initng_data_copy_all :: "nat \<Rightarrow> data_head \<Rightarrow> data_head \<Rightarrow> data_head" where
  "initng_data_copy_all a from to = copy_entries a (dh_list from) to"

text \<open>The loop \<open>while ((cur = get_next(type, d, cur)))\<close>, with the entries it visits.\<close>

fun get_next_loop :: "s_entry option \<Rightarrow> string option \<Rightarrow> data_head \<Rightarrow> nat \<Rightarrow> nat option \<Rightarrow>
    s_data list option" where
  "get_next_loop type vn d 0 lst = None"
| "get_next_loop type vn d (Suc k) lst =
     (case initng_data_get_next_var type vn d lst of
        None \<Rightarrow> Some []
      | Some c \<Rightarrow> map_option (Cons c) (get_next_loop type vn d k (Some (d_addr c))))"

section \<open>Well-formed data\<close>

definition payload_ok :: "s_entry \<Rightarrow> u_val \<Rightarrow> bool" where
  "payload_ok ty t =
     (((IT STRING ty \<or> IT STRINGS ty) \<longrightarrow> (case t of U_s s \<Rightarrow> True | _ \<Rightarrow> False))
      \<and> (IT INT_T ty \<longrightarrow> (case t of U_i i \<Rightarrow> True | _ \<Rightarrow> False))
      \<and> (IT SET ty \<longrightarrow> t = U_zero))"

definition entry_wf :: "s_data \<Rightarrow> bool" where
  "entry_wf c =
     (d_linked c \<and> (case d_type c of None \<Rightarrow> False
        | Some ty \<Rightarrow> alias_walk ty = ty \<and> payload_ok ty (d_t c)
            \<and> (d_vn c = None \<longrightarrow> e_dt_val (ent_type ty) < 50)))"

definition data_wf :: "data_head \<Rightarrow> bool" where
  "data_wf d = ((\<forall>c \<in> set (visible d). entry_wf c) \<and> distinct (map d_addr (visible d)))"

definition addr_fresh :: "nat \<Rightarrow> data_head \<Rightarrow> bool" where
  "addr_fresh a d = (a \<notin> d_addr ` set (visible d))"

text \<open>Requests to change the data of a service, as values.\<close>

datatype data_req =
    Set_int "s_entry option" "string option" int
  | Set_string "s_entry option" "string option" string
  | Set_flag "s_entry option" "string option"
  | Set_another_string "s_entry option" "string option" string
  | Remove_var s_entry "string option"
  | Remove_all

fun data_exec :: "nat \<Rightarrow> data_req \<Rightarrow> data_head \<Rightarrow> data_head" where
  "data_exec a (Set_int ty vn i) d = initng_data_set_int_var a ty vn d i"
| "data_exec a (Set_string ty vn s) d = initng_data_set_string_var a ty vn d s"
| "data_exec a (Set_flag ty vn) d = initng_data_set_var a ty vn d"
| "data_exec a (Set_another_string ty vn s) d = initng_data_set_another_string_var a ty vn d s"
| "data_exec a (Remove_var ty vn) d = initng_data_remove_var ty vn d"
| "data_exec a Remove_all d = initng_data_remove_all d"

lemma kind_unique:
  "IT INT_T ty \<Longrightarrow> \<not> IT STRING ty \<and> \<not> IT STRINGS ty \<and> \<not> IT SET ty"
  "IT STRING ty \<Longrightarrow> \<not> IT INT_T ty \<and> \<not> IT STRINGS ty \<and> \<not> IT SET ty"
  "IT STRINGS ty \<Longrightarrow> \<not> IT INT_T ty \<and> \<not> IT STRING ty \<and> \<not> IT SET ty"
  "IT SET ty \<Longrightarrow> \<not> IT INT_T ty \<and> \<not> IT STRING ty \<and> \<not> IT STRINGS ty"
  by (cases "ent_type ty"; simp add: IT_def)+

lemma setter_typeD:
  "setter_type kind type vn = Some ty \<Longrightarrow>
    alias_walk ty = ty \<and> IT kind ty \<and> (vn = None \<longrightarrow> e_dt_val (ent_type ty) < 50)
    \<and> map_option alias_walk type = Some ty"
  by (auto simp: setter_type_def Let_def split: option.splits if_splits)

lemma visible_add: "\<not> d_linked e \<Longrightarrow>
    visible (data_list_add e (Data_Head l res)) = rev l @ [e\<lparr>d_linked := True\<rparr>] @
      (case res of None \<Rightarrow> [] | Some h \<Rightarrow> visible h)"
  by simp

lemma set_visible_add:
  "\<not> d_linked e \<Longrightarrow> set (visible (data_list_add e d)) = insert (e\<lparr>d_linked := True\<rparr>) (set (visible d))"
  by (cases d) auto

lemma wf_add:
  assumes "data_wf d" "\<not> d_linked e" "entry_wf (e\<lparr>d_linked := True\<rparr>)" "addr_fresh (d_addr e) d"
  shows "data_wf (data_list_add e d)"
  using assms by (cases d) (auto simp: data_wf_def addr_fresh_def)

lemma wf_update:
  assumes "data_wf d" "\<And>c. d_addr (f c) = d_addr c"
    "\<And>c. c \<in> set (visible d) \<Longrightarrow> d_addr c = a \<Longrightarrow> entry_wf (f c)"
  shows "data_wf (data_update a f d)"
proof -
  have "d_addr \<circ> (\<lambda>c. if d_addr c = a then f c else c) = d_addr"
    using assms(2) by (auto simp: fun_eq_iff)
  with assms show ?thesis by (auto simp: data_wf_def)
qed

lemma wf_dfree: "data_wf d \<Longrightarrow> data_wf (dfree a d)"
  by (auto simp: data_wf_def distinct_map inj_on_def)

lemma wf_same_entry:
  "data_wf d \<Longrightarrow> c \<in> set (visible d) \<Longrightarrow> c' \<in> set (visible d) \<Longrightarrow> d_addr c = d_addr c' \<Longrightarrow> c = c'"
  by (auto simp: data_wf_def distinct_map inj_on_def)

lemma wf_set_found:
  assumes wf: "data_wf d" and hit: "initng_data_get_next_var (Some ty) vn d None = Some c"
    and ty: "alias_walk ty = ty" and ok: "payload_ok ty t"
  shows "data_wf (data_update (d_addr c) (\<lambda>c. c\<lparr>d_t := t\<rparr>) d)"
proof (rule wf_update [OF wf])
  fix x
  assume x: "x \<in> set (visible d)" "d_addr x = d_addr c"
  from get_next_hit [OF hit] ty have c: "c \<in> set (visible d)" "d_type c = Some ty"
    by (auto simp: entry_match_def)
  with wf_same_entry [OF wf x(1)] x(2) have "x = c" by simp
  with wf c ok show "entry_wf (x\<lparr>d_t := t\<rparr>)" by (auto simp: data_wf_def entry_wf_def)
qed simp

lemma wf_new_entry:
  assumes "data_wf d" "addr_fresh a d" "payload_ok ty t" "alias_walk ty = ty"
    "vn = None \<longrightarrow> e_dt_val (ent_type ty) < 50"
  shows "data_wf (data_list_add (new_entry a ty vn t) d)"
  by (rule wf_add) (use assms in \<open>auto simp: new_entry_def entry_wf_def\<close>)

lemma wf_set_int: "data_wf d \<Longrightarrow> addr_fresh a d \<Longrightarrow> data_wf (initng_data_set_int_var a ty vn d i)"
  by (auto simp: initng_data_set_int_var_def store_value_def payload_ok_def dest!: setter_typeD kind_unique(1)
      intro!: wf_set_found wf_new_entry split: option.splits)

lemma wf_set_string: "data_wf d \<Longrightarrow> addr_fresh a d \<Longrightarrow> data_wf (initng_data_set_string_var a ty vn d s)"
  by (auto simp: initng_data_set_string_var_def store_value_def payload_ok_def dest!: setter_typeD dest: kind_unique(2)
      intro!: wf_set_found wf_new_entry split: option.splits)

lemma wf_set_var: "data_wf d \<Longrightarrow> addr_fresh a d \<Longrightarrow> data_wf (initng_data_set_var a ty vn d)"
  by (auto simp: initng_data_set_var_def payload_ok_def dest!: setter_typeD dest: kind_unique(4)
      intro!: wf_new_entry split: option.splits)

lemma wf_set_another:
  "data_wf d \<Longrightarrow> addr_fresh a d \<Longrightarrow> data_wf (initng_data_set_another_string_var a ty vn d s)"
  by (auto simp: initng_data_set_another_string_var_def payload_ok_def dest!: setter_typeD
      dest: kind_unique(3) intro!: wf_new_entry split: option.splits)

lemma wf_init [simp]: "data_wf DATA_HEAD_INIT" "addr_fresh a DATA_HEAD_INIT"
  by (simp_all add: data_wf_def DATA_HEAD_INIT_def addr_fresh_def)

lemma wf_remove_all: "data_wf (initng_data_remove_all d)"
  by (simp add: data_wf_def initng_data_remove_all_def DATA_HEAD_INIT_def)

lemma visible_remove_var:
  "data_wf d \<Longrightarrow> visible (initng_data_remove_var ty vn d)
      = filter (\<lambda>c. \<not> entry_match (Some (alias_walk ty)) vn c) (visible d)
    \<and> data_wf (initng_data_remove_var ty vn d)"
proof (induction ty vn d rule: initng_data_remove_var.induct)
  case (1 ty vn d)
  show ?case
  proof (cases "initng_data_get_next_var (Some ty) vn d None")
    case None
    then have "filter (\<lambda>c. \<not> entry_match (Some (alias_walk ty)) vn c) (visible d) = visible d"
      by (auto simp: get_next_find find_None_iff filter_id_conv)
    with None 1(2) show ?thesis by (simp add: initng_data_remove_var.simps)
  next
    case (Some c)
    have hit: "c \<in> set (visible d)" "entry_match (Some (alias_walk ty)) vn c"
      using get_next_hit [OF Some] by simp_all
    have "filter (\<lambda>c. \<not> entry_match (Some (alias_walk ty)) vn c) (filter (\<lambda>x. d_addr x \<noteq> d_addr c) (visible d))
        = filter (\<lambda>c. \<not> entry_match (Some (alias_walk ty)) vn c) (visible d)"
      unfolding filter_filter
      by (rule filter_cong) (use wf_same_entry [OF 1(2) _ hit(1)] hit(2) in auto)
    with 1(1) [OF Some wf_dfree [OF 1(2)]] show ?thesis
      by (subst initng_data_remove_var.simps, simp add: Some)
        (subst initng_data_remove_var.simps, simp add: Some)
  qed
qed

section \<open>The store of single variables\<close>

text \<open>
  What the modules rely on when they keep a number or a string in a service: a lookup gives
  the value that was set last, and setting one variable leaves the separate ones alone.
\<close>

locale var_store =
  fixes ok :: "'d \<Rightarrow> bool"
    and kind :: "'k \<Rightarrow> bool"
    and separate :: "'k \<Rightarrow> 'k \<Rightarrow> bool"
    and get :: "'k \<Rightarrow> 'd \<Rightarrow> 'v"
    and put :: "'k \<Rightarrow> 'v \<Rightarrow> 'd \<Rightarrow> 'd"
  assumes put_ok: "ok d \<Longrightarrow> kind k \<Longrightarrow> ok (put k v d)"
    and get_put: "ok d \<Longrightarrow> kind k \<Longrightarrow> get k (put k v d) = v"
    and get_put_other: "ok d \<Longrightarrow> kind k \<Longrightarrow> separate k k' \<Longrightarrow> get k' (put k v d) = get k' d"
begin

definition puts :: "('k \<times> 'v) list \<Rightarrow> 'd \<Rightarrow> 'd" where
  "puts kvs d = foldl (\<lambda>d (k, v). put k v d) d kvs"

lemma puts_last_write:
  assumes "ok d" and "\<forall>(k', v) \<in> set kvs. kind k' \<and> (k' = k \<or> separate k' k)"
  shows "get k (puts kvs d) = (case map_of (rev kvs) k of Some v \<Rightarrow> v | None \<Rightarrow> get k d)
    \<and> ok (puts kvs d)"
  using assms(2)
proof (induction kvs rule: rev_induct)
  case Nil
  then show ?case by (simp add: puts_def assms(1))
next
  case (snoc x kvs)
  obtain k' v where x: "x = (k', v)" by (cases x)
  from snoc have ok: "ok (puts kvs d)" and
    ih: "get k (puts kvs d) = (case map_of (rev kvs) k of Some v \<Rightarrow> v | None \<Rightarrow> get k d)"
    by auto
  from snoc.prems x have "kind k'" "k' = k \<or> separate k' k" by auto
  with ok ih put_ok [OF ok] get_put [OF ok] get_put_other [OF ok] show ?case
    by (auto simp: puts_def x)
qed

end

definition next_addr :: "data_head \<Rightarrow> nat" where
  "next_addr d = Suc (sum_list (map d_addr (visible d)))"

definition var_separate :: "s_entry \<times> string option \<Rightarrow> s_entry \<times> string option \<Rightarrow> bool" where
  "var_separate k k' =
     (alias_walk (fst k) \<noteq> alias_walk (fst k')
      \<or> (50 \<le> e_dt_val (ent_type (alias_walk (fst k))) \<and> snd k \<noteq> None \<and> snd k' \<noteq> None \<and> snd k \<noteq> snd k'))"

definition var_kind :: "e_dt \<Rightarrow> s_entry \<times> string option \<Rightarrow> bool" where
  "var_kind t k = (setter_type t (Some (fst k)) (snd k) \<noteq> None)"

definition put_int :: "s_entry \<times> string option \<Rightarrow> int \<Rightarrow> data_head \<Rightarrow> data_head" where
  "put_int k v d = initng_data_set_int_var (next_addr d) (Some (fst k)) (snd k) d v"

definition get_int :: "s_entry \<times> string option \<Rightarrow> data_head \<Rightarrow> int" where
  "get_int k d = initng_data_get_int_var (Some (fst k)) (snd k) d"

definition put_string :: "s_entry \<times> string option \<Rightarrow> string option \<Rightarrow> data_head \<Rightarrow> data_head" where
  "put_string k v d = (case v of None \<Rightarrow> initng_data_remove_var (fst k) (snd k) d
     | Some str \<Rightarrow> initng_data_set_string_var (next_addr d) (Some (fst k)) (snd k) d str)"

definition get_string :: "s_entry \<times> string option \<Rightarrow> data_head \<Rightarrow> string option" where
  "get_string k d = initng_data_get_string_var (Some (fst k)) (snd k) d"

lemma next_addr_fresh [simp]: "addr_fresh (next_addr d) d"
  using member_le_sum_list [of _ "map d_addr (visible d)"]
  by (fastforce simp: addr_fresh_def next_addr_def)

text \<open>A search after a write to an entry and after an addition.\<close>

lemma find_append_case: "find P (xs @ ys) = (case find P xs of None \<Rightarrow> find P ys | Some x \<Rightarrow> Some x)"
  by (induction xs) auto

lemma find_add_new:
  assumes "\<not> d_linked e" and "find P (visible d) = None"
  shows "find P (visible (data_list_add e d)) =
    (if P (e\<lparr>d_linked := True\<rparr>) then Some (e\<lparr>d_linked := True\<rparr>) else None)"
  using assms by (cases d) (auto simp: find_append_case split: option.splits)

lemma find_add_other:
  assumes "\<not> d_linked e" and "\<not> P (e\<lparr>d_linked := True\<rparr>)"
  shows "find P (visible (data_list_add e d)) = find P (visible d)"
  using assms by (cases d) (auto simp: find_append_case split: option.splits)

lemma linked_new_entry [simp]: "\<not> d_linked (new_entry a ty vn t)"
  by (simp add: new_entry_def)

lemma match_upd_t [simp]: "entry_match ty vn (c\<lparr>d_t := t\<rparr>) = entry_match ty vn c"
  by (simp add: entry_match_def)

lemma find_write:
  "find (entry_match ty vn) (map (\<lambda>c. if d_addr c = a then c\<lparr>d_t := t\<rparr> else c) xs) =
     map_option (\<lambda>c. if d_addr c = a then c\<lparr>d_t := t\<rparr> else c) (find (entry_match ty vn) xs)"
  by (induction xs) auto

lemma set_found_or_new:
  assumes wf: "data_wf d" and st: "setter_type kind (Some (fst k)) (snd k) = Some ty"
  shows store_value_get: "\<exists>c. initng_data_get_next_var (Some (fst k)) (snd k)
      (store_value (next_addr d) ty (snd k) t d) None = Some c \<and> d_t c = t"
    and store_value_other: "var_separate k k' \<Longrightarrow>
      map_option d_t (initng_data_get_next_var (Some (fst k')) (snd k')
          (store_value (next_addr d) ty (snd k) t d) None)
        = map_option d_t (initng_data_get_next_var (Some (fst k')) (snd k') d None)"
proof -
  from setter_typeD [OF st] have ty: "alias_walk ty = ty" "alias_walk (fst k) = ty"
      "snd k = None \<longrightarrow> e_dt_val (ent_type ty) < 50" by auto
  show "\<exists>c. initng_data_get_next_var (Some (fst k)) (snd k)
      (store_value (next_addr d) ty (snd k) t d) None = Some c \<and> d_t c = t"
  proof (cases "initng_data_get_next_var (Some ty) (snd k) d None")
    case None
    then have "find (entry_match (Some ty) (snd k)) (visible d) = None"
      by (simp add: get_next_find ty)
    from None find_add_new [OF linked_new_entry this] show ?thesis
      by (auto simp: store_value_def get_next_find ty new_entry_def entry_match_def)
  next
    case (Some c)
    then show ?thesis by (simp add: store_value_def get_next_find ty find_write)
  qed
  assume sep: "var_separate k k'"
  let ?P = "entry_match (Some (alias_walk (fst k'))) (snd k')"
  show "map_option d_t (initng_data_get_next_var (Some (fst k')) (snd k')
          (store_value (next_addr d) ty (snd k) t d) None)
        = map_option d_t (initng_data_get_next_var (Some (fst k')) (snd k') d None)"
  proof (cases "initng_data_get_next_var (Some ty) (snd k) d None")
    case None
    have "\<not> ?P ((new_entry (next_addr d) ty (snd k) t)\<lparr>d_linked := True\<rparr>)"
      using sep ty by (auto simp: var_separate_def entry_match_def new_entry_def)
    from None find_add_other [where P = ?P, OF linked_new_entry this] show ?thesis
      by (simp add: store_value_def get_next_find)
  next
    case (Some c)
    from get_next_hit [OF Some] ty have c: "c \<in> set (visible d)" "d_type c = Some ty"
        "d_vn c = None \<or> snd k = None \<or> d_vn c = snd k" by (auto simp: entry_match_def)
    have "d_addr x \<noteq> d_addr c" if x: "find ?P (visible d) = Some x" for x
    proof
      assume "d_addr x = d_addr c"
      with find_hit [OF x] wf_same_entry [OF wf _ c(1)] have "x = c" by blast
      with find_hit [OF x] c sep ty wf show False
        by (auto simp: var_separate_def entry_match_def data_wf_def entry_wf_def)
    qed
    with Some show ?thesis
      by (cases "find ?P (visible d)") (simp_all add: store_value_def get_next_find find_write)
  qed
qed

lemma get_int_map:
  "get_int k d = (case map_option d_t (initng_data_get_next_var (Some (fst k)) (snd k) d None) of
     None \<Rightarrow> 0 | Some t \<Rightarrow> val_i t)"
  by (simp add: get_int_def initng_data_get_int_var_def split: option.splits)

lemma get_string_map:
  "get_string k d = (case map_option d_t (initng_data_get_next_var (Some (fst k)) (snd k) d None) of
     None \<Rightarrow> None | Some t \<Rightarrow> val_s t)"
  by (simp add: get_string_def initng_data_get_string_var_def split: option.splits)

interpretation int_store: var_store data_wf "var_kind INT_T" var_separate get_int put_int
proof (unfold_locales, goal_cases)
  case (1 d k v)
  then show ?case by (simp add: put_int_def wf_set_int)
next
  case (2 d k v)
  then obtain ty where ty: "setter_type INT_T (Some (fst k)) (snd k) = Some ty"
    by (auto simp: var_kind_def)
  from store_value_get [OF 2(1) ty, where t = "U_i v"] show ?case
    by (auto simp: get_int_map put_int_def initng_data_set_int_var_def ty)
next
  case (3 d k k' v)
  then obtain ty where ty: "setter_type INT_T (Some (fst k)) (snd k) = Some ty"
    by (auto simp: var_kind_def)
  from store_value_other [OF 3(1) ty 3(3), where t = "U_i v"] show ?case
    by (simp add: get_int_map put_int_def initng_data_set_int_var_def ty)
qed

lemma separate_match:
  assumes "data_wf d" and "c \<in> set (visible d)" and "var_separate k k'"
    and "entry_match (Some (alias_walk (fst k'))) (snd k') c"
  shows "\<not> entry_match (Some (alias_walk (fst k))) (snd k) c"
  using assms by (auto simp: var_separate_def entry_match_def data_wf_def entry_wf_def)

lemma find_filter: "(\<And>x. x \<in> set xs \<Longrightarrow> P x \<Longrightarrow> Q x) \<Longrightarrow> find P (filter Q xs) = find P xs"
  by (induction xs) auto

interpretation string_store: var_store data_wf "var_kind STRING" var_separate get_string put_string
proof (unfold_locales, goal_cases)
  case (1 d k v)
  then show ?case
    by (simp add: put_string_def wf_set_string visible_remove_var split: option.splits)
next
  case (2 d k v)
  then obtain ty where ty: "setter_type STRING (Some (fst k)) (snd k) = Some ty"
    by (auto simp: var_kind_def)
  show ?case
  proof (cases v)
    case None
    with 2 show ?thesis
      by (auto simp: get_string_map put_string_def get_next_find visible_remove_var
          split: option.splits dest!: find_hit)
  next
    case (Some str)
    with store_value_get [OF 2(1) ty, where t = "U_s str"] show ?thesis
      by (auto simp: get_string_map put_string_def initng_data_set_string_var_def ty)
  qed
next
  case (3 d k k' v)
  then obtain ty where ty: "setter_type STRING (Some (fst k)) (snd k) = Some ty"
    by (auto simp: var_kind_def)
  show ?case
  proof (cases v)
    case None
    have "find (entry_match (Some (alias_walk (fst k'))) (snd k'))
        (filter (\<lambda>c. \<not> entry_match (Some (alias_walk (fst k))) (snd k) c) (visible d))
      = find (entry_match (Some (alias_walk (fst k'))) (snd k')) (visible d)"
      by (rule find_filter) (use separate_match [OF 3(1) _ 3(3)] in blast)
    with None 3 show ?thesis
      by (simp add: get_string_map put_string_def get_next_find visible_remove_var)
  next
    case (Some str)
    with store_value_other [OF 3(1) ty 3(3), where t = "U_s str"] show ?thesis
      by (simp add: get_string_map put_string_def initng_data_set_string_var_def ty)
  qed
qed

lemma find_split:
  "find P xs = Some c \<Longrightarrow> \<exists>us ws. xs = us @ c # ws \<and> (\<forall>u \<in> set us. \<not> P u)"
proof (induction xs)
  case (Cons x xs)
  show ?case
  proof (cases "P x")
    case True
    with Cons.prems show ?thesis by (intro exI [of _ "[]"] exI [of _ xs]) auto
  next
    case False
    with Cons obtain us ws where "xs = us @ c # ws" "\<forall>u \<in> set us. \<not> P u" by auto
    with False show ?thesis by (intro exI [of _ "x # us"] exI [of _ ws]) auto
  qed
qed simp

lemma entries_after_split:
  "d_addr c \<notin> d_addr ` set us \<Longrightarrow> entries_after (Some (d_addr c)) (us @ c # ws) = ws"
  by (induction us) auto

lemma get_next_loop_rest:
  assumes "distinct (map d_addr (visible d))"
    and "visible d = pre @ suf" and "entries_after lst (visible d) = suf"
    and "length suf < k"
  shows "get_next_loop ty vn d k lst = Some (filter (entry_match (map_option alias_walk ty) vn) suf)"
  using assms
proof (induction k arbitrary: lst pre suf)
  case (Suc k)
  let ?P = "entry_match (map_option alias_walk ty) vn"
  show ?case
  proof (cases "find ?P suf")
    case None
    then have "filter ?P suf = []" by (auto simp: find_None_iff filter_empty_conv)
    with None Suc.prems show ?thesis by (simp add: get_next_find)
  next
    case (Some c)
    from find_hit [OF Some] have "?P c" by simp
    from find_split [OF Some] obtain us ws where
      suf: "suf = us @ c # ws" "\<forall>u \<in> set us. \<not> ?P u" by blast
    have "entries_after (Some (d_addr c)) (visible d) = ws"
      using Suc.prems(1,2) suf(1) entries_after_split [of c "pre @ us" ws]
      by (auto simp: image_Un)
    with Suc.IH [of "pre @ us @ [c]" ws "Some (d_addr c)"] Suc.prems suf \<open>?P c\<close> Some show ?thesis
      by (simp add: get_next_find)
  qed
qed simp

text \<open>The strings of one type, as a loop with \<open>get_next_string\<close> sees them.\<close>

definition strings_of :: "s_entry \<Rightarrow> data_head \<Rightarrow> string list" where
  "strings_of ty d = map (\<lambda>c. the (val_s (d_t c))) (filter (entry_match (Some (alias_walk ty)) None) (visible d))"

lemma while_next_string_rest:
  assumes inv: "\<And>str s s'. body str s = Some (None, s') \<Longrightarrow> D s' = D s"
    and str: "IT STRING (alias_walk ty) \<or> IT STRINGS (alias_walk ty)"
  shows "data_wf (D s) \<Longrightarrow> visible (D s) = pre @ suf \<Longrightarrow> entries_after lst (visible (D s)) = suf \<Longrightarrow>
    length suf < k \<Longrightarrow> while_next_string ty D body k lst s
      = each body (map (\<lambda>c. the (val_s (d_t c))) (filter (entry_match (Some (alias_walk ty)) None) suf)) s"
proof (induction k arbitrary: lst pre suf s)
  case (Suc k)
  let ?P = "entry_match (Some (alias_walk ty)) None"
  show ?case
  proof (cases "find ?P suf")
    case None
    then have "filter ?P suf = []" by (auto simp: find_None_iff filter_empty_conv)
    with None Suc.prems show ?thesis
      by (simp add: get_next_find initng_data_get_next_string_var_def)
  next
    case (Some c)
    from find_hit [OF Some] have c: "?P c" "c \<in> set suf" by simp_all
    from find_split [OF Some] obtain us ws where
      suf: "suf = us @ c # ws" "\<forall>u \<in> set us. \<not> ?P u" by blast
    from Suc.prems(1) have "distinct (map d_addr (visible (D s)))" by (simp add: data_wf_def)
    then have after: "entries_after (Some (d_addr c)) (visible (D s)) = ws"
      using Suc.prems(2) suf(1) entries_after_split [of c "pre @ us" ws]
      by (auto simp: image_Un)
    from Suc.prems c have "entry_wf c" "d_type c = Some (alias_walk ty)"
      by (auto simp: data_wf_def entry_match_def)
    with str have "\<exists>x. val_s (d_t c) = Some x"
      by (auto simp: entry_wf_def payload_ok_def split: u_val.splits)
    then obtain x where x: "val_s (d_t c) = Some x" ..
    have flt: "filter ?P suf = c # filter ?P ws" using suf c by simp
    have step: "while_next_string ty D body k (Some (d_addr c)) s'
        = each body (map (\<lambda>c. the (val_s (d_t c))) (filter ?P ws)) s'"
      if b: "body x s = Some (None, s')" for s'
      using inv [OF b] Suc.IH [of s' "pre @ us @ [c]" ws "Some (d_addr c)"] Suc.prems suf after by simp
    show ?thesis
      using Some Suc.prems x flt step
      by (auto simp: get_next_find initng_data_get_next_string_var_def
          split: option.splits bind_splits prod.splits)
  qed
qed simp

lemma while_next_string_each:
  assumes "\<And>str s s'. body str s = Some (None, s') \<Longrightarrow> D s' = D s"
    and "IT STRING (alias_walk ty) \<or> IT STRINGS (alias_walk ty)"
    and "data_wf (D s)" and "length (visible (D s)) < k"
  shows "while_next_string ty D body k None s = each body (strings_of ty (D s)) s"
  unfolding strings_of_def
  by (rule while_next_string_rest [where pre = "[]"]) (use assms in auto)

lemma while_get_next_rest:
  assumes inv: "\<And>c s s'. P s \<Longrightarrow> c \<in> set (visible (D s)) \<Longrightarrow> body c s = Some (None, s') \<Longrightarrow> D s' = D s \<and> P s'"
  shows "P s \<Longrightarrow> distinct (map d_addr (visible (D s))) \<Longrightarrow> visible (D s) = pre @ suf \<Longrightarrow>
    entries_after lst (visible (D s)) = suf \<Longrightarrow> length suf < k \<Longrightarrow>
    while_get_next ty D body k lst s = each body (filter (entry_match (map_option alias_walk ty) None) suf) s"
proof (induction k arbitrary: lst pre suf s)
  case 0
  then show ?case by (simp only: not_less_zero)
next
  case (Suc k)
  let ?P = "entry_match (map_option alias_walk ty) None"
  show ?case
  proof (cases "find ?P suf")
    case None
    then have "filter ?P suf = []" by (auto simp: find_None_iff filter_empty_conv)
    with None Suc.prems show ?thesis by (simp add: get_next_find)
  next
    case (Some c)
    from find_hit [OF Some] have c: "?P c" and "c \<in> set suf" by simp_all
    then have cv: "c \<in> set (visible (D s))" unfolding Suc.prems(3) by simp
    from find_split [OF Some] obtain us ws where
      suf: "suf = us @ c # ws" "\<forall>u \<in> set us. \<not> ?P u" by blast
    have after: "entries_after (Some (d_addr c)) (visible (D s)) = ws"
      using Suc.prems(2,3) suf(1) entries_after_split [of c "pre @ us" ws]
      by (auto simp: image_Un)
    have flt: "filter ?P suf = c # filter ?P ws" using suf c by simp
    have step: "while_get_next ty D body k (Some (d_addr c)) s' = each body (filter ?P ws) s'"
      if b: "body c s = Some (None, s')" for s'
      using inv [OF Suc.prems(1) cv b] Suc.IH [of s' "pre @ us @ [c]" ws "Some (d_addr c)"] Suc.prems suf after by simp
    have next_c: "initng_data_get_next_var ty None (D s) lst = Some c"
      using Some Suc.prems(4) by (simp add: get_next_find)
    show ?thesis
    proof (cases "body c s")
      case (Some x)
      with next_c flt step show ?thesis by (cases x) (simp split: option.splits)
    qed (simp add: next_c flt)
  qed
qed

lemma while_get_next_each_inv:
  assumes "\<And>c s s'. P s \<Longrightarrow> c \<in> set (visible (D s)) \<Longrightarrow> body c s = Some (None, s') \<Longrightarrow> D s' = D s \<and> P s'"
    and "P s" and "data_wf (D s)" and "length (visible (D s)) < k"
  shows "while_get_next None D body k None s = each body (visible (D s)) s"
proof -
  have "while_get_next None D body k None s
      = each body (filter (entry_match (map_option alias_walk None) None) (visible (D s))) s"
  proof (rule while_get_next_rest [where P = P and pre = "[]"])
    show "D s' = D s \<and> P s'" if "P s" "c \<in> set (visible (D s))" "body c s = Some (None, s')" for c s s'
      using that by (rule assms(1))
  qed (use assms(2-4) in \<open>simp_all add: data_wf_def\<close>)
  then show ?thesis by (simp add: entry_match_def)
qed

lemma while_get_next_each:
  assumes "\<And>c s s'. body c s = Some (None, s') \<Longrightarrow> D s' = D s"
    and "data_wf (D s)" and "length (visible (D s)) < k"
  shows "while_get_next None D body k None s = each body (visible (D s)) s"
proof (rule while_get_next_each_inv [where P = "\<lambda>_. True"])
  show "D s' = D s \<and> True" if "body c s = Some (None, s')" for c s s'
    using assms(1) [OF that] by simp
qed (use assms(2,3) in simp_all)

text \<open>A loop whose body does not return on an entry does not return, if the entries before that
  one leave the state alone.\<close>

lemma while_get_next_stuck:
  assumes "distinct (map d_addr (visible (D s)))" and "body c s = None"
  shows "visible (D s) = pre @ us @ c # ws \<Longrightarrow> entries_after lst (visible (D s)) = us @ c # ws \<Longrightarrow>
    \<forall>u \<in> set us. body u s = Some (None, s) \<Longrightarrow> while_get_next None D body k lst s = None"
proof (induction us arbitrary: pre lst k)
  case Nil
  then show ?case using assms(2) by (cases k) (simp_all add: get_next_find entry_match_def)
next
  case (Cons u us)
  have "entries_after (Some (d_addr u)) (visible (D s)) = us @ c # ws"
    using Cons.prems(1) assms(1) entries_after_split [of u pre "us @ c # ws"] by auto
  with Cons.IH [of "pre @ [u]" "Some (d_addr u)"] Cons.prems show ?case
    by (cases k) (simp_all add: get_next_find entry_match_def)
qed

lemma while_get_next_invariant:
  assumes "\<And>c s r s'. body c s = Some (r, s') \<Longrightarrow> P s \<Longrightarrow> P s'"
  shows "while_get_next ty D body k lst s = Some (r, s') \<Longrightarrow> P s \<Longrightarrow> P s'"
proof (induction k arbitrary: lst s)
  case (Suc k)
  then show ?case
    using assms by (force split: option.splits bind_splits)
qed simp

lemma copy_entries_linked: "\<forall>c \<in> set cs. d_linked c \<Longrightarrow> copy_entries a cs d = d"
proof (induction cs arbitrary: a)
  case (Cons c cs)
  then show ?case by (cases d) auto
qed simp

section \<open>Properties\<close>

text \<open>C10: every request that changes the variables of a service keeps them well formed: each
  entry is linked, has an entry type that is no alias and a value of the kind of that type,
  and no two entries share an address.\<close>

theorem data_requests_keep_wf:
  assumes "data_wf d" and "addr_fresh a d"
  shows "data_wf (data_exec a req d)"
  using assms
  by (cases req) (simp_all add: wf_set_int wf_set_string wf_set_var wf_set_another
      visible_remove_var wf_remove_all)

theorem data_requests_keep_wf_witness:
  "data_wf (data_exec 7 (Set_another_string (Some NEED) None ''net/lo'') DATA_HEAD_INIT)"
  by (rule data_requests_keep_wf) simp_all

text \<open>C16: iterating with \<open>initng_data_get_next_var\<close> from NULL until it returns NULL visits exactly
  the entries of the type and name, each once, the oldest one first, those of the data head
  itself before those of the head it refers to; the iteration ends.\<close>

theorem data_iteration_complete:
  assumes "data_wf d" and "length (visible d) < k"
  shows "get_next_loop ty vn d k None =
    Some (filter (entry_match (map_option alias_walk ty) vn) (visible d))"
  by (rule get_next_loop_rest [where pre = "[]"]) (use assms in \<open>auto simp: data_wf_def\<close>)

theorem data_iteration_complete_witness:
  "get_next_loop (Some NEED) None
     (data_exec 1 (Set_another_string (Some NEED) None ''b'')
       (data_exec 0 (Set_another_string (Some NEED) None ''a'') DATA_HEAD_INIT)) 3 None
   = Some [\<lparr>d_addr = 0, d_t = U_s ''a'', d_type = Some NEED, d_vn = None, d_linked = True\<rparr>,
           \<lparr>d_addr = 1, d_t = U_s ''b'', d_type = Some NEED, d_vn = None, d_linked = True\<rparr>]"
  by (subst data_iteration_complete)
    (simp_all add: DATA_HEAD_INIT_def data_wf_def initng_data_set_another_string_var_def
      setter_type_def NEED_def IT_def new_entry_def entry_wf_def payload_ok_def entry_match_def)



text \<open>C17: \<open>initng_data_remove_var\<close> ends and removes exactly the entries of the type and name,
  keeping the order of the others.\<close>

theorem data_remove_exact:
  assumes "data_wf d"
  shows "visible (initng_data_remove_var ty vn d)
      = filter (\<lambda>c. \<not> entry_match (Some (alias_walk ty)) vn c) (visible d)
    \<and> \<not> initng_data_is_var (Some ty) vn (initng_data_remove_var ty vn d)"
  using visible_remove_var [OF assms, of ty vn]
  by (auto simp: initng_data_is_var_def get_next_find find_None_iff)

theorem data_remove_exact_witness:
  "\<not> initng_data_is_var (Some RESTARTING) None (initng_data_remove_var RESTARTING None
     (initng_data_set_var 3 (Some RESTARTING) None DATA_HEAD_INIT))"
  by (rule data_remove_exact [THEN conjunct2])
    (simp add: wf_set_var)

text \<open>\<open>initng_data_copy_all\<close> copies nothing: the copy made with memcpy carries the list
  pointers of the original, so \<open>initng_list_add\<close> takes it for an entry that is linked already
  and the destination stays as it was.\<close>

theorem data_copy_all_copies_nothing:
  assumes "data_wf from"
  shows "initng_data_copy_all a from to = to"
  unfolding initng_data_copy_all_def
  by (rule copy_entries_linked)
    (use assms in \<open>cases from; auto simp: data_wf_def entry_wf_def\<close>)

theorem data_copy_all_copies_nothing_witness:
  "initng_data_copy_all 9 (initng_data_set_var 3 (Some RESTARTING) None DATA_HEAD_INIT) DATA_HEAD_INIT
    = DATA_HEAD_INIT"
  by (rule data_copy_all_copies_nothing)
    (simp add: wf_set_var)

end
