(* ===== verification/Hash.thy ===== *)
theory Hash
  imports Prelude "HOL-Library.Word"
begin

text \<open>
  The string hash of src/main/hash/hash.c in the 64 bit variant (x86_64). A service is looked
  up by comparing hashes first and names second, so the hash has to depend on the name only.
  The C code converts a signed char to the unsigned hash type, which extends the sign of the
  bytes from 128 on: for these bytes the routine is not the FNV-1a hash its comment names.
\<close>

unbundle bit_operations_syntax

type_synonym hash_t = "64 word"

definition FNV_INIT :: hash_t where "FNV_INIT = 0xcbf29ce484222325"
definition FNV_PRIME :: hash_t where "FNV_PRIME = 0x100000001b3"

text \<open>The conversion \<open>(hash_t) octet\<close> of a signed char.\<close>

definition octet :: "char \<Rightarrow> hash_t" where
  "octet c = (let v = of_char c :: int in word_of_int (if v < 128 then v else v - 256))"

definition fnv_pass :: "hash_t \<Rightarrow> char \<Rightarrow> hash_t" where
  "fnv_pass hval c = (hval XOR octet c) * FNV_PRIME"

fun hash_loop :: "hash_t \<Rightarrow> string \<Rightarrow> hash_t" where
  "hash_loop hval [] = hval"
| "hash_loop hval (c # cs) = hash_loop (fnv_pass hval c) cs"

definition initng_hash_str :: "string \<Rightarrow> hash_t" where
  "initng_hash_str str = hash_loop FNV_INIT (takeWhile (\<lambda>c. c \<noteq> CHR 0x00) str)"

definition initng_hash_buf :: "string \<Rightarrow> nat \<Rightarrow> hash_t option" where
  "initng_hash_buf buf len =
     (if len \<le> length buf then Some (hash_loop FNV_INIT (take len buf)) else None)"

text \<open>The hash FNV-1a as published: each byte enters as a value between 0 and 255.\<close>

definition fnv1a :: "string \<Rightarrow> hash_t" where
  "fnv1a s = foldl (\<lambda>h c. (h XOR word_of_int (of_char c)) * FNV_PRIME) FNV_INIT s"

lemma of_char_range: "0 \<le> (of_char c :: int)" "(of_char c :: int) < 256"
  by (simp_all add: of_char_def)

lemma mod_small_inj:
  fixes x y :: int
  assumes "x mod m = y mod m" and "\<bar>x - y\<bar> < m"
  shows "x = y"
proof -
  from assms(1) have "m dvd x - y" by (simp add: mod_eq_dvd_iff)
  with assms(2) show ?thesis using dvd_imp_le_int [of "x - y" m] by force
qed

lemma octet_inj: "octet c = octet d \<Longrightarrow> c = d"
proof -
  define v :: "char \<Rightarrow> int" where "v e = (if (of_char e :: int) < 128 then of_char e else of_char e - 256)" for e
  assume "octet c = octet d"
  then have "word_of_int (v c) = (word_of_int (v d) :: hash_t)"
    by (simp add: octet_def v_def Let_def)
  then have "v c mod 2 ^ 64 = v d mod 2 ^ 64"
    by (simp add: word_of_int_eq_iff take_bit_eq_mod)
  moreover have "\<bar>v c - v d\<bar> < 2 ^ 64"
    using of_char_range [of c] of_char_range [of d] by (auto simp: v_def)
  ultimately have "v c = v d" by (rule mod_small_inj)
  then have "(of_char c :: int) = of_char d"
    using of_char_range [of c] of_char_range [of d] by (auto simp: v_def split: if_splits)
  then show "c = d" by (simp add: of_char_eq_iff)
qed

lemma fnv_prime_cancel: "(a :: hash_t) * FNV_PRIME = b * FNV_PRIME \<Longrightarrow> a = b"
proof -
  have inv: "FNV_PRIME * 14886173955864302971 = 1" by (simp add: FNV_PRIME_def)
  assume "a * FNV_PRIME = b * FNV_PRIME"
  then have "a * FNV_PRIME * 14886173955864302971 = b * FNV_PRIME * 14886173955864302971" by simp
  then show "a = b" by (simp only: mult.assoc inv mult_1_right)
qed

lemma xor_cancel_word: "(a :: hash_t) XOR b = a XOR c \<longleftrightarrow> b = c"
proof
  assume "a XOR b = a XOR c"
  then have "a XOR (a XOR b) = a XOR (a XOR c)" by simp
  then show "b = c" by (simp add: xor.assoc [symmetric])
qed simp

lemma fnv_pass_state_inj: "fnv_pass h c = fnv_pass k c \<longleftrightarrow> h = k"
  using fnv_prime_cancel [of "h XOR octet c" "k XOR octet c"] xor_cancel_word [of "octet c" h k]
  by (auto simp: fnv_pass_def xor.commute)

lemma fnv_pass_char_inj: "fnv_pass h c = fnv_pass h d \<longleftrightarrow> c = d"
  using fnv_prime_cancel [of "h XOR octet c" "h XOR octet d"] xor_cancel_word [of h] octet_inj
  by (auto simp: fnv_pass_def)

lemma hash_loop_inj: "hash_loop h s = hash_loop k s \<longleftrightarrow> h = k"
  by (induction s arbitrary: h k) (simp_all add: fnv_pass_state_inj)

lemma hash_loop_append: "hash_loop h (s @ t) = hash_loop (hash_loop h s) t"
  by (induction s arbitrary: h) simp_all

lemma hash_loop_foldl: "hash_loop h s = foldl fnv_pass h s"
  by (induction s arbitrary: h) simp_all

lemma hash_str_loop: "CHR 0x00 \<notin> set s \<Longrightarrow> initng_hash_str s = hash_loop FNV_INIT s"
  unfolding initng_hash_str_def by (subst takeWhile_eq_all_conv [THEN iffD2]) auto

section \<open>Properties\<close>

text \<open>Two names that differ in exactly one character never have the same hash, whatever
  the character is, so the hash test in front of the name comparison already tells them
  apart.\<close>

theorem hash_single_char:
  assumes "CHR 0x00 \<notin> set (s @ [c, d] @ t)"
  shows "initng_hash_str (s @ c # t) = initng_hash_str (s @ d # t) \<longleftrightarrow> c = d"
  using assms
  by (auto simp: hash_str_loop hash_loop_append hash_loop_inj fnv_pass_char_inj)

theorem hash_single_char_witness: "initng_hash_str ''net/eth0'' \<noteq> initng_hash_str ''net/eth1''"
  using hash_single_char [of "''net/eth''" "CHR ''0''" "CHR ''1''" "[]"] by simp

text \<open>C20: on names of 7 bit characters the routine is the published FNV-1a hash, and the
  string and the buffer entry point agree.\<close>

theorem hash_is_fnv1a:
  assumes "\<forall>c \<in> set s. 0 < (of_char c :: int) \<and> (of_char c :: int) < 128"
  shows "initng_hash_str s = fnv1a s \<and> initng_hash_buf s (length s) = Some (fnv1a s)"
proof -
  have "hash_loop FNV_INIT s = fnv1a s"
    unfolding hash_loop_foldl fnv1a_def
    by (rule foldl_cong) (use assms in \<open>auto simp: fnv_pass_def octet_def\<close>)
  moreover from assms have "CHR 0x00 \<notin> set s" by auto
  ultimately show ?thesis
    by (simp_all add: hash_str_loop initng_hash_buf_def)
qed

theorem hash_is_fnv1a_witness: "initng_hash_str ''net/eth0'' = fnv1a ''net/eth0''"
  using hash_is_fnv1a [of "''net/eth0''"] by simp

text \<open>On a byte of 128 or more the sign extension makes the result differ from FNV-1a.\<close>

theorem hash_not_fnv1a: "initng_hash_str [CHR 0xE9] \<noteq> fnv1a [CHR 0xE9]"
proof
  assume "initng_hash_str [CHR 0xE9] = fnv1a [CHR 0xE9]"
  then have "(FNV_INIT XOR octet (CHR 0xE9)) * FNV_PRIME
      = (FNV_INIT XOR word_of_int (of_char (CHR 0xE9))) * FNV_PRIME"
    by (simp add: initng_hash_str_def fnv1a_def fnv_pass_def)
  from fnv_prime_cancel [OF this]
  have "octet (CHR 0xE9) = word_of_int (of_char (CHR 0xE9))"
    by (simp only: xor_cancel_word)
  then show False by (simp add: octet_def)
qed

end
