(* ===== verification/System.thy ===== *)
theory System
  imports Prelude Data Hash
begin

text \<open>
  The data of the running program: the structures of include/initng (service states, service
  types, processes and their pipes, services, events) and the global structure
  \<open>s_global g\<close> of include/initng/config/global.h. A service is known by a number, its
  address; \<open>svc\<close> is the memory of the service structures and the databases of \<open>g\<close> are the
  lists of the linked entries in \<open>next\<close> order.

  A function pointer is the name of the C function. The record \<open>env\<close> is the code these names
  stand for; it also holds the fuel of the loops that run foreign code.
\<close>

section \<open>States, types, processes\<close>

datatype e_is = IS_NEW | IS_UP | IS_DOWN | IS_FAILED | IS_STARTING | IS_STOPPING | IS_WAITING

record a_state_h =
  st_name :: string
  st_is :: e_is
  st_interrupt :: "string option"
  st_init :: "string option"
  st_alarm :: "string option"

record stype_h =
  sty_name :: string
  sty_hidden :: bool
  sty_start :: "string option"
  sty_stop :: "string option"
  sty_restart :: "string option"

record ptype_h =
  pt_name :: string
  pt_kill_handler :: "string option"

datatype e_pst = P_ACTIVE | P_FREE

datatype e_dir = UNKNOWN_PIPE | OUT_PIPE | IN_PIPE | BUFFERED_OUT_PIPE | IN_AND_OUT_PIPE

record pipe_h =
  pipe_fd :: "int \<times> int"
  pipe_dir :: e_dir
  pipe_targets :: "int list"
  pipe_buffer :: string
  pipe_buffer_allocated :: nat

record process_h =
  p_addr :: nat
  p_pt :: ptype_h
  p_pid :: int
  p_r_code :: int
  p_pipes :: "pipe_h list"
  p_pst :: e_pst

record timeval =
  tv_sec :: int
  tv_usec :: int

type_synonym sid = nat

record active_db_h =
  a_name_hash :: hash_t
  a_name :: string
  a_type :: "stype_h option"
  a_current_state :: a_state_h
  a_time_current_state :: timeval
  a_last_state :: "a_state_h option"
  a_time_last_state :: timeval
  a_next_state :: "a_state_h option"
  a_state_lock :: nat
  a_last_rought_state :: e_is
  a_last_rought_time :: timeval
  a_processes :: "process_h list"
  a_data :: data_head
  a_alarm :: int
  a_depend_cache :: int
  a_allocated :: bool

section \<open>Events\<close>

datatype s_event_type = EVENT_STATE_CHANGE | EVENT_SYSTEM_CHANGE | EVENT_IS_CHANGE | EVENT_UP_MET
  | EVENT_MAIN | EVENT_LAUNCH | EVENT_AFTER_FORK | EVENT_START_DEP_MET | EVENT_STOP_DEP_MET
  | EVENT_PIPE_WATCHER | EVENT_NEW_ACTIVE | EVENT_DEP_ON | EVENT_RELOAD_ACTIVE_DB
  | EVENT_DUMP_ACTIVE_DB | EVENT_ERROR_MESSAGE | EVENT_COMPENSATE_TIME | EVENT_HANDLE_KILLED
  | EVENT_SIGNAL | EVENT_BUFFER_WATCHER | EVENT_IO_WATCHER | EVENT_INTERRUPT | HALT | REBOOT

datatype event_status_t = FAILED | UNKNOWN | HANDLED | WAITING

datatype h_sys_state = STATE_NULL | STATE_STARTING | STATE_UP | STATE_STOPPING | STATE_ASE
  | STATE_SERVICES_LOADED | STATE_EXIT | STATE_RESTART | STATE_SULOGIN | STATE_HALT
  | STATE_REBOOT | STATE_EXECVE | STATE_POWEROFF

datatype h_then = THEN_NONE | THEN_QUIT | THEN_RESTART | THEN_SULOGIN | THEN_NEW_INIT
  | THEN_HALT | THEN_REBOOT | THEN_POWEROFF

text \<open>What the \<open>data\<close> pointer of an event points to.\<close>

datatype event_data =
    ED_none
  | ED_service sid
  | ED_name string
  | ED_dep_on sid sid
  | ED_process sid nat
  | ED_launch sid nat string
  | ED_pipe sid nat nat
  | ED_buffer sid nat nat string
  | ED_sys_state h_sys_state
  | ED_int int
  | ED_io_watch bool int "int list" "int list"

record s_event =
  ev_type :: s_event_type
  ev_data :: event_data
  ev_ret :: "sid option"
  ev_status :: event_status_t

record s_call =
  c_addr :: nat
  c_from_file :: string
  c_pointer :: string

section \<open>Modules and commands\<close>

text \<open>The structure \<open>initng_module\<close> that a module file defines, and the entry of a module in the
  module database. The two flags are \<open>MODULE_INITIALIZED\<close> and \<open>MODULE_REMOVE\<close>.\<close>

record initng_module =
  mi_api_version :: int
  mi_init :: "string option"
  mi_unload :: "string option"
  mi_deps :: "string list"

record m_h =
  m_name :: string
  m_path :: string
  m_modinfo :: initng_module
  m_initialized :: bool
  m_remove :: bool

datatype e_com_type = COMMAND_FAIL | PAYLOAD_COMMAND | INT_COMMAND | STRING_COMMAND

datatype e_opt_type = NO_OPT | USES_OPT | REQUIRES_OPT

record s_command =
  cmd_id :: char
  cmd_long_id :: "string option"
  cmd_com_type :: e_com_type
  cmd_opt_type :: e_opt_type
  cmd_call :: "string option"

section \<open>The global structure\<close>

text \<open>System calls with an effect outside the program, in the order they were made.\<close>

datatype effect = Eff_close int | Eff_kill int int | Eff_unlink string | Eff_print string
  | Eff_creat string | Eff_exec string "string list" | Eff_free nat | Eff_sync | Eff_reboot h_then
  | Eff_segfault | Eff_exit int | Eff_send int int string | Eff_dup2 int int | Eff_setfd int bool
  | Eff_setsid | Eff_chdir string | Eff_chroot string | Eff_nice int | Eff_sleep int | Eff_usleep int
  | Eff_setgid int | Eff_setuid int | Eff_initgroups string int | Eff_setrlimit string "64 word" "64 word"
  | Eff_write string string | Eff_mkfifo string | Eff_pututline int

text \<open>What the module reload writes for a service: the structures of initng_reload.h. An array is
  the list of its elements that are in use; a string is the text before the first NUL.\<close>

record r_d_e =
  rd_type :: string
  rd_opt_type :: e_dt
  rd_vn :: string
  rd_t :: u_val

record r_pipe =
  rp_pipe :: "int \<times> int"
  rp_dir :: e_dir
  rp_targets :: "int list"

record r_process =
  rp_ptype :: string
  rp_pipes :: "r_pipe list"
  rp_pid :: int
  rp_rcode :: int

record data_save_struct =
  rs_name :: string
  rs_type :: string
  rs_state :: string
  rs_time :: timeval
  rs_process :: "r_process list"
  rs_data :: "r_d_e list"

record r_process_v13 =
  rv_ptype :: string
  rv_stdout1 :: int
  rv_stdout2 :: int
  rv_pid :: int
  rv_rcode :: int

record data_save_struct_v13 =
  rv_name :: string
  rv_type :: string
  rv_state :: string
  rv_time :: timeval
  rv_process :: "r_process_v13 list"
  rv_data :: "r_d_e list"

text \<open>An entry of the module history, a device of the module netdev, and the variables the module
  idleprobe keeps between two calls.\<close>

record history_h =
  h_service :: "sid option"
  h_name :: "string option"
  h_time :: timeval
  h_action :: "a_state_h option"
  h_data :: "string option"
  h_duration :: int

record s_netdev =
  nd_status :: int
  nd_dev :: "string option"

record idle_state =
  id_last :: int
  id_open :: bool
  id_old :: "64 word list"
  id_cur :: "64 word list"
  id_cnt :: int

text \<open>The structure \<open>s_global\<close>, the static variables of the modules (prefix m), the two save files
  of the module reload, and what the model keeps beside them: the service memory, the clock, the
  next free addresses and the trace of effects.\<close>

record sys =
  svc :: "sid \<Rightarrow> active_db_h"
  g_active_db :: "sid list"
  g_interrupt :: "sid list"
  g_states :: "a_state_h list"
  g_ptypes :: "ptype_h list"
  g_option_db :: "s_entry list"
  g_event_db :: "s_event_type list"
  g_stypes :: "stype_h list"
  g_hooks :: "s_event_type \<Rightarrow> s_call list"
  g_sys_state :: h_sys_state
  g_now :: timeval
  g_sleep_seconds :: int
  g_next_alarm :: int
  g_argv :: "string list"
  g_runlevel :: "string option"
  g_old_runlevel :: "string option"
  g_when_out :: h_then
  g_signals_got :: "int list"
  g_modules :: "nat \<Rightarrow> m_h"
  g_module_db :: "nat list"
  g_modules_to_unload :: bool
  g_command_db :: "s_command list"
  g_hot_reload :: bool
  g_no_circular :: bool
  g_dev_console :: "string option"
  g_new_init :: "string list option"
  g_clock :: timeval
  m_TYPE_PROVIDED :: "stype_h option"
  m_synchron_check :: bool
  m_interactive_active :: bool
  m_save_file :: "data_save_struct list option"
  m_save_file_v13 :: "data_save_struct_v13 list option"
  m_history_db :: "history_h list"
  m_history_records :: int
  m_devs :: "s_netdev list"
  m_initctl_fd :: int
  m_utmp_stored :: bool
  m_idle :: idle_state
  g_next_sid :: sid
  g_next_addr :: nat
  g_effects :: "effect list"

text \<open>What one call of read returns: some bytes, the end of the file, or an error.\<close>

datatype read_result = Read_got string | Read_eof | Read_error

text \<open>A request to the module service_file: the structure \<open>bp_req\<close> with the member of its union that
  the request type selects, and what one call of recv returns.\<close>

datatype bp_req_type = NEW_ACTIVE string string | SET_VARIABLE string string string
  | GET_VARIABLE string string | DONE | ABORT | UNSET_INVALID

record bp_req =
  bp_version :: int
  bp_request :: bp_req_type
  bp_service :: string

datatype recv_result = Recv_closed | Recv_short | Recv_req bp_req

text \<open>A request read from /dev/initctl, an entry of the user database, and the system calls whose
  result the code only compares with a number.\<close>

record init_request =
  ir_magic :: int
  ir_cmd :: int
  ir_runlevel :: int

datatype initctl_result = Initctl_none | Initctl_intr | Initctl_error | Initctl_short init_request
  | Initctl_got init_request

record passwd =
  pw_name :: string
  pw_uid :: int
  pw_gid :: int
  pw_dir :: string

datatype syscall = Call_chdir string | Call_chroot string | Call_nice int | Call_open string
  | Call_fopen string | Call_fwrite nat | Call_unlink string | Call_setrlimit string "64 word" "64 word"
  | Call_socket | Call_write string string | Call_stat string | Call_fstat int | Call_fifo int
  | Call_access string | Call_pututline

text \<open>
  The code behind the function pointers, and the answers of the operating system that the code
  asks for: the error number of \<open>kill(pid, 0)\<close> (zero if it succeeds), what successive reads
  from a descriptor return, the dead children \<open>waitpid\<close> reports with their status before it
  has none left, the first read from a file (None if it cannot be opened), the names in /proc
  with the line their stat file starts with (None where it cannot be read), the mode of a path
  (None if it does not exist), the next line of the standard input (None at its end), the result
  of the n-th fork and pipe call, the environment variables of the process, whether execve
  replaces the process, its pid and user, the names in a directory, the structure in a module file, which of the watched descriptors a
  select call finds ready, whether a descriptor is open, the result of a system call that is
  compared with a number, what recv returns, the entries of the user and group databases, the
  resource limits, the names of the network interfaces, the numbers in the first line of
  /proc/stat, and what a read from /dev/initctl returns.
\<close>

record env =
  e_fuel :: nat
  e_hook :: "string \<Rightarrow> s_event \<Rightarrow> sys \<Rightarrow> (s_event \<times> sys) option"
  e_state_fn :: "string \<Rightarrow> sid \<Rightarrow> sys \<Rightarrow> sys option"
  e_type_fn :: "string \<Rightarrow> sid \<Rightarrow> sys \<Rightarrow> (int \<times> sys) option"
  e_kill_fn :: "string \<Rightarrow> sid \<Rightarrow> nat \<Rightarrow> sys \<Rightarrow> sys option"
  e_kill0 :: "int \<Rightarrow> sys \<Rightarrow> int"
  e_read :: "int \<Rightarrow> sys \<Rightarrow> read_result list"
  e_waitpid :: "sys \<Rightarrow> (int \<times> int) list"
  e_file :: "string \<Rightarrow> sys \<Rightarrow> read_result option"
  e_proc :: "sys \<Rightarrow> (string \<times> string option) list option"
  e_stat :: "string \<Rightarrow> sys \<Rightarrow> 32 word option"
  e_stdin :: "sys \<Rightarrow> string option"
  e_fork :: "nat \<Rightarrow> sys \<Rightarrow> int"
  e_pipe :: "nat \<Rightarrow> sys \<Rightarrow> (int \<times> int) option"
  e_getenv :: "string \<Rightarrow> string option"
  e_execve :: "string \<Rightarrow> sys \<Rightarrow> bool"
  e_getpid :: int
  e_getuid :: int
  e_readdir :: "string \<Rightarrow> sys \<Rightarrow> string list option"
  e_dlopen :: "string \<Rightarrow> sys \<Rightarrow> initng_module option"
  e_select :: "int list \<Rightarrow> int list \<Rightarrow> sys \<Rightarrow> int \<times> int list \<times> int list"
  e_still_open :: "int \<Rightarrow> sys \<Rightarrow> bool"
  e_mod_init :: "string \<Rightarrow> sys \<Rightarrow> (int \<times> sys) option"
  e_mod_unload :: "string \<Rightarrow> sys \<Rightarrow> sys option"
  e_command :: "string \<Rightarrow> string option \<Rightarrow> sys \<Rightarrow> (int \<times> sys) option"
  e_call :: "syscall \<Rightarrow> sys \<Rightarrow> int"
  e_recv :: "int \<Rightarrow> sys \<Rightarrow> recv_result"
  e_getpwnam :: "string \<Rightarrow> passwd option"
  e_getgrnam :: "string \<Rightarrow> int option"
  e_getrlimit :: "string \<Rightarrow> sys \<Rightarrow> (64 word \<times> 64 word) option"
  e_ifconf :: "sys \<Rightarrow> string list option"
  e_cpu_line :: "sys \<Rightarrow> 64 word list option"
  e_initctl :: "int \<Rightarrow> sys \<Rightarrow> initctl_result"

text \<open>An environment in which no function pointer leads anywhere and the operating system has
  nothing to offer; environments for concrete runs are updates of it.\<close>

definition bare_env :: "nat \<Rightarrow> env" where
  "bare_env fuel = \<lparr>e_fuel = fuel, e_hook = (\<lambda>_ _ _. None), e_state_fn = (\<lambda>_ _ _. None),
     e_type_fn = (\<lambda>_ _ _. None), e_kill_fn = (\<lambda>_ _ _ _. None), e_kill0 = (\<lambda>_ _. 0),
     e_read = (\<lambda>_ _. []), e_waitpid = (\<lambda>_. []), e_file = (\<lambda>_ _. None), e_proc = (\<lambda>_. None),
     e_stat = (\<lambda>_ _. None), e_stdin = (\<lambda>_. None), e_fork = (\<lambda>_ _. -1), e_pipe = (\<lambda>_ _. None),
     e_getenv = (\<lambda>_. None), e_execve = (\<lambda>_ _. False), e_getpid = 1, e_getuid = 0, e_readdir = (\<lambda>_ _. None),
     e_dlopen = (\<lambda>_ _. None), e_select = (\<lambda>_ _ _. (0, [], [])), e_still_open = (\<lambda>_ _. False),
     e_mod_init = (\<lambda>_ _. None), e_mod_unload = (\<lambda>_ _. None), e_command = (\<lambda>_ _ _. None),
     e_call = (\<lambda>_ _. 0), e_recv = (\<lambda>_ _. Recv_closed), e_getpwnam = (\<lambda>_. None), e_getgrnam = (\<lambda>_. None),
     e_getrlimit = (\<lambda>_ _. None), e_ifconf = (\<lambda>_. None), e_cpu_line = (\<lambda>_. None),
     e_initctl = (\<lambda>_ _. Initctl_none)\<rparr>"

definition ESRCH :: int where "ESRCH = 3"

definition GET_STATE :: "sys \<Rightarrow> sid \<Rightarrow> e_is" where
  "GET_STATE s i = st_is (a_current_state (svc s i))"

definition IS_MARK :: "sys \<Rightarrow> sid \<Rightarrow> a_state_h \<Rightarrow> bool" where
  "IS_MARK s i st = (a_current_state (svc s i) = st)"

text \<open>A write to a service structure.\<close>

definition upd_svc :: "sid \<Rightarrow> (active_db_h \<Rightarrow> active_db_h) \<Rightarrow> sys \<Rightarrow> sys" where
  "upd_svc i f s = s\<lparr>svc := (svc s)(i := f (svc s i))\<rparr>"

section \<open>Access to the variables of a service\<close>

definition is_set :: "s_entry \<Rightarrow> sid \<Rightarrow> sys \<Rightarrow> bool" where
  "is_set ty i s = initng_data_is_var (Some ty) None (a_data (svc s i))"

definition svc_get_int :: "s_entry \<Rightarrow> sid \<Rightarrow> sys \<Rightarrow> int" where
  "svc_get_int ty i s = initng_data_get_int_var (Some ty) None (a_data (svc s i))"

definition svc_get_string :: "s_entry \<Rightarrow> sid \<Rightarrow> sys \<Rightarrow> string option" where
  "svc_get_string ty i s = initng_data_get_string_var (Some ty) None (a_data (svc s i))"

definition upd_data :: "sid \<Rightarrow> (data_head \<Rightarrow> data_head) \<Rightarrow> sys \<Rightarrow> sys" where
  "upd_data i f = upd_svc i (\<lambda>a. a\<lparr>a_data := f (a_data a)\<rparr>)"

text \<open>A setter allocates its entry at the next free address.\<close>

definition bump_addr :: "sys \<Rightarrow> sys" where
  "bump_addr s = s\<lparr>g_next_addr := g_next_addr s + 1\<rparr>"

definition svc_set :: "s_entry \<Rightarrow> sid \<Rightarrow> sys \<Rightarrow> sys" where
  "svc_set ty i s = bump_addr (upd_data i (initng_data_set_var (g_next_addr s) (Some ty) None) s)"

definition svc_set_int :: "s_entry \<Rightarrow> sid \<Rightarrow> int \<Rightarrow> sys \<Rightarrow> sys" where
  "svc_set_int ty i v s =
     bump_addr (upd_data i (\<lambda>d. initng_data_set_int_var (g_next_addr s) (Some ty) None d v) s)"

definition svc_remove :: "s_entry \<Rightarrow> sid \<Rightarrow> sys \<Rightarrow> sys" where
  "svc_remove ty i = upd_data i (initng_data_remove_var ty None)"

definition initng_handler_set_alarm :: "sid \<Rightarrow> int \<Rightarrow> sys \<Rightarrow> sys" where
  "initng_handler_set_alarm i seconds s =
     (let t = tv_sec (g_now s) + seconds;
          s = upd_svc i (\<lambda>a. a\<lparr>a_alarm := t\<rparr>) s
      in if g_next_alarm s = 0 \<or> t < g_next_alarm s then s\<lparr>g_next_alarm := t\<rparr> else s)"

definition initng_global_set_sleep :: "int \<Rightarrow> sys \<Rightarrow> sys" where
  "initng_global_set_sleep sec s =
     (if g_sleep_seconds s = 0 \<or> sec < g_sleep_seconds s then s\<lparr>g_sleep_seconds := sec\<rparr> else s)"

section \<open>Laws of the service memory\<close>

lemma svc_upd [simp]:
  "svc (upd_svc i f s) = (svc s)(i := f (svc s i))"
  "g_active_db (upd_svc i f s) = g_active_db s"
  "g_interrupt (upd_svc i f s) = g_interrupt s"
  "g_states (upd_svc i f s) = g_states s"
  "g_ptypes (upd_svc i f s) = g_ptypes s"
  "g_stypes (upd_svc i f s) = g_stypes s"
  "g_hooks (upd_svc i f s) = g_hooks s"
  "g_sys_state (upd_svc i f s) = g_sys_state s"
  "g_now (upd_svc i f s) = g_now s"
  "g_next_alarm (upd_svc i f s) = g_next_alarm s"
  "g_next_sid (upd_svc i f s) = g_next_sid s"
  "g_next_addr (upd_svc i f s) = g_next_addr s"
  "g_clock (upd_svc i f s) = g_clock s"
  "g_signals_got (upd_svc i f s) = g_signals_got s"
  "g_effects (upd_svc i f s) = g_effects s"
  by (simp_all add: upd_svc_def)

lemma upd_svc_idem: "f (svc s i) = svc s i \<Longrightarrow> upd_svc i f s = s"
  by (simp add: upd_svc_def fun_upd_idem)

text \<open>The part of the state that only registration changes.\<close>

definition same_frame :: "sys \<Rightarrow> sys \<Rightarrow> bool" where
  "same_frame s s' \<longleftrightarrow> g_active_db s' = g_active_db s \<and> g_states s' = g_states s
     \<and> g_ptypes s' = g_ptypes s \<and> g_stypes s' = g_stypes s \<and> g_hooks s' = g_hooks s
     \<and> g_now s' = g_now s \<and> g_clock s' = g_clock s
     \<and> (\<forall>i. a_name (svc s' i) = a_name (svc s i) \<and> a_name_hash (svc s' i) = a_name_hash (svc s i)
          \<and> a_type (svc s' i) = a_type (svc s i) \<and> a_allocated (svc s' i) = a_allocated (svc s i))"

lemma same_frame_refl [simp]: "same_frame s s"
  by (simp add: same_frame_def)

lemma same_frame_trans: "same_frame s t \<Longrightarrow> same_frame t u \<Longrightarrow> same_frame s u"
  by (simp add: same_frame_def)

lemma same_frame_upd:
  assumes "\<And>a. a_name (f a) = a_name a \<and> a_name_hash (f a) = a_name_hash a
    \<and> a_type (f a) = a_type a \<and> a_allocated (f a) = a_allocated a"
  shows "same_frame s (upd_svc i f s)"
  using assms by (simp add: same_frame_def)

end
