(* ===== verification/State_Change.thy ===== *)
theory State_Change
  imports System C_String
begin

text \<open>
  Changing the state of a service: src/main/common, the state registry of
  src/main/active_state and the states of src/main/static/states.c. A state change asked for
  while the state is locked waits in \<open>next_state\<close> until the outermost lock is released. A
  committed change puts the service on the interrupt list.
\<close>

section \<open>Static states\<close>

definition plain_state :: "string \<Rightarrow> e_is \<Rightarrow> a_state_h" where
  "plain_state n is = \<lparr>st_name = n, st_is = is, st_interrupt = None, st_init = None, st_alarm = None\<rparr>"

definition NEW :: a_state_h where "NEW = plain_state ''NEW'' IS_DOWN"
definition LOADING :: a_state_h where "LOADING = plain_state ''LOADING'' IS_DOWN"
definition FREEING :: a_state_h where "FREEING = plain_state ''FREEING'' IS_DOWN"
definition REQ_NOT_FOUND :: a_state_h where "REQ_NOT_FOUND = plain_state ''REQ_NOT_FOUND'' IS_FAILED"

text \<open>A service structure as calloc leaves it (its state is set before it is used).\<close>

definition calloc_service :: active_db_h where
  "calloc_service = \<lparr>a_name_hash = 0, a_name = [], a_type = None, a_current_state = NEW,
     a_time_current_state = \<lparr>tv_sec = 0, tv_usec = 0\<rparr>, a_last_state = None,
     a_time_last_state = \<lparr>tv_sec = 0, tv_usec = 0\<rparr>, a_next_state = None, a_state_lock = 0,
     a_last_rought_state = IS_NEW, a_last_rought_time = \<lparr>tv_sec = 0, tv_usec = 0\<rparr>,
     a_processes = [], a_data = DATA_HEAD_INIT, a_alarm = 0, a_depend_cache = 0, a_allocated = False\<rparr>"

text \<open>The global structure after memset and the initialisation of its lists.\<close>

definition global_zero :: "string list \<Rightarrow> timeval \<Rightarrow> sys" where
  "global_zero argv clock = \<lparr>svc = (\<lambda>_. calloc_service), g_active_db = [], g_interrupt = [],
     g_states = [], g_ptypes = [], g_option_db = [], g_event_db = [], g_stypes = [],
     g_hooks = (\<lambda>_. []), g_sys_state = STATE_NULL, g_now = \<lparr>tv_sec = 0, tv_usec = 0\<rparr>,
     g_sleep_seconds = 0, g_next_alarm = 0, g_argv = argv, g_runlevel = None, g_old_runlevel = None,
     g_when_out = THEN_NONE, g_signals_got = replicate 10 0,
     g_modules = (\<lambda>_. \<lparr>m_name = [], m_path = [], m_modinfo = \<lparr>mi_api_version = 0, mi_init = None,
       mi_unload = None, mi_deps = []\<rparr>, m_initialized = False, m_remove = False\<rparr>),
     g_module_db = [], g_modules_to_unload = False, g_command_db = [], g_hot_reload = False,
     g_no_circular = False, g_dev_console = None, g_new_init = None, g_clock = clock, m_TYPE_PROVIDED = None,
     m_synchron_check = False, m_interactive_active = False,
     m_save_file = None, m_save_file_v13 = None, m_history_db = [], m_history_records = 0,
     m_devs = replicate 20 \<lparr>nd_status = 0, nd_dev = None\<rparr>, m_initctl_fd = -1, m_utmp_stored = False,
     m_idle = \<lparr>id_last = 0, id_open = False, id_old = replicate 7 0, id_cur = replicate 7 0, id_cnt = 0\<rparr>, g_next_sid = 0, g_next_addr = 0, g_effects = []\<rparr>"

lemmas init_defs = global_zero_def calloc_service_def

section \<open>State registry\<close>

definition initng_active_state_find :: "string \<Rightarrow> sys \<Rightarrow> a_state_h option" where
  "initng_active_state_find n s = find (\<lambda>st. st_name st = n) (rev (g_states s))"

definition initng_active_state_register :: "a_state_h \<Rightarrow> sys \<Rightarrow> int \<times> sys" where
  "initng_active_state_register st s =
     (if initng_active_state_find (st_name st) s \<noteq> None then (FALSE, s)
      else (TRUE, s\<lparr>g_states := list_add st (g_states s)\<rparr>))"

definition initng_active_state_unregister :: "a_state_h \<Rightarrow> sys \<Rightarrow> sys" where
  "initng_active_state_unregister st s = s\<lparr>g_states := list_del st (g_states s)\<rparr>"

definition initng_static_states_register_defaults :: "sys \<Rightarrow> sys" where
  "initng_static_states_register_defaults s =
     snd (initng_active_state_register REQ_NOT_FOUND
      (snd (initng_active_state_register FREEING
        (snd (initng_active_state_register LOADING
          (snd (initng_active_state_register NEW s)))))))"

section \<open>Locking and marking\<close>

text \<open>
  memcpy with the size of the function memcpy, which is 1: the lowest byte of the seconds is
  copied, the rest of the destination stays.
\<close>

definition copy_first_byte :: "timeval \<Rightarrow> timeval \<Rightarrow> timeval" where
  "copy_first_byte dst src = dst\<lparr>tv_sec := tv_sec dst - tv_sec dst mod 256 + tv_sec src mod 256\<rparr>"

definition state_commit :: "a_state_h \<Rightarrow> timeval \<Rightarrow> active_db_h \<Rightarrow> active_db_h" where
  "state_commit next clock a =
     (let a = a\<lparr>a_last_state := Some (a_current_state a), a_time_last_state := a_time_current_state a\<rparr>;
          a = (if a_last_rought_state a \<noteq> st_is (a_current_state a)
               then a\<lparr>a_last_rought_state := st_is (a_current_state a),
                      a_last_rought_time := copy_first_byte (a_last_rought_time a) (a_time_current_state a)\<rparr>
               else a)
      in a\<lparr>a_alarm := 0, a_current_state := next, a_time_current_state := clock, a_next_state := None\<rparr>)"

definition initng_common_state_lock :: "sid \<Rightarrow> sys \<Rightarrow> sys" where
  "initng_common_state_lock i = upd_svc i (\<lambda>a. a\<lparr>a_state_lock := a_state_lock a + 1\<rparr>)"

definition initng_common_state_unlock :: "sid \<Rightarrow> sys \<Rightarrow> int \<times> sys" where
  "initng_common_state_unlock i s =
     (let s1 = (if a_state_lock (svc s i) \<noteq> 0
                then upd_svc i (\<lambda>a. a\<lparr>a_state_lock := a_state_lock a - 1\<rparr>) s else s)
      in if a_state_lock (svc s i) \<noteq> 0 \<and> a_state_lock (svc s1 i) \<noteq> 0 then (FALSE, s1)
         else case a_next_state (svc s1 i) of
             None \<Rightarrow> (FALSE, s1)
           | Some next \<Rightarrow>
               (let s2 = upd_svc i (state_commit next (g_clock s1)) s1
                in (TRUE, s2\<lparr>g_interrupt := list_add i (g_interrupt s2)\<rparr>)))"

definition initng_common_mark_service :: "sid \<Rightarrow> a_state_h \<Rightarrow> sys \<Rightarrow> int \<times> sys" where
  "initng_common_mark_service i st s =
     (if a_state_lock (svc s i) \<noteq> 0 \<and> a_next_state (svc s i) \<noteq> None then (FALSE, s)
      else if a_current_state (svc s i) = st
        then (TRUE, upd_svc i (\<lambda>a. a\<lparr>a_next_state := None\<rparr>) s)
      else
        (let s1 = upd_svc i (\<lambda>a. a\<lparr>a_next_state := Some st\<rparr>) s
         in (TRUE, if a_state_lock (svc s1 i) = 0 then snd (initng_common_state_unlock i s1) else s1)))"

fun state_lock_all :: "sid list \<Rightarrow> sys \<Rightarrow> sys" where
  "state_lock_all [] s = s"
| "state_lock_all (i # is) s = state_lock_all is (initng_common_state_lock i s)"

definition initng_common_state_lock_all :: "sys \<Rightarrow> sys" where
  "initng_common_state_lock_all s = state_lock_all (rev (g_active_db s)) s"

fun state_unlock_all :: "sid list \<Rightarrow> int \<Rightarrow> sys \<Rightarrow> int \<times> sys" where
  "state_unlock_all [] ret s = (ret, s)"
| "state_unlock_all (i # is) ret s =
     (let (r, s) = initng_common_state_unlock i s
      in state_unlock_all is (if r = TRUE then TRUE else ret) s)"

definition initng_common_state_unlock_all :: "sys \<Rightarrow> int \<times> sys" where
  "initng_common_state_unlock_all s = state_unlock_all (rev (g_active_db s)) FALSE s"

definition initng_common_state_has_changed :: "sid \<Rightarrow> sys \<Rightarrow> a_state_h option" where
  "initng_common_state_has_changed i s = a_next_state (svc s i)"

fun blacklist_walk :: "(string \<Rightarrow> string \<Rightarrow> bool) \<Rightarrow> string \<Rightarrow> string list \<Rightarrow> int" where
  "blacklist_walk fnm n [] = FALSE"
| "blacklist_walk fnm n (p # ps) =
     (if p = [] \<or> hd p \<noteq> CHR ''-'' then blacklist_walk fnm n ps
      else if n = tl p \<or> initng_string_match fnm n (tl p) \<noteq> 0 then TRUE
      else blacklist_walk fnm n ps)"

definition initng_common_service_blacklisted :: "(string \<Rightarrow> string \<Rightarrow> bool) \<Rightarrow> string \<Rightarrow> sys \<Rightarrow> int" where
  "initng_common_service_blacklisted fnm n s = blacklist_walk fnm n (g_argv s)"

text \<open>The operations on the state of one service, as values.\<close>

datatype state_op = Lock | Unlock | Mark a_state_h

fun state_exec :: "sid \<Rightarrow> state_op list \<Rightarrow> sys \<Rightarrow> sys" where
  "state_exec i [] s = s"
| "state_exec i (Lock # ops) s = state_exec i ops (initng_common_state_lock i s)"
| "state_exec i (Unlock # ops) s = state_exec i ops (snd (initng_common_state_unlock i s))"
| "state_exec i (Mark st # ops) s = state_exec i ops (snd (initng_common_mark_service i st s))"

text \<open>Operations that keep the lock, taken \<open>d\<close> times before them, at least once.\<close>

fun keeps_lock :: "nat \<Rightarrow> state_op list \<Rightarrow> bool" where
  "keeps_lock d [] = (d = 1)"
| "keeps_lock d (Lock # ops) = keeps_lock (d + 1) ops"
| "keeps_lock d (Unlock # ops) = (1 < d \<and> keeps_lock (d - 1) ops)"
| "keeps_lock d (Mark st # ops) = keeps_lock d ops"

text \<open>The first state asked for that is not the current one.\<close>

fun first_mark :: "a_state_h \<Rightarrow> state_op list \<Rightarrow> a_state_h option" where
  "first_mark cur [] = None"
| "first_mark cur (Mark st # ops) = (if st = cur then first_mark cur ops else Some st)"
| "first_mark cur (_ # ops) = first_mark cur ops"

section \<open>Lemmas\<close>

lemma GET_STATE_upd [simp]:
  "GET_STATE (upd_svc i f s) j = (if j = i then st_is (a_current_state (f (svc s i))) else GET_STATE s j)"
  by (simp add: GET_STATE_def)

lemma lock_frame: "same_frame s (initng_common_state_lock i s)"
  unfolding initng_common_state_lock_def by (rule same_frame_upd) simp

lemma state_commit_frame [simp]:
  "a_name (state_commit n c a) = a_name a" "a_name_hash (state_commit n c a) = a_name_hash a"
  "a_type (state_commit n c a) = a_type a" "a_allocated (state_commit n c a) = a_allocated a"
  "a_data (state_commit n c a) = a_data a" "a_state_lock (state_commit n c a) = a_state_lock a"
  "a_current_state (state_commit n c a) = n" "a_next_state (state_commit n c a) = None"
  "a_processes (state_commit n c a) = a_processes a"
  "a_depend_cache (state_commit n c a) = a_depend_cache a"
  "a_alarm (state_commit n c a) = 0" "a_last_state (state_commit n c a) = Some (a_current_state a)"
  "a_time_current_state (state_commit n c a) = c"
  by (simp_all add: state_commit_def Let_def)

lemma unlock_frame: "same_frame s (snd (initng_common_state_unlock i s))"
  by (auto simp: initng_common_state_unlock_def Let_def same_frame_def split: option.splits)

lemma mark_frame: "same_frame s (snd (initng_common_mark_service i st s))"
proof -
  have "same_frame s (upd_svc i (\<lambda>a. a\<lparr>a_next_state := v\<rparr>) s)" for v
    by (rule same_frame_upd) simp
  then show ?thesis
    using unlock_frame same_frame_trans
    by (fastforce simp: initng_common_mark_service_def Let_def)
qed

text \<open>What a state operation on one service leaves alone.\<close>

lemma unlock_other [simp]: "j \<noteq> i \<Longrightarrow> svc (snd (initng_common_state_unlock i s)) j = svc s j"
  by (auto simp: initng_common_state_unlock_def Let_def split: option.splits)

lemma mark_other [simp]: "j \<noteq> i \<Longrightarrow> svc (snd (initng_common_mark_service i st s)) j = svc s j"
  by (auto simp: initng_common_mark_service_def Let_def)

lemma unlock_data [simp]: "a_data (svc (snd (initng_common_state_unlock i s)) j) = a_data (svc s j)"
  by (auto simp: initng_common_state_unlock_def Let_def split: option.splits)

lemma mark_data [simp, state_laws]:
  "a_data (svc (snd (initng_common_mark_service i st s)) j) = a_data (svc s j)"
  by (auto simp: initng_common_mark_service_def Let_def)

lemma unlock_globals [simp]:
  "g_sys_state (snd (initng_common_state_unlock i s)) = g_sys_state s"
  "g_active_db (snd (initng_common_state_unlock i s)) = g_active_db s"
  "g_hooks (snd (initng_common_state_unlock i s)) = g_hooks s"
  "g_next_addr (snd (initng_common_state_unlock i s)) = g_next_addr s"
  "g_now (snd (initng_common_state_unlock i s)) = g_now s"
  "g_next_alarm (snd (initng_common_state_unlock i s)) = g_next_alarm s"
  by (auto simp: initng_common_state_unlock_def Let_def split: option.splits)

lemma mark_globals [simp, state_laws]:
  "g_sys_state (snd (initng_common_mark_service i st s)) = g_sys_state s"
  "g_active_db (snd (initng_common_mark_service i st s)) = g_active_db s"
  "g_hooks (snd (initng_common_mark_service i st s)) = g_hooks s"
  "g_next_addr (snd (initng_common_mark_service i st s)) = g_next_addr s"
  "g_now (snd (initng_common_mark_service i st s)) = g_now s"
  "g_next_alarm (snd (initng_common_mark_service i st s)) = g_next_alarm s"
  by (auto simp: initng_common_mark_service_def Let_def)

text \<open>A mark on an unlocked service takes effect at once.\<close>

lemma mark_unlocked [state_laws]:
  assumes "a_state_lock (svc s i) = 0"
  shows "fst (initng_common_mark_service i st s) = TRUE"
    and "a_current_state (svc (snd (initng_common_mark_service i st s)) i) = st"
    and "a_next_state (svc (snd (initng_common_mark_service i st s)) i) = None"
    and "a_state_lock (svc (snd (initng_common_mark_service i st s)) i) = 0"
    and "set (g_interrupt (snd (initng_common_mark_service i st s))) =
      set (g_interrupt s) \<union> (if a_current_state (svc s i) = st then {} else {i})"
  using assms
  by (auto simp: initng_common_mark_service_def initng_common_state_unlock_def Let_def)

lemma interrupt_distinct:
  "distinct (g_interrupt s) \<Longrightarrow> distinct (g_interrupt (snd (initng_common_state_unlock i s)))"
  "distinct (g_interrupt s) \<Longrightarrow> distinct (g_interrupt (snd (initng_common_mark_service i st s)))"
  by (auto simp: initng_common_mark_service_def initng_common_state_unlock_def Let_def
      split: option.splits)

text \<open>Within a lock: the current state stands, the first mark is kept.\<close>

lemma locked_region:
  "a_state_lock (svc s i) = d \<Longrightarrow> 0 < d \<Longrightarrow> keeps_lock d ops \<Longrightarrow>
   a_current_state (svc (state_exec i ops s) i) = a_current_state (svc s i)
   \<and> a_state_lock (svc (state_exec i ops s) i) = 1
   \<and> g_interrupt (state_exec i ops s) = g_interrupt s
   \<and> g_clock (state_exec i ops s) = g_clock s
   \<and> a_next_state (svc (state_exec i ops s) i) =
       (case a_next_state (svc s i) of Some n \<Rightarrow> Some n
        | None \<Rightarrow> first_mark (a_current_state (svc s i)) ops)"
proof (induction d ops arbitrary: s rule: keeps_lock.induct)
  case (1 d)
  then show ?case by (simp split: option.splits)
next
  case (2 d ops)
  then show ?case by (simp add: initng_common_state_lock_def split: option.splits)
next
  case (3 d ops)
  then show ?case by (simp add: initng_common_state_unlock_def Let_def split: option.splits)
next
  case (4 d st ops)
  then show ?case
    by (auto simp: initng_common_mark_service_def Let_def split: option.splits)
qed

lemma state_exec_append: "state_exec i (xs @ ys) s = state_exec i ys (state_exec i xs s)"
  by (induction i xs s rule: state_exec.induct) auto

section \<open>Properties\<close>

text \<open>C3: the lock protocol. Take an unlocked service with no change pending, lock its state,
  do any nesting of locks, unlocks and state changes that keeps the lock, and release it. Then
  the state is the first state asked for that differs from the one before the lock, the change
  and the interrupt happen with the last unlock, and if no other state was asked for the
  service stays as it was.\<close>

theorem lock_protocol:
  assumes "a_state_lock (svc s i) = 0" and "a_next_state (svc s i) = None" and "keeps_lock 1 ops"
  shows "let cur = a_current_state (svc s i);
      t = state_exec i (Lock # ops) s;
      u = state_exec i (Lock # ops @ [Unlock]) s
    in a_current_state (svc t i) = cur \<and> g_interrupt t = g_interrupt s
    \<and> a_state_lock (svc u i) = 0 \<and> a_next_state (svc u i) = None
    \<and> (case first_mark cur ops of
         None \<Rightarrow> a_current_state (svc u i) = cur \<and> g_interrupt u = g_interrupt s
       | Some st \<Rightarrow> a_current_state (svc u i) = st \<and> a_last_state (svc u i) = Some cur
           \<and> a_time_current_state (svc u i) = g_clock s
           \<and> g_interrupt u = list_add i (g_interrupt s))"
proof -
  define cur where "cur = a_current_state (svc s i)"
  define t where "t = state_exec i (Lock # ops) s"
  define u where "u = state_exec i (Lock # ops @ [Unlock]) s"
  let ?l = "initng_common_state_lock i s"
  have "a_state_lock (svc ?l i) = 1" by (simp add: initng_common_state_lock_def assms(1))
  from locked_region [OF this _ assms(3)]
  have r: "a_current_state (svc t i) = cur" "a_state_lock (svc t i) = 1"
      "g_interrupt t = g_interrupt s" "g_clock t = g_clock s"
      "a_next_state (svc t i) = first_mark cur ops"
    by (simp_all add: t_def cur_def initng_common_state_lock_def assms(2))
  have "u = snd (initng_common_state_unlock i t)"
    by (simp add: u_def t_def state_exec_append)
  with r have "a_current_state (svc t i) = cur \<and> g_interrupt t = g_interrupt s
    \<and> a_state_lock (svc u i) = 0 \<and> a_next_state (svc u i) = None
    \<and> (case first_mark cur ops of
         None \<Rightarrow> a_current_state (svc u i) = cur \<and> g_interrupt u = g_interrupt s
       | Some st \<Rightarrow> a_current_state (svc u i) = st \<and> a_last_state (svc u i) = Some cur
           \<and> a_time_current_state (svc u i) = g_clock s
           \<and> g_interrupt u = list_add i (g_interrupt s))"
    by (simp add: initng_common_state_unlock_def Let_def split: option.splits)
  then show ?thesis by (simp only: Let_def cur_def t_def u_def)
qed

theorem lock_protocol_witness:
  "a_current_state (svc (state_exec 4 (Lock # [Mark NEW, Lock, Mark LOADING, Unlock, Mark FREEING] @ [Unlock])
     (global_zero [] \<lparr>tv_sec = 9, tv_usec = 0\<rparr>)) 4) = LOADING"
proof -
  have ne: "LOADING \<noteq> NEW" "LOADING = NEW \<longleftrightarrow> False" by (simp_all add: LOADING_def NEW_def plain_state_def)
  let ?s = "global_zero [] \<lparr>tv_sec = 9, tv_usec = 0\<rparr>"
  have s: "a_state_lock (svc ?s 4) = 0" "a_next_state (svc ?s 4) = None" "a_current_state (svc ?s 4) = NEW"
    by (simp_all add: init_defs)
  show ?thesis
    using lock_protocol [OF s(1,2), of "[Mark NEW, Lock, Mark LOADING, Unlock, Mark FREEING]"]
    unfolding s(3) Let_def by (simp add: ne del: state_exec.simps)
qed

text \<open>C25: a committed change of the rough state remembers when the old rough state began only
  in its lowest byte. The copy uses the size of a function, so of the seconds only the value
  modulo 256 is taken over and the rest keeps its old value.\<close>

theorem rough_time_low_byte:
  assumes "a_state_lock (svc s i) = 0" and "st \<noteq> a_current_state (svc s i)"
    and "a_last_rought_state (svc s i) \<noteq> GET_STATE s i"
  shows "let old = tv_sec (a_last_rought_time (svc s i)); t = tv_sec (a_time_current_state (svc s i));
      r = tv_sec (a_last_rought_time (svc (snd (initng_common_mark_service i st s)) i))
    in r mod 256 = t mod 256 \<and> r div 256 = old div 256"
proof -
  have "r mod 256 = t mod 256 \<and> r div 256 = old div 256"
    if "r = old - old mod 256 + t mod 256" for r old t :: int
    using that by (simp add: minus_mod_eq_mult_div)
  with assms show ?thesis
    by (simp add: initng_common_mark_service_def initng_common_state_unlock_def Let_def
        state_commit_def copy_first_byte_def GET_STATE_def)
qed

theorem rough_time_low_byte_witness:
  "tv_sec (a_last_rought_time (svc (snd (initng_common_mark_service 4 REQ_NOT_FOUND
     (upd_svc 4 (\<lambda>a. a\<lparr>a_time_current_state := \<lparr>tv_sec = 1000, tv_usec = 0\<rparr>\<rparr>)
       (global_zero [] \<lparr>tv_sec = 1001, tv_usec = 0\<rparr>)))) 4)) mod 256 = 232"
proof -
  let ?s = "upd_svc 4 (\<lambda>a. a\<lparr>a_time_current_state := \<lparr>tv_sec = 1000, tv_usec = 0\<rparr>\<rparr>)
    (global_zero [] \<lparr>tv_sec = 1001, tv_usec = 0\<rparr>)"
  have "a_state_lock (svc ?s 4) = 0" "REQ_NOT_FOUND \<noteq> a_current_state (svc ?s 4)"
      "a_last_rought_state (svc ?s 4) \<noteq> GET_STATE ?s 4"
    by (simp_all add: init_defs REQ_NOT_FOUND_def NEW_def plain_state_def GET_STATE_def)
  from rough_time_low_byte [OF this] show ?thesis by (simp add: Let_def)
qed

end
