(* ===== verification/Process_DB.thy ===== *)
theory Process_DB
  imports State_Change
begin

text \<open>
  The processes of a service and their pipes: src/main/process_db. A finished process is
  marked P_FREE and taken out of the list later; taking it out closes its pipes.
\<close>

section \<open>Operations\<close>

definition initng_process_db_get :: "ptype_h \<Rightarrow> sid \<Rightarrow> sys \<Rightarrow> process_h option" where
  "initng_process_db_get type i s =
     find (\<lambda>p. p_pst p = P_ACTIVE \<and> p_pt p = type) (rev (a_processes (svc s i)))"

definition initng_process_db_get_by_name :: "string \<Rightarrow> sid \<Rightarrow> sys \<Rightarrow> process_h option" where
  "initng_process_db_get_by_name n i s =
     find (\<lambda>p. p_pst p = P_ACTIVE \<and> pt_name (p_pt p) = n) (rev (a_processes (svc s i)))"

definition initng_process_db_get_by_pid :: "int \<Rightarrow> sid \<Rightarrow> sys \<Rightarrow> process_h option" where
  "initng_process_db_get_by_pid pid i s =
     find (\<lambda>p. p_pst p = P_ACTIVE \<and> p_pid p = pid) (rev (a_processes (svc s i)))"

definition upd_process :: "sid \<Rightarrow> nat \<Rightarrow> (process_h \<Rightarrow> process_h) \<Rightarrow> sys \<Rightarrow> sys" where
  "upd_process i pa f = upd_svc i (\<lambda>a. a\<lparr>a_processes :=
     map (\<lambda>p. if p_addr p = pa then f p else p) (a_processes a)\<rparr>)"

text \<open>The process structure an address of the service stands for.\<close>

definition process_at :: "sid \<Rightarrow> nat \<Rightarrow> sys \<Rightarrow> process_h option" where
  "process_at i pa s = find (\<lambda>p. p_addr p = pa) (a_processes (svc s i))"

definition initng_process_db_free :: "sid \<Rightarrow> nat \<Rightarrow> sys \<Rightarrow> sys" where
  "initng_process_db_free i pa = upd_process i pa (\<lambda>p. p\<lparr>p_pst := P_FREE\<rparr>)"

definition initng_process_db_pipe_new :: "e_dir \<Rightarrow> pipe_h" where
  "initng_process_db_pipe_new dir = \<lparr>pipe_fd = (0, 0), pipe_dir = dir, pipe_targets = [], pipe_buffer = [],
     pipe_buffer_allocated = 0\<rparr>"

definition initng_process_db_new :: "ptype_h \<Rightarrow> sys \<Rightarrow> process_h \<times> sys" where
  "initng_process_db_new type s =
     (let current_pipe = (initng_process_db_pipe_new BUFFERED_OUT_PIPE)\<lparr>pipe_targets := [1, 2]\<rparr>
      in (\<lparr>p_addr = g_next_addr s, p_pt = type, p_pid = 0, p_r_code = 0, p_pipes = [current_pipe],
           p_pst = P_ACTIVE\<rparr>, bump_addr s))"

definition add_process :: "process_h \<Rightarrow> sid \<Rightarrow> sys \<Rightarrow> sys" where
  "add_process p i = upd_svc i (\<lambda>a. a\<lparr>a_processes := list_add p (a_processes a)\<rparr>)"

text \<open>The descriptors \<open>initng_process_db_real_free\<close> closes, pipe by pipe.\<close>

definition pipe_closes :: "pipe_h \<Rightarrow> effect list" where
  "pipe_closes q = (if 0 < fst (pipe_fd q) then [Eff_close (fst (pipe_fd q))] else [])
     @ (if 0 < snd (pipe_fd q) then [Eff_close (snd (pipe_fd q))] else [])"

definition initng_process_db_real_free :: "sid \<Rightarrow> process_h \<Rightarrow> sys \<Rightarrow> sys" where
  "initng_process_db_real_free i p s =
     (let s = upd_svc i (\<lambda>a. a\<lparr>a_processes := list_del p (a_processes a)\<rparr>) s
      in s\<lparr>g_effects := g_effects s @ concat (map pipe_closes (rev (p_pipes p)))\<rparr>)"

definition clear_freed_body :: "sid \<Rightarrow> process_h \<Rightarrow> sys \<Rightarrow> (unit option \<times> sys) option" where
  "clear_freed_body i p s =
     (if p_pst p \<noteq> P_FREE then Some (None, s)
      else Some (None, initng_process_db_real_free i p s))"

definition initng_process_db_clear_freed :: "sid \<Rightarrow> sys \<Rightarrow> sys option" where
  "initng_process_db_clear_freed i s = map_option snd
     (while_list_safe (\<lambda>s. a_processes (svc s i)) (clear_freed_body i)
        (Suc (length (a_processes (svc s i)))) s)"

definition initng_process_db_ptype_find :: "string \<Rightarrow> sys \<Rightarrow> ptype_h option" where
  "initng_process_db_ptype_find n s = find (\<lambda>t. n = pt_name t) (rev (g_ptypes s))"

definition initng_process_db_ptype_register :: "ptype_h \<Rightarrow> sys \<Rightarrow> sys" where
  "initng_process_db_ptype_register pt s = s\<lparr>g_ptypes := list_add pt (g_ptypes s)\<rparr>"

definition initng_process_db_ptype_unregister :: "ptype_h \<Rightarrow> sys \<Rightarrow> sys" where
  "initng_process_db_ptype_unregister pt s = s\<lparr>g_ptypes := list_del pt (g_ptypes s)\<rparr>"

section \<open>Lemmas\<close>

lemma real_free_simps [simp]:
  "g_active_db (initng_process_db_real_free i p s) = g_active_db s"
  "g_interrupt (initng_process_db_real_free i p s) = g_interrupt s"
  "a_processes (svc (initng_process_db_real_free i p s) i) = list_del p (a_processes (svc s i))"
  "j \<noteq> i \<Longrightarrow> svc (initng_process_db_real_free i p s) j = svc s j"
  "g_effects (initng_process_db_real_free i p s) =
     g_effects s @ concat (map pipe_closes (rev (p_pipes p)))"
  "same_frame s (initng_process_db_real_free i p s)"
  by (simp_all add: initng_process_db_real_free_def Let_def same_frame_def)

lemma clear_freed_each:
  assumes "distinct (a_processes (svc s i))"
  shows "initng_process_db_clear_freed i s =
    map_option snd (each (clear_freed_body i) (rev (a_processes (svc s i))) s)"
  unfolding initng_process_db_clear_freed_def
  by (subst while_list_safe_each) (use assms in \<open>auto simp: clear_freed_body_def split: if_splits\<close>)

lemma list_del_filter: "distinct xs \<Longrightarrow> list_del p (filter P xs) = filter (\<lambda>x. P x \<and> p \<noteq> x) xs"
  by (simp add: list_del_def distinct_remove1_removeAll removeAll_filter_not_eq)

lemma each_clear_freed:
  "distinct ps \<Longrightarrow> distinct (a_processes (svc s i)) \<Longrightarrow>
    \<exists>t. each (clear_freed_body i) ps s = Some (None, t)
      \<and> a_processes (svc t i) = filter (\<lambda>p. p \<in> set ps \<longrightarrow> p_pst p \<noteq> P_FREE) (a_processes (svc s i))
      \<and> g_effects t = g_effects s @
          concat (map (\<lambda>p. concat (map pipe_closes (rev (p_pipes p)))) (filter (\<lambda>p. p_pst p = P_FREE) ps))
      \<and> same_frame s t \<and> g_interrupt t = g_interrupt s \<and> (\<forall>j. j \<noteq> i \<longrightarrow> svc t j = svc s j)"
proof (induction ps arbitrary: s)
  case Nil
  then show ?case by simp
next
  case (Cons p ps)
  define u where "u = (if p_pst p \<noteq> P_FREE then s else initng_process_db_real_free i p s)"
  have step: "each (clear_freed_body i) (p # ps) s = each (clear_freed_body i) ps u"
    by (simp add: clear_freed_body_def u_def)
  have u: "distinct (a_processes (svc u i))" using Cons.prems by (simp add: u_def)
  have pr: "a_processes (svc u i) =
      filter (\<lambda>x. x = p \<longrightarrow> p_pst p \<noteq> P_FREE) (a_processes (svc s i))"
    using Cons.prems list_del_filter [of "a_processes (svc s i)" p "\<lambda>_. True"]
    by (auto simp: u_def intro: filter_cong)
  from Cons.IH [OF _ u] Cons.prems obtain t where t:
    "each (clear_freed_body i) ps u = Some (None, t)"
    "a_processes (svc t i) = filter (\<lambda>p. p \<in> set ps \<longrightarrow> p_pst p \<noteq> P_FREE) (a_processes (svc u i))"
    "g_effects t = g_effects u @
       concat (map (\<lambda>p. concat (map pipe_closes (rev (p_pipes p)))) (filter (\<lambda>p. p_pst p = P_FREE) ps))"
    "same_frame u t" "g_interrupt t = g_interrupt u" "\<forall>j. j \<noteq> i \<longrightarrow> svc t j = svc u j"
    by auto
  have "a_processes (svc t i) =
      filter (\<lambda>x. x \<in> set (p # ps) \<longrightarrow> p_pst x \<noteq> P_FREE) (a_processes (svc s i))"
    unfolding t(2) pr filter_filter by (rule filter_cong) auto
  moreover have "same_frame s t"
    using t(4) same_frame_trans [of s u t] by (simp add: u_def split: if_splits)
  moreover have "g_interrupt t = g_interrupt s" "\<forall>j. j \<noteq> i \<longrightarrow> svc t j = svc s j"
    using t(5,6) by (simp_all add: u_def split: if_splits)
  moreover have "g_effects t = g_effects s @ concat (map (\<lambda>p. concat (map pipe_closes (rev (p_pipes p))))
      (filter (\<lambda>p. p_pst p = P_FREE) (p # ps)))"
    using t(3) by (simp add: u_def)
  ultimately show ?case using step t(1) by simp
qed

lemma clear_freed_result:
  assumes "distinct (a_processes (svc s i))"
  shows "\<exists>t. initng_process_db_clear_freed i s = Some t
    \<and> a_processes (svc t i) = filter (\<lambda>p. p_pst p \<noteq> P_FREE) (a_processes (svc s i))
    \<and> g_effects t = g_effects s @ concat (map (\<lambda>p. concat (map pipe_closes (rev (p_pipes p))))
        (filter (\<lambda>p. p_pst p = P_FREE) (rev (a_processes (svc s i)))))
    \<and> same_frame s t \<and> g_interrupt t = g_interrupt s \<and> (\<forall>j. j \<noteq> i \<longrightarrow> svc t j = svc s j)"
proof -
  have "filter (\<lambda>p. p \<in> set (rev (a_processes (svc s i))) \<longrightarrow> p_pst p \<noteq> P_FREE) (a_processes (svc s i))
      = filter (\<lambda>p. p_pst p \<noteq> P_FREE) (a_processes (svc s i))"
    by (rule filter_cong) auto
  with each_clear_freed [of "rev (a_processes (svc s i))" s i] assms show ?thesis
    by (auto simp: clear_freed_each)
qed

section \<open>Properties\<close>

text \<open>C19: \<open>initng_process_db_clear_freed\<close> ends, takes exactly the processes marked as free out of
  the list, keeps the active ones in their order, and closes every open descriptor of the
  freed ones once.\<close>

theorem clear_freed_exact:
  assumes "distinct (a_processes (svc s i))"
  shows "\<exists>t. initng_process_db_clear_freed i s = Some t
    \<and> a_processes (svc t i) = filter (\<lambda>p. p_pst p = P_ACTIVE) (a_processes (svc s i))
    \<and> g_effects t = g_effects s @ concat (map (\<lambda>p. concat (map pipe_closes (rev (p_pipes p))))
        (filter (\<lambda>p. p_pst p = P_FREE) (rev (a_processes (svc s i)))))
    \<and> (\<forall>j. j \<noteq> i \<longrightarrow> svc t j = svc s j)"
proof -
  have "(x \<noteq> P_FREE) = (x = P_ACTIVE)" for x by (cases x) simp_all
  then have "filter (\<lambda>p. p_pst p \<noteq> P_FREE) (a_processes (svc s i))
      = filter (\<lambda>p. p_pst p = P_ACTIVE) (a_processes (svc s i))"
    by (intro filter_cong refl)
  with clear_freed_result [OF assms] show ?thesis by (metis (no_types, lifting))
qed

theorem clear_freed_exact_witness:
  "\<exists>t. initng_process_db_clear_freed 0 (initng_process_db_free 0 0
       (add_process (fst (initng_process_db_new \<lparr>pt_name = ''start'', pt_kill_handler = None\<rparr> (global_zero [] \<lparr>tv_sec = 0, tv_usec = 0\<rparr>))) 0
         (global_zero [] \<lparr>tv_sec = 0, tv_usec = 0\<rparr>))) = Some t \<and> a_processes (svc t 0) = []"
  using clear_freed_exact [of "initng_process_db_free 0 0
       (add_process (fst (initng_process_db_new \<lparr>pt_name = ''start'', pt_kill_handler = None\<rparr> (global_zero [] \<lparr>tv_sec = 0, tv_usec = 0\<rparr>))) 0
         (global_zero [] \<lparr>tv_sec = 0, tv_usec = 0\<rparr>))" 0]
  by (auto simp: initng_process_db_free_def upd_process_def add_process_def initng_process_db_new_def
      init_defs Let_def)

end
