(* ===== verification/Event.thy ===== *)
theory Event
  imports State_Change
begin

text \<open>
  The event system of src/main/event and the callers of src/main/module_callers. A hook is a
  call structure in the list of its event type; sending an event runs the hooks in the order
  they were registered until one of them handles it or fails.
\<close>

section \<open>Hooks\<close>

definition initng_event_hook_register :: "string \<Rightarrow> s_event_type \<Rightarrow> string \<Rightarrow> sys \<Rightarrow> int \<times> sys" where
  "initng_event_hook_register from_file t hook s =
     (let c = \<lparr>c_addr = g_next_addr s, c_from_file = from_file, c_pointer = hook\<rparr>;
          s = bump_addr s
      in (TRUE, s\<lparr>g_hooks := (g_hooks s)(t := list_add c (g_hooks s t))\<rparr>))"

fun hook_unregister_walk :: "string \<Rightarrow> s_call list \<Rightarrow> s_call option" where
  "hook_unregister_walk hook [] = None"
| "hook_unregister_walk hook (c # cs) =
     (if c_pointer c \<noteq> hook then hook_unregister_walk hook cs else Some c)"

definition initng_event_hook_unregister :: "s_event_type \<Rightarrow> string \<Rightarrow> sys \<Rightarrow> sys" where
  "initng_event_hook_unregister t hook s =
     (case hook_unregister_walk hook (rev (g_hooks s t)) of
        None \<Rightarrow> s
      | Some c \<Rightarrow> s\<lparr>g_hooks := (g_hooks s)(t := list_del c (g_hooks s t))\<rparr>)"

section \<open>Sending\<close>

text \<open>One hook: the loop returns when the hook has handled the event or made it fail.\<close>

definition send_hook :: "env \<Rightarrow> s_call \<Rightarrow> s_event \<times> sys \<Rightarrow> (unit option \<times> (s_event \<times> sys)) option" where
  "send_hook E c es = do {
     (ev, s) \<leftarrow> e_hook E (c_pointer c) (fst es) (snd es);
     (if ev_status ev = HANDLED \<or> ev_status ev = FAILED then Some (Some (), (ev, s))
      else Some (None, (ev, s))) }"

definition initng_event_send :: "env \<Rightarrow> s_event \<Rightarrow> sys \<Rightarrow> (s_event \<times> sys) option" where
  "initng_event_send E ev s = do {
     (r, (ev, s)) \<leftarrow> while_list (\<lambda>es. g_hooks (snd es) (ev_type ev)) (send_hook E) (e_fuel E)
        (ev\<lparr>ev_status := WAITING\<rparr>, s);
     (case r of Some _ \<Rightarrow> Some (ev, s)
              | None \<Rightarrow> Some (ev\<lparr>ev_status := UNKNOWN\<rparr>, s)) }"

definition event :: "s_event_type \<Rightarrow> event_data \<Rightarrow> s_event" where
  "event t d = \<lparr>ev_type = t, ev_data = d, ev_ret = None, ev_status = UNKNOWN\<rparr>"

section \<open>Event types\<close>

text \<open>
  Registration initialises the list pointers of the event type and then adds it to the event
  database; \<open>initng_list_add\<close> skips a node whose pointers are set. The second component tells
  whether they are set.
\<close>

definition list_add_node :: "'a \<times> bool \<Rightarrow> 'a list \<Rightarrow> 'a list" where
  "list_add_node n xs = (if snd n then xs else fst n # xs)"

definition initng_event_type_register :: "s_event_type \<Rightarrow> sys \<Rightarrow> sys" where
  "initng_event_type_register ent s =
     (let node = (ent, True);
          s = s\<lparr>g_hooks := (g_hooks s)(ent := [])\<rparr>
      in s\<lparr>g_event_db := list_add_node node (g_event_db s)\<rparr>)"

definition initng_event_type_unregister :: "s_event_type \<Rightarrow> sys \<Rightarrow> sys" where
  "initng_event_type_unregister ent s = s\<lparr>g_event_db := list_del ent (g_event_db s)\<rparr>"

definition initng_event_type_unregister_all :: "sys \<Rightarrow> sys" where
  "initng_event_type_unregister_all s =
     (fold initng_event_type_unregister (rev (g_event_db s)) s)\<lparr>g_event_db := []\<rparr>"

text \<open>The names of the event types.\<close>

fun event_type_name :: "s_event_type \<Rightarrow> string" where
  "event_type_name EVENT_STATE_CHANGE = ''state_change''"
| "event_type_name EVENT_SYSTEM_CHANGE = ''system_change''"
| "event_type_name EVENT_IS_CHANGE = ''is_change''"
| "event_type_name EVENT_UP_MET = ''up_met''"
| "event_type_name EVENT_MAIN = ''main''"
| "event_type_name EVENT_LAUNCH = ''launch''"
| "event_type_name EVENT_AFTER_FORK = ''after_fork''"
| "event_type_name EVENT_START_DEP_MET = ''start_dep_met''"
| "event_type_name EVENT_STOP_DEP_MET = ''stop_dep_met''"
| "event_type_name EVENT_PIPE_WATCHER = ''pipe_watcher''"
| "event_type_name EVENT_NEW_ACTIVE = ''new_active''"
| "event_type_name EVENT_DEP_ON = ''dep_on''"
| "event_type_name EVENT_RELOAD_ACTIVE_DB = ''reload_active_db''"
| "event_type_name EVENT_DUMP_ACTIVE_DB = ''dump_active_db''"
| "event_type_name EVENT_ERROR_MESSAGE = ''error_message''"
| "event_type_name EVENT_COMPENSATE_TIME = ''compensate_time''"
| "event_type_name EVENT_HANDLE_KILLED = ''handle_killed''"
| "event_type_name EVENT_SIGNAL = ''signal''"
| "event_type_name EVENT_BUFFER_WATCHER = ''buffer_watcher''"
| "event_type_name EVENT_IO_WATCHER = ''io_watcher''"
| "event_type_name EVENT_INTERRUPT = ''interrupt''"
| "event_type_name HALT = ''halt''"
| "event_type_name REBOOT = ''reboot''"

definition initng_event_type_find :: "string \<Rightarrow> sys \<Rightarrow> s_event_type option" where
  "initng_event_type_find n s = find (\<lambda>t. event_type_name t = n) (rev (g_event_db s))"

definition static_event_types :: "s_event_type list" where
  "static_event_types = [EVENT_STATE_CHANGE, EVENT_SYSTEM_CHANGE, EVENT_IS_CHANGE, EVENT_UP_MET,
     EVENT_MAIN, EVENT_LAUNCH, EVENT_AFTER_FORK, EVENT_START_DEP_MET, EVENT_STOP_DEP_MET,
     EVENT_PIPE_WATCHER, EVENT_NEW_ACTIVE, EVENT_DEP_ON, EVENT_RELOAD_ACTIVE_DB,
     EVENT_DUMP_ACTIVE_DB, EVENT_ERROR_MESSAGE, EVENT_COMPENSATE_TIME, EVENT_HANDLE_KILLED,
     EVENT_SIGNAL, EVENT_BUFFER_WATCHER, EVENT_IO_WATCHER, EVENT_INTERRUPT, HALT, REBOOT]"

definition initng_register_static_event_types :: "sys \<Rightarrow> sys" where
  "initng_register_static_event_types s = fold initng_event_type_register static_event_types s"

section \<open>Callers\<close>

definition initng_module_callers_active_db_dump :: "env \<Rightarrow> sys \<Rightarrow> (int \<times> sys) option" where
  "initng_module_callers_active_db_dump E s = do {
     (ev, s) \<leftarrow> initng_event_send E (event EVENT_DUMP_ACTIVE_DB ED_none) s;
     Some (of_cond (ev_status ev \<noteq> FAILED), s) }"

definition initng_module_callers_active_db_reload :: "env \<Rightarrow> sys \<Rightarrow> (int \<times> sys) option" where
  "initng_module_callers_active_db_reload E s = do {
     (ev, s) \<leftarrow> initng_event_send E (event EVENT_RELOAD_ACTIVE_DB ED_none) s;
     Some (of_cond (ev_status ev \<noteq> FAILED), s) }"

definition initng_module_callers_compensate_time :: "env \<Rightarrow> int \<Rightarrow> sys \<Rightarrow> sys option" where
  "initng_module_callers_compensate_time E t s = do {
     (ev, s) \<leftarrow> initng_event_send E (event EVENT_COMPENSATE_TIME (ED_int t)) s;
     Some s }"

definition initng_module_callers_handle_killed :: "env \<Rightarrow> sid \<Rightarrow> nat \<Rightarrow> sys \<Rightarrow> (int \<times> sys) option" where
  "initng_module_callers_handle_killed E i p s = do {
     (ev, s) \<leftarrow> initng_event_send E (event EVENT_HANDLE_KILLED (ED_process i p)) s;
     Some (of_cond (ev_status ev = HANDLED), s) }"

definition initng_module_active_new :: "env \<Rightarrow> string \<Rightarrow> sys \<Rightarrow> (sid option \<times> sys) option" where
  "initng_module_active_new E n s = do {
     (ev, s) \<leftarrow> initng_event_send E (event EVENT_NEW_ACTIVE (ED_name n)) s;
     Some (if ev_status ev = HANDLED then ev_ret ev else None, s) }"

definition initng_module_callers_signal :: "env \<Rightarrow> int \<Rightarrow> sys \<Rightarrow> sys option" where
  "initng_module_callers_signal E sig s = do {
     (ev, s) \<leftarrow> initng_event_send E (event EVENT_SIGNAL (ED_int sig)) s;
     Some s }"

definition initng_module_callers_system_changed :: "env \<Rightarrow> h_sys_state \<Rightarrow> sys \<Rightarrow> sys option" where
  "initng_module_callers_system_changed E st s = do {
     (ev, s) \<leftarrow> initng_event_send E (event EVENT_SYSTEM_CHANGE (ED_sys_state st)) s;
     Some s }"

section \<open>Lemmas\<close>

lemma send_no_hooks [simp]:
  "g_hooks s (ev_type ev) = [] \<Longrightarrow> 0 < e_fuel E \<Longrightarrow>
    initng_event_send E ev s = Some (ev\<lparr>ev_status := UNKNOWN\<rparr>, s)"
  by (cases "e_fuel E") (simp_all add: initng_event_send_def while_list_def)

lemma event_simps [simp]: "ev_type (event t d) = t" "ev_data (event t d) = d"
  by (simp_all add: event_def)

text \<open>
  What is true of the program state before an event and is kept by every hook that accepts events
  of the type is true after the event.
\<close>

locale hook_invariant =
  fixes E :: env and T :: s_event_type and I :: "sys \<Rightarrow> bool"
  assumes hook_keeps: "ev_type ev = T \<Longrightarrow> e_hook E f ev s = Some (ev', s') \<Longrightarrow> I s \<Longrightarrow> I s' \<and> ev_type ev' = T"
begin

lemma send_keeps:
  assumes send: "initng_event_send E ev s = Some (ev', s')" and "ev_type ev = T" and "I s"
  shows "I s'"
proof -
  let ?P = "\<lambda>es. I (snd es) \<and> ev_type (fst es) = T"
  have body: "send_hook E c es = Some (r, es') \<Longrightarrow> ?P es \<Longrightarrow> ?P es'" for c es r es'
    using hook_keeps [of "fst es" "c_pointer c" "snd es"] by (auto simp: send_hook_def split: bind_splits if_splits)
  from send obtain r es' where w: "while_list (\<lambda>es. g_hooks (snd es) (ev_type ev)) (send_hook E)
      (e_fuel E) (ev\<lparr>ev_status := WAITING\<rparr>, s) = Some (r, es')" and "snd es' = s'"
    by (auto simp: initng_event_send_def split: bind_splits option.splits)
  with while_list_invariant [where P = ?P, OF body w] assms(2,3) show ?thesis by simp
qed

end

text \<open>The verdict on an event that every hook answers without touching the program state.\<close>

fun first_verdict :: "event_status_t list \<Rightarrow> event_status_t" where
  "first_verdict [] = UNKNOWN"
| "first_verdict (v # vs) = (if v = HANDLED \<or> v = FAILED then v else first_verdict vs)"

definition decided :: "event_status_t \<Rightarrow> bool" where
  "decided v = (v = HANDLED \<or> v = FAILED)"

lemma each_verdict:
  assumes "\<And>c e. c \<in> set cs \<Longrightarrow> e_hook E (c_pointer c) e s = Some (e\<lparr>ev_status := v (c_pointer c)\<rparr>, s)"
  shows "\<exists>x. each (send_hook E) cs (ev, s) =
      Some (if decided (first_verdict (map (\<lambda>c. v (c_pointer c)) cs)) then Some () else None,
        (ev\<lparr>ev_status := x\<rparr>, s))
    \<and> (decided (first_verdict (map (\<lambda>c. v (c_pointer c)) cs)) \<longrightarrow>
        x = first_verdict (map (\<lambda>c. v (c_pointer c)) cs))"
  using assms
proof (induction cs arbitrary: ev)
  case Nil
  then show ?case by (auto simp: decided_def intro: exI [of _ "ev_status ev"])
next
  case (Cons c cs)
  let ?e = "ev\<lparr>ev_status := v (c_pointer c)\<rparr>"
  have h: "send_hook E c (ev, s) =
      Some (if decided (v (c_pointer c)) then Some () else None, (?e, s))"
    using Cons.prems by (simp add: send_hook_def decided_def)
  show ?case
  proof (cases "decided (v (c_pointer c))")
    case True
    then have "first_verdict (map (\<lambda>c. v (c_pointer c)) (c # cs)) = v (c_pointer c)"
      by (simp add: decided_def)
    with True h show ?thesis by auto
  next
    case False
    then have "first_verdict (map (\<lambda>c. v (c_pointer c)) (c # cs))
        = first_verdict (map (\<lambda>c. v (c_pointer c)) cs)"
      by (simp add: decided_def)
    with False h Cons.IH [of ?e] Cons.prems show ?thesis by simp
  qed
qed

lemma first_verdict_undecided: "\<not> decided (first_verdict vs) \<Longrightarrow> first_verdict vs = UNKNOWN"
  by (induction vs) (auto simp: decided_def)

lemma event_type_register_db [simp]: "g_event_db (initng_event_type_register t s) = g_event_db s"
  by (simp add: initng_event_type_register_def list_add_node_def Let_def)

lemma hook_unregister_walk_append:
  "\<forall>c \<in> set cs. c_pointer c \<noteq> h \<Longrightarrow> hook_unregister_walk h (cs @ ds) = hook_unregister_walk h ds"
  by (induction cs) auto

section \<open>Properties\<close>



text \<open>No event type is ever found by its name. Registration sets the list pointers of the
  type before it adds it to the event database, and adding skips a node with pointers set, so
  the database stays empty.\<close>

theorem event_types_not_registered:
  "initng_event_type_find n (initng_register_static_event_types (global_zero argv clock)) = None"
proof -
  have "g_event_db (fold initng_event_type_register ts s) = g_event_db s" for ts s
    by (induction ts arbitrary: s) simp_all
  then show ?thesis
    by (simp add: initng_event_type_find_def initng_register_static_event_types_def global_zero_def)
qed

text \<open>Unregistering a hook that was registered under a name that no other hook of the event
  type has gives the old list of hooks back.\<close>

theorem hook_register_unregister:
  assumes "\<forall>c \<in> set (g_hooks s t). c_pointer c \<noteq> h \<and> c_addr c < g_next_addr s"
  shows "g_hooks (initng_event_hook_unregister t h (snd (initng_event_hook_register file t h s))) = g_hooks s"
proof -
  let ?c = "\<lparr>c_addr = g_next_addr s, c_from_file = file, c_pointer = h\<rparr>"
  have "?c \<notin> set (g_hooks s t)" using assms by fastforce
  moreover have "hook_unregister_walk h (rev (g_hooks s t) @ [?c]) = Some ?c"
    using assms by (subst hook_unregister_walk_append) auto
  ultimately show ?thesis
    by (simp add: initng_event_hook_unregister_def initng_event_hook_register_def bump_addr_def
        list_add_def list_del_def Let_def fun_upd_idem)
qed

theorem hook_register_unregister_witness:
  "g_hooks (initng_event_hook_unregister EVENT_MAIN ''hook'' (snd (initng_event_hook_register ''f.c'' EVENT_MAIN ''hook''
     (global_zero [] \<lparr>tv_sec = 0, tv_usec = 0\<rparr>)))) = (\<lambda>_. [])"
  by (subst hook_register_unregister) (simp_all add: global_zero_def)

end
