(* ===== verification/Active_DB.thy ===== *)
theory Active_DB
  imports Process_DB Event
begin

text \<open>
  The database of services: src/main/active_db. The theory has the creation, registration,
  lookup, counting and removal of services, the correction of their times after a clock
  change, the registry of service types, and the invariant \<open>db_wf\<close> of the database.
\<close>

section \<open>Operations\<close>

definition initng_active_db_new :: "string \<Rightarrow> sys \<Rightarrow> sid \<times> sys" where
  "initng_active_db_new n s =
     (let i = g_next_sid s; now = g_clock s;
          a = calloc_service\<lparr>a_name := n, a_data := DATA_HEAD_INIT, a_time_current_state := now,
                a_time_last_state := now, a_last_rought_time := now, a_current_state := NEW,
                a_alarm := 0, a_name_hash := initng_hash_str n, a_allocated := True\<rparr>
      in (i, s\<lparr>svc := (svc s)(i := a), g_next_sid := i + 1\<rparr>))"

fun find_by_name_walk :: "hash_t \<Rightarrow> string \<Rightarrow> sys \<Rightarrow> sid list \<Rightarrow> sid option" where
  "find_by_name_walk hash n s [] = None"
| "find_by_name_walk hash n s (i # is) =
     (if a_name_hash (svc s i) = hash \<and> a_name (svc s i) = n then Some i
      else find_by_name_walk hash n s is)"

definition initng_active_db_find_by_name :: "string \<Rightarrow> sys \<Rightarrow> sid option" where
  "initng_active_db_find_by_name n s =
     find_by_name_walk (initng_hash_str n) n s (rev (g_active_db s))"

definition initng_active_db_find_by_pid :: "int \<Rightarrow> sys \<Rightarrow> sid option" where
  "initng_active_db_find_by_pid pid s =
     find (\<lambda>i. list_ex (\<lambda>p. p_pid p = pid) (rev (a_processes (svc s i)))) (rev (g_active_db s))"

definition initng_active_db_register :: "sid \<Rightarrow> sys \<Rightarrow> int \<times> sys" where
  "initng_active_db_register i s =
     (case initng_active_db_find_by_name (a_name (svc s i)) s of
        Some _ \<Rightarrow> (FALSE, s)
      | None \<Rightarrow> (TRUE, s\<lparr>g_active_db := list_add i (g_active_db s)\<rparr>))"

definition initng_active_db_unregister :: "sid \<Rightarrow> sys \<Rightarrow> sys" where
  "initng_active_db_unregister i s = s\<lparr>g_active_db := list_del i (g_active_db s)\<rparr>"

fun free_processes :: "sid \<Rightarrow> process_h list \<Rightarrow> sys \<Rightarrow> sys" where
  "free_processes i [] s = s"
| "free_processes i (p # ps) s = free_processes i ps (initng_process_db_real_free i p s)"

definition initng_active_db_free :: "sid \<Rightarrow> sys \<Rightarrow> sys" where
  "initng_active_db_free i s =
     (let s = snd (initng_common_mark_service i FREEING s);
          s = s\<lparr>g_active_db := list_del i (g_active_db s)\<rparr>;
          s = s\<lparr>g_interrupt := list_del i (g_interrupt s)\<rparr>;
          s = free_processes i (rev (a_processes (svc s i))) s
      in upd_svc i (\<lambda>a. a\<lparr>a_data := initng_data_remove_all (a_data a), a_allocated := False\<rparr>) s)"

definition free_all_body :: "sid \<Rightarrow> sys \<Rightarrow> (unit option \<times> sys) option" where
  "free_all_body i s = Some (None, initng_active_db_free i s)"

definition initng_active_db_free_all :: "sys \<Rightarrow> sys option" where
  "initng_active_db_free_all s =
     map_option snd (while_list_safe g_active_db free_all_body (Suc (length (g_active_db s))) s)"

definition CLEAN_DELAY :: int where "CLEAN_DELAY = 60"

definition clean_down_body :: "sid \<Rightarrow> sys \<Rightarrow> (unit option \<times> sys) option" where
  "clean_down_body i s =
     (if tv_sec (a_time_current_state (svc s i)) + CLEAN_DELAY < tv_sec (g_now s) then do {
        s \<leftarrow> initng_process_db_clear_freed i s;
        if GET_STATE s i \<noteq> IS_DOWN then Some (None, s)
        else Some (None, initng_active_db_free i s) }
      else Some (None, s))"

definition initng_active_db_clean_down :: "sys \<Rightarrow> sys option" where
  "initng_active_db_clean_down s =
     map_option snd (while_list_safe g_active_db clean_down_body (Suc (length (g_active_db s))) s)"

definition shift_times :: "int \<Rightarrow> active_db_h \<Rightarrow> active_db_h" where
  "shift_times skew a =
     a\<lparr>a_time_current_state := (a_time_current_state a)\<lparr>tv_sec := tv_sec (a_time_current_state a) + skew\<rparr>,
       a_time_last_state := (a_time_last_state a)\<lparr>tv_sec := tv_sec (a_time_last_state a) + skew\<rparr>,
       a_last_rought_time := (a_last_rought_time a)\<lparr>tv_sec := tv_sec (a_last_rought_time a) + skew\<rparr>,
       a_alarm := a_alarm a + skew\<rparr>"

fun compensate_walk :: "int \<Rightarrow> sid list \<Rightarrow> sys \<Rightarrow> sys" where
  "compensate_walk skew [] s = s"
| "compensate_walk skew (i # is) s = compensate_walk skew is (upd_svc i (shift_times skew) s)"

definition initng_active_db_compensate_time :: "int \<Rightarrow> sys \<Rightarrow> sys" where
  "initng_active_db_compensate_time skew s = compensate_walk skew (rev (g_active_db s)) s"

definition initng_active_db_count :: "a_state_h option \<Rightarrow> sys \<Rightarrow> int" where
  "initng_active_db_count st s =
     (case st of
        None \<Rightarrow> int (length (filter (\<lambda>i. GET_STATE s i \<noteq> IS_FAILED \<and> GET_STATE s i \<noteq> IS_DOWN)
                       (rev (g_active_db s))))
      | Some st \<Rightarrow> int (length (filter (\<lambda>i. a_current_state (svc s i) = st) (rev (g_active_db s)))))"

definition is_count :: "e_is \<Rightarrow> sys \<Rightarrow> int" where
  "is_count st s = int (length (filter (\<lambda>i. GET_STATE s i = st) (rev (g_active_db s))))"

definition initng_active_db_percent_started :: "sys \<Rightarrow> int" where
  "initng_active_db_percent_started s =
     (let starting = is_count IS_STARTING s; up = is_count IS_UP s
      in if starting \<le> 0 then 100
         else if 0 < up then c_div (100 * up) (starting + up) else 0)"

definition initng_active_db_percent_stopped :: "sys \<Rightarrow> int" where
  "initng_active_db_percent_stopped s =
     (let stopping = is_count IS_STOPPING s; down = is_count IS_DOWN s
      in if stopping \<le> 0 then 100
         else if 0 < down then c_div (100 * down) (stopping + down) else 0)"

section \<open>Service types and entry types\<close>

definition initng_service_type_register :: "stype_h \<Rightarrow> sys \<Rightarrow> sys" where
  "initng_service_type_register t s = s\<lparr>g_stypes := list_add t (g_stypes s)\<rparr>"

definition initng_service_type_unregister :: "stype_h \<Rightarrow> sys \<Rightarrow> sys" where
  "initng_service_type_unregister t s = s\<lparr>g_stypes := list_del t (g_stypes s)\<rparr>"

text \<open>strncmp with the length of the type name: a type matches every name it is a prefix of.\<close>

definition initng_service_type_get_by_name :: "string \<Rightarrow> sys \<Rightarrow> stype_h option" where
  "initng_service_type_get_by_name n s =
     find (\<lambda>t. take (length (sty_name t)) n = sty_name t) (rev (g_stypes s))"

definition TYPE_CONTAINER :: stype_h where
  "TYPE_CONTAINER = \<lparr>sty_name = ''container'', sty_hidden = True, sty_start = None, sty_stop = None,
     sty_restart = None\<rparr>"

definition initng_static_stypes_register_defaults :: "sys \<Rightarrow> sys" where
  "initng_static_stypes_register_defaults = initng_service_type_register TYPE_CONTAINER"

definition initng_service_data_type_register :: "s_entry \<Rightarrow> sys \<Rightarrow> sys" where
  "initng_service_data_type_register ent s = s\<lparr>g_option_db := list_add ent (g_option_db s)\<rparr>"

definition initng_service_data_type_find :: "string \<Rightarrow> sys \<Rightarrow> s_entry option" where
  "initng_service_data_type_find n s = find (\<lambda>e. ent_name e = n) (rev (g_option_db s))"

definition initng_service_data_type_unregister :: "s_entry \<Rightarrow> sys \<Rightarrow> sys" where
  "initng_service_data_type_unregister ent s =
     (let s = fold (svc_remove ent) (rev (g_active_db s)) s
      in s\<lparr>g_option_db := list_del ent (g_option_db s)\<rparr>)"

definition initng_service_data_type_unregister_all :: "sys \<Rightarrow> sys" where
  "initng_service_data_type_unregister_all s =
     (fold initng_service_data_type_unregister (rev (g_option_db s)) s)\<lparr>g_option_db := []\<rparr>"

definition initng_static_data_id_register_defaults :: "sys \<Rightarrow> sys" where
  "initng_static_data_id_register_defaults s =
     fold initng_service_data_type_register [ENV, USE, NEED, REQUIRE, FROM_FILE, RESTARTING] s"

definition initng_config_global_new :: "string list \<Rightarrow> timeval \<Rightarrow> sys" where
  "initng_config_global_new argv clock =
     initng_register_static_event_types
       (initng_static_stypes_register_defaults
         (initng_static_states_register_defaults
           (initng_static_data_id_register_defaults (global_zero argv clock))))"

section \<open>The invariant of the database\<close>

definition svc_wf :: "active_db_h \<Rightarrow> bool" where
  "svc_wf a = (a_name_hash a = initng_hash_str (a_name a) \<and> data_wf (a_data a)
     \<and> distinct (map p_addr (a_processes a)))"

definition db_wf :: "sys \<Rightarrow> bool" where
  "db_wf s = (distinct (g_active_db s) \<and> distinct (g_interrupt s)
     \<and> distinct (map (\<lambda>i. a_name (svc s i)) (g_active_db s))
     \<and> (\<forall>i \<in> set (g_active_db s). a_allocated (svc s i))
     \<and> (\<forall>i \<in> set (g_interrupt s). a_allocated (svc s i))
     \<and> (\<forall>i. a_allocated (svc s i) \<longrightarrow> i < g_next_sid s \<and> svc_wf (svc s i)))"

section \<open>Lemmas\<close>

lemma find_by_name_walk_find:
  "find_by_name_walk h n s is = find (\<lambda>i. a_name_hash (svc s i) = h \<and> a_name (svc s i) = n) is"
  by (induction "is") auto

lemma find_by_name_Some:
  "initng_active_db_find_by_name n s = Some i \<Longrightarrow> i \<in> set (g_active_db s) \<and> a_name (svc s i) = n"
  by (auto simp: initng_active_db_find_by_name_def find_by_name_walk_find dest!: find_hit)

text \<open>With the hashes of the invariant the walk finds the service of that name.\<close>

lemma find_by_name_iff:
  assumes "db_wf s"
  shows "initng_active_db_find_by_name n s = Some i \<longleftrightarrow> i \<in> set (g_active_db s) \<and> a_name (svc s i) = n"
proof
  assume i: "i \<in> set (g_active_db s) \<and> a_name (svc s i) = n"
  with assms have "a_name_hash (svc s i) = initng_hash_str n"
    by (auto simp: db_wf_def svc_wf_def)
  with i have "find (\<lambda>i. a_name_hash (svc s i) = initng_hash_str n \<and> a_name (svc s i) = n) (rev (g_active_db s)) \<noteq> None"
    by (auto simp: find_None_iff)
  then obtain j where j: "initng_active_db_find_by_name n s = Some j"
    by (auto simp: initng_active_db_find_by_name_def find_by_name_walk_find)
  from find_by_name_Some [OF j] i assms have "j = i"
    by (auto simp: db_wf_def distinct_map inj_on_def)
  with j show "initng_active_db_find_by_name n s = Some i" by simp
qed (auto dest: find_by_name_Some)

lemma find_by_name_None:
  assumes "db_wf s"
  shows "initng_active_db_find_by_name n s = None \<longleftrightarrow> n \<notin> (\<lambda>i. a_name (svc s i)) ` set (g_active_db s)"
proof (cases "initng_active_db_find_by_name n s")
  case None
  with find_by_name_iff [OF assms, of n] show ?thesis by auto
next
  case (Some i)
  with find_by_name_Some [OF Some] show ?thesis by auto
qed

lemma mark_svc_simps [simp]:
  "a_name (svc (snd (initng_common_mark_service i st s)) j) = a_name (svc s j)"
  "a_name_hash (svc (snd (initng_common_mark_service i st s)) j) = a_name_hash (svc s j)"
  "a_allocated (svc (snd (initng_common_mark_service i st s)) j) = a_allocated (svc s j)"
  "a_type (svc (snd (initng_common_mark_service i st s)) j) = a_type (svc s j)"
  using mark_frame [of s i st] by (simp_all add: same_frame_def)

lemma mark_processes [simp]:
  "a_processes (svc (snd (initng_common_mark_service i st s)) j) = a_processes (svc s j)"
  "g_next_sid (snd (initng_common_mark_service i st s)) = g_next_sid s"
  by (auto simp: initng_common_mark_service_def initng_common_state_unlock_def Let_def split: option.splits)

lemma mark_interrupt_subset:
  "set (g_interrupt (snd (initng_common_mark_service i st s))) \<subseteq> insert i (set (g_interrupt s))"
  by (auto simp: initng_common_mark_service_def initng_common_state_unlock_def Let_def split: option.splits)

lemma db_wf_mark:
  assumes "db_wf s" and "a_allocated (svc s i)"
  shows "db_wf (snd (initng_common_mark_service i st s))"
  using assms mark_interrupt_subset [of i st s]
  by (auto simp: db_wf_def svc_wf_def interrupt_distinct)

lemma new_simps:
  "fst (initng_active_db_new n s) = g_next_sid s"
  "g_active_db (snd (initng_active_db_new n s)) = g_active_db s"
  "g_interrupt (snd (initng_active_db_new n s)) = g_interrupt s"
  "g_next_sid (snd (initng_active_db_new n s)) = g_next_sid s + 1"
  "j \<noteq> g_next_sid s \<Longrightarrow> svc (snd (initng_active_db_new n s)) j = svc s j"
  "a_name (svc (snd (initng_active_db_new n s)) (g_next_sid s)) = n"
  "a_allocated (svc (snd (initng_active_db_new n s)) (g_next_sid s))"
  "a_current_state (svc (snd (initng_active_db_new n s)) (g_next_sid s)) = NEW"
  "svc_wf (svc (snd (initng_active_db_new n s)) (g_next_sid s))"
  by (simp_all add: initng_active_db_new_def Let_def svc_wf_def calloc_service_def)

lemma db_wf_new: "db_wf s \<Longrightarrow> db_wf (snd (initng_active_db_new n s))"
proof -
  assume wf: "db_wf s"
  let ?t = "snd (initng_active_db_new n s)"
  have fresh: "g_next_sid s \<notin> set (g_active_db s)" "g_next_sid s \<notin> set (g_interrupt s)"
    using wf by (auto simp: db_wf_def)
  then have same: "svc ?t i = svc s i" if "i \<in> set (g_active_db s) \<union> set (g_interrupt s)" for i
    using that by (intro new_simps(5)) auto
  have "a_allocated (svc ?t i) \<longrightarrow> i < g_next_sid ?t \<and> svc_wf (svc ?t i)" for i
    using wf new_simps(4,5,9) by (cases "i = g_next_sid s") (auto simp: db_wf_def)
  moreover have "map (\<lambda>i. a_name (svc ?t i)) (g_active_db s) = map (\<lambda>i. a_name (svc s i)) (g_active_db s)"
    using same by (intro map_cong) auto
  then have "distinct (map (\<lambda>i. a_name (svc ?t i)) (g_active_db ?t))"
    using wf by (simp only: new_simps(2)) (simp add: db_wf_def)
  ultimately show ?thesis
    using wf same unfolding db_wf_def new_simps(2,3) by auto
qed

lemma db_wf_register:
  assumes wf: "db_wf s" and "a_allocated (svc s i)"
  shows "db_wf (snd (initng_active_db_register i s))"
proof (cases "initng_active_db_find_by_name (a_name (svc s i)) s")
  case None
  then have r: "snd (initng_active_db_register i s) = s\<lparr>g_active_db := list_add i (g_active_db s)\<rparr>"
    by (simp add: initng_active_db_register_def)
  from None find_by_name_None [OF wf] have "a_name (svc s i) \<notin> (\<lambda>i. a_name (svc s i)) ` set (g_active_db s)"
    by blast
  with assms show ?thesis unfolding r by (simp add: db_wf_def list_add_def)
qed (use wf in \<open>simp add: initng_active_db_register_def\<close>)

lemma free_processes_simps [simp]:
  "g_active_db (free_processes i ps s) = g_active_db s"
  "g_interrupt (free_processes i ps s) = g_interrupt s"
  "g_next_sid (free_processes i ps s) = g_next_sid s"
  "g_now (free_processes i ps s) = g_now s"
  "j \<noteq> i \<Longrightarrow> svc (free_processes i ps s) j = svc s j"
  by (induction ps arbitrary: s) (simp_all add: initng_process_db_real_free_def Let_def)

lemma free_simps [simp]:
  "g_active_db (initng_active_db_free i s) = list_del i (g_active_db s)"
  "g_next_sid (initng_active_db_free i s) = g_next_sid s"
  "g_now (initng_active_db_free i s) = g_now s"
  "j \<noteq> i \<Longrightarrow> svc (initng_active_db_free i s) j = svc s j"
  "\<not> a_allocated (svc (initng_active_db_free i s) i)"
  by (simp_all add: initng_active_db_free_def Let_def)

lemma free_interrupt:
  "distinct (g_interrupt s) \<Longrightarrow> set (g_interrupt (initng_active_db_free i s)) = set (g_interrupt s) - {i}
     \<and> distinct (g_interrupt (initng_active_db_free i s))"
proof -
  assume d: "distinct (g_interrupt s)"
  let ?m = "snd (initng_common_mark_service i FREEING s)"
  have "set (g_interrupt ?m) - {i} = set (g_interrupt s) - {i}"
    by (auto simp: initng_common_mark_service_def initng_common_state_unlock_def Let_def split: option.splits)
  with interrupt_distinct(2) [OF d, of i FREEING] show ?thesis
    by (simp add: initng_active_db_free_def Let_def)
qed

lemma db_wf_free:
  assumes wf: "db_wf s"
  shows "db_wf (initng_active_db_free i s)"
proof -
  let ?t = "initng_active_db_free i s"
  have d: "distinct (g_active_db s)" "distinct (g_interrupt s)" using wf by (auto simp: db_wf_def)
  have act: "set (g_active_db ?t) = set (g_active_db s) - {i}" using d by simp
  have same: "svc ?t j = svc s j" if "j \<noteq> i" for j using that by simp
  have "map (\<lambda>j. a_name (svc ?t j)) (g_active_db ?t) = map (\<lambda>j. a_name (svc s j)) (list_del i (g_active_db s))"
    using d act by (intro map_cong) auto
  moreover have "distinct (map (\<lambda>j. a_name (svc s j)) (list_del i (g_active_db s)))"
    using wf d by (auto simp: db_wf_def distinct_map inj_on_def)
  ultimately have names: "distinct (map (\<lambda>j. a_name (svc ?t j)) (g_active_db ?t))" by metis
  have ne: "j \<noteq> i" if "a_allocated (svc ?t j)" for j using that free_simps(5) by metis
  note int = free_interrupt [OF d(2), of i]
  have old: "\<forall>j \<in> set (g_active_db s). a_allocated (svc s j)" "\<forall>j \<in> set (g_interrupt s). a_allocated (svc s j)"
    "\<forall>j. a_allocated (svc s j) \<longrightarrow> j < g_next_sid s \<and> svc_wf (svc s j)"
    using wf by (simp_all add: db_wf_def)
  have "\<forall>j \<in> set (g_active_db ?t). a_allocated (svc ?t j)"
    using act old(1) same by (metis DiffE insertI1)
  moreover have "\<forall>j \<in> set (g_interrupt ?t). a_allocated (svc ?t j)"
    using int old(2) same by (metis DiffE insertI1)
  moreover have "\<forall>j. a_allocated (svc ?t j) \<longrightarrow> j < g_next_sid ?t \<and> svc_wf (svc ?t j)"
    using ne old(3) same by (metis free_simps(2))
  moreover have "distinct (g_active_db ?t)" using d by simp
  ultimately show ?thesis using int names unfolding db_wf_def by blast
qed

lemma db_wf_same:
  assumes "db_wf s" and "g_active_db t = g_active_db s" and "g_interrupt t = g_interrupt s"
    and "g_next_sid t = g_next_sid s"
    and "\<And>j. a_name (svc t j) = a_name (svc s j) \<and> a_allocated (svc t j) = a_allocated (svc s j)
      \<and> (svc_wf (svc s j) \<longrightarrow> svc_wf (svc t j))"
  shows "db_wf t"
  using assms by (auto simp: db_wf_def)

text \<open>A service that has been down for longer than the delay.\<close>

definition stale :: "sys \<Rightarrow> sid \<Rightarrow> bool" where
  "stale s i = (tv_sec (a_time_current_state (svc s i)) + CLEAN_DELAY < tv_sec (g_now s)
     \<and> GET_STATE s i = IS_DOWN)"

lemma clear_freed_state:
  assumes "distinct (a_processes (svc s i))" and "initng_process_db_clear_freed i s = Some t"
  shows "a_current_state (svc t j) = a_current_state (svc s j)
    \<and> a_time_current_state (svc t j) = a_time_current_state (svc s j)
    \<and> a_data (svc t j) = a_data (svc s j) \<and> g_now t = g_now s \<and> g_next_sid t = g_next_sid s"
proof -
  have body: "P s \<Longrightarrow> P s'" if "clear_freed_body i p s = Some (r, s')"
    "P = (\<lambda>t. a_current_state (svc t j) = c \<and> a_time_current_state (svc t j) = tm
      \<and> a_data (svc t j) = d \<and> g_now t = n \<and> g_next_sid t = x)" for p s r s' P c tm d n x
    using that by (auto simp: clear_freed_body_def initng_process_db_real_free_def Let_def split: if_splits)
  from assms obtain r where "each (clear_freed_body i) (rev (a_processes (svc s i))) s = Some (r, t)"
    by (auto simp: clear_freed_each)
  from each_invariant [where P = "\<lambda>t. a_current_state (svc t j) = a_current_state (svc s j)
      \<and> a_time_current_state (svc t j) = a_time_current_state (svc s j)
      \<and> a_data (svc t j) = a_data (svc s j) \<and> g_now t = g_now s \<and> g_next_sid t = g_next_sid s", OF _ this]
  show ?thesis using body by simp
qed

lemma clean_down_body_result:
  assumes wf: "db_wf s" and i: "i \<in> set (g_active_db s)"
  shows "\<exists>t. clean_down_body i s = Some (None, t) \<and> db_wf t \<and> g_now t = g_now s
    \<and> g_active_db t = (if stale s i then list_del i (g_active_db s) else g_active_db s)
    \<and> (\<forall>j. j \<noteq> i \<longrightarrow> svc t j = svc s j)
    \<and> (\<not> stale s i \<longrightarrow> a_current_state (svc t i) = a_current_state (svc s i)
        \<and> a_time_current_state (svc t i) = a_time_current_state (svc s i))"
proof (cases "tv_sec (a_time_current_state (svc s i)) + CLEAN_DELAY < tv_sec (g_now s)")
  case False
  with wf show ?thesis by (simp add: clean_down_body_def stale_def)
next
  case True
  from wf i have swf: "svc_wf (svc s i)" by (auto simp: db_wf_def)
  then have d: "distinct (a_processes (svc s i))"
    by (auto simp: svc_wf_def distinct_map)
  from clear_freed_result [OF d] obtain t where t: "initng_process_db_clear_freed i s = Some t"
    "a_processes (svc t i) = filter (\<lambda>p. p_pst p \<noteq> P_FREE) (a_processes (svc s i))"
    "same_frame s t" "g_interrupt t = g_interrupt s" "\<forall>j. j \<noteq> i \<longrightarrow> svc t j = svc s j" by auto
  note st = clear_freed_state [OF d t(1)]
  have "svc_wf (svc t j)" if "svc_wf (svc s j)" for j
    using that t st by (cases "j = i") (auto simp: svc_wf_def same_frame_def distinct_map inj_on_def)
  with db_wf_same [OF wf, of t] t(3,4) st have wft: "db_wf t" by (auto simp: same_frame_def)
  have g: "GET_STATE t i = GET_STATE s i" using st by (simp add: GET_STATE_def)
  have act: "g_active_db t = g_active_db s" using t(3) by (simp add: same_frame_def)
  show ?thesis
  proof (cases "GET_STATE s i = IS_DOWN")
    case down: True
    with True t(1) g have "clean_down_body i s = Some (None, initng_active_db_free i t)"
      by (simp add: clean_down_body_def)
    with down True wft st act t(5) db_wf_free show ?thesis by (auto simp: stale_def)
  next
    case False
    with True t(1) g have "clean_down_body i s = Some (None, t)" by (simp add: clean_down_body_def)
    with False wft st act t(5) show ?thesis by (auto simp: stale_def)
  qed
qed

lemma each_clean_down:
  "db_wf s \<Longrightarrow> distinct is \<Longrightarrow> set is \<subseteq> set (g_active_db s) \<Longrightarrow>
    \<exists>t. each clean_down_body is s = Some (None, t) \<and> db_wf t
      \<and> g_active_db t = filter (\<lambda>i. i \<in> set is \<longrightarrow> \<not> stale s i) (g_active_db s)"
proof (induction "is" arbitrary: s)
  case Nil
  then show ?case by simp
next
  case (Cons i "is")
  from clean_down_body_result [OF Cons.prems(1), of i] Cons.prems(3) obtain u where u:
    "clean_down_body i s = Some (None, u)" "db_wf u" "g_now u = g_now s"
    "g_active_db u = (if stale s i then list_del i (g_active_db s) else g_active_db s)"
    "\<forall>j. j \<noteq> i \<longrightarrow> svc u j = svc s j" by auto
  have d: "distinct (g_active_db s)" using Cons.prems(1) by (simp add: db_wf_def)
  have sub: "set is \<subseteq> set (g_active_db u)" using Cons.prems d u(4) by auto
  from Cons.IH [OF u(2) _ sub] Cons.prems(2) obtain t where t:
    "each clean_down_body is u = Some (None, t)" "db_wf t"
    "g_active_db t = filter (\<lambda>i. i \<in> set is \<longrightarrow> \<not> stale u i) (g_active_db u)" by auto
  have st: "stale u j = stale s j" if "j \<in> set is" for j
    using that Cons.prems(2) u(3,5) by (auto simp: stale_def GET_STATE_def)
  have "g_active_db u = filter (\<lambda>j. j = i \<longrightarrow> \<not> stale s i) (g_active_db s)"
    using u(4) list_del_filter [OF d, of i "\<lambda>_. True"] by (auto intro!: filter_cong)
  then have "g_active_db t = filter (\<lambda>j. j \<in> set (i # is) \<longrightarrow> \<not> stale s j) (g_active_db s)"
    using t(3) st by (auto simp: filter_filter intro!: filter_cong)
  with u(1) t(1,2) show ?case by simp
qed

lemma clear_freed_active: "initng_process_db_clear_freed i s = Some t \<Longrightarrow> g_active_db t = g_active_db s"
proof -
  assume "initng_process_db_clear_freed i s = Some t"
  then obtain r where "while_list_safe (\<lambda>s. a_processes (svc s i)) (clear_freed_body i)
      (Suc (length (a_processes (svc s i)))) s = Some (r, t)"
    by (auto simp: initng_process_db_clear_freed_def)
  moreover have "g_active_db v = g_active_db u" if "clear_freed_body i p u = Some (q, v)" for p u q v
    using that by (auto simp: clear_freed_body_def split: if_splits)
  ultimately show ?thesis
    using while_list_safe_invariant [where P = "\<lambda>t. g_active_db t = g_active_db s"] by metis
qed

lemma clean_down_body_list:
  "clean_down_body i s = Some (r, t) \<Longrightarrow> g_active_db t = g_active_db s \<or> g_active_db t = list_del i (g_active_db s)"
  by (auto simp: clean_down_body_def dest: clear_freed_active split: if_splits bind_splits)

lemma clean_down_result:
  assumes wf: "db_wf s"
  shows "\<exists>t. initng_active_db_clean_down s = Some t \<and> db_wf t
    \<and> g_active_db t = filter (\<lambda>i. \<not> stale s i) (g_active_db s)"
proof -
  have d: "distinct (g_active_db s)" using wf by (simp add: db_wf_def)
  have loop: "initng_active_db_clean_down s = map_option snd (each clean_down_body (rev (g_active_db s)) s)"
    unfolding initng_active_db_clean_down_def
    by (subst while_list_safe_each) (use clean_down_body_list d in auto)
  have "filter (\<lambda>i. i \<in> set (rev (g_active_db s)) \<longrightarrow> \<not> stale s i) (g_active_db s)
      = filter (\<lambda>i. \<not> stale s i) (g_active_db s)"
    by (rule filter_cong) auto
  with each_clean_down [OF wf, of "rev (g_active_db s)"] d loop show ?thesis by auto
qed

lemma compensate_walk_svc:
  "distinct is \<Longrightarrow> svc (compensate_walk skew is s) i =
     (if i \<in> set is then shift_times skew (svc s i) else svc s i)"
  by (induction "is" arbitrary: s) auto

lemma compensate_walk_globals [simp]:
  "g_active_db (compensate_walk skew is s) = g_active_db s"
  "g_interrupt (compensate_walk skew is s) = g_interrupt s"
  "g_next_sid (compensate_walk skew is s) = g_next_sid s"
  by (induction "is" arbitrary: s) auto

lemma c_div_pos: "0 \<le> a \<Longrightarrow> 0 < b \<Longrightarrow> c_div a b = a div b"
  by (cases "a = 0") (simp_all add: c_div_def)

lemma is_count_nonneg [simp]: "0 \<le> is_count st s"
  by (simp add: is_count_def)

lemma percent_bounds:
  assumes "0 < n" and "0 < (m :: int)"
  shows "0 \<le> c_div (100 * n) (m + n)" "c_div (100 * n) (m + n) < 100"
proof -
  have e: "c_div (100 * n) (m + n) = (100 * n) div (m + n)"
    using assms by (simp add: c_div_pos)
  show "0 \<le> c_div (100 * n) (m + n)" using assms by (simp add: e pos_imp_zdiv_nonneg_iff)
  have "(100 * n) div (m + n) \<le> (100 * (m + n) - 1) div (m + n)"
    using assms by (intro zdiv_mono1) auto
  also have "\<dots> < 100"
  proof -
    have "(100 * (m + n) - 1) div (m + n) = 99"
      using assms by (intro int_div_pos_eq [where r = "m + n - 1"]) auto
    then show ?thesis by simp
  qed
  finally show "c_div (100 * n) (m + n) < 100" by (simp add: e)
qed

section \<open>Steps of the database\<close>

text \<open>The operations by which the program changes the database, as steps of the system.\<close>

inductive db_step :: "sys \<Rightarrow> sys \<Rightarrow> bool" where
  step_new: "db_step s (snd (initng_active_db_new n s))"
| step_register: "a_allocated (svc s i) \<Longrightarrow> db_step s (snd (initng_active_db_register i s))"
| step_mark: "a_allocated (svc s i) \<Longrightarrow> db_step s (snd (initng_common_mark_service i st s))"
| step_lock: "a_allocated (svc s i) \<Longrightarrow> db_step s (initng_common_state_lock i s)"
| step_unlock: "a_allocated (svc s i) \<Longrightarrow> db_step s (snd (initng_common_state_unlock i s))"
| step_data: "a_allocated (svc s i) \<Longrightarrow> addr_fresh a (a_data (svc s i)) \<Longrightarrow>
    db_step s (upd_data i (data_exec a req) s)"
| step_process: "a_allocated (svc s i) \<Longrightarrow> p_addr p \<notin> p_addr ` set (a_processes (svc s i)) \<Longrightarrow>
    db_step s (add_process p i s)"
| step_process_free: "a_allocated (svc s i) \<Longrightarrow> db_step s (initng_process_db_free i pa s)"
| step_free: "a_allocated (svc s i) \<Longrightarrow> db_step s (initng_active_db_free i s)"
| step_unregister: "db_step s (initng_active_db_unregister i s)"
| step_clean: "initng_active_db_clean_down s = Some t \<Longrightarrow> db_step s t"
| step_compensate: "db_step s (initng_active_db_compensate_time skew s)"

inductive_cases db_stepE: "db_step s t"

lemma db_wf_upd:
  assumes "db_wf s" and "\<And>a. a_name (f a) = a_name a \<and> a_allocated (f a) = a_allocated a"
    and "a_allocated (svc s i) \<Longrightarrow> svc_wf (svc s i) \<Longrightarrow> svc_wf (f (svc s i))"
  shows "db_wf (upd_svc i f s)"
proof -
  have n: "(\<lambda>j. a_name (svc (upd_svc i f s) j)) = (\<lambda>j. a_name (svc s j))"
    and al: "a_allocated (svc (upd_svc i f s) j) = a_allocated (svc s j)" for j
    using assms(2) by auto
  from assms show ?thesis unfolding db_wf_def n al by auto
qed

lemma db_wf_unlock:
  assumes "db_wf s" and "a_allocated (svc s i)"
  shows "db_wf (snd (initng_common_state_unlock i s))"
proof -
  let ?t = "snd (initng_common_state_unlock i s)"
  have "set (g_interrupt ?t) \<subseteq> insert i (set (g_interrupt s))"
    "a_processes (svc ?t j) = a_processes (svc s j)" "g_next_sid ?t = g_next_sid s" for j
    by (auto simp: initng_common_state_unlock_def Let_def split: option.splits)
  moreover have "a_name (svc ?t j) = a_name (svc s j)" "a_name_hash (svc ?t j) = a_name_hash (svc s j)"
    "a_allocated (svc ?t j) = a_allocated (svc s j)" for j
    using unlock_frame [of s i] by (simp_all add: same_frame_def)
  ultimately show ?thesis
    using assms interrupt_distinct(1) [of s i] unfolding db_wf_def by (auto simp: svc_wf_def)
qed

lemma db_wf_step: "db_step s t \<Longrightarrow> db_wf s \<Longrightarrow> db_wf t"
proof (induction rule: db_step.induct)
  case (step_new s n)
  then show ?case by (rule db_wf_new)
next
  case (step_register s i)
  then show ?case by (simp add: db_wf_register)
next
  case (step_mark s i st)
  then show ?case by (simp add: db_wf_mark)
next
  case (step_lock s i)
  then show ?case unfolding initng_common_state_lock_def by (auto intro!: db_wf_upd simp: svc_wf_def)
next
  case (step_unlock s i)
  then show ?case by (simp add: db_wf_unlock)
next
  case (step_data s i a req)
  have "data_wf (data_exec a req (a_data (svc s i)))" if "data_wf (a_data (svc s i))"
    using that step_data by (cases req) (simp_all add: wf_set_int wf_set_string wf_set_var wf_set_another
        visible_remove_var wf_remove_all)
  with step_data show ?case unfolding upd_data_def by (auto intro!: db_wf_upd simp: svc_wf_def)
next
  case (step_process s i p)
  then show ?case unfolding add_process_def
    by (auto intro!: db_wf_upd simp: svc_wf_def list_add_def)
next
  case (step_process_free s i pa)
  have "p_addr \<circ> (\<lambda>p :: process_h. if p_addr p = pa then p\<lparr>p_pst := P_FREE\<rparr> else p) = p_addr" by auto
  then show ?case unfolding initng_process_db_free_def upd_process_def
    by (intro db_wf_upd) (use step_process_free in \<open>auto simp: svc_wf_def\<close>)
next
  case (step_free s i)
  then show ?case by (simp add: db_wf_free)
next
  case (step_unregister s i)
  then show ?case
    by (auto simp: initng_active_db_unregister_def db_wf_def list_del_def distinct_map
        dest: notin_set_remove1 inj_on_subset intro: inj_on_subset [OF _ set_remove1_subset])
next
  case (step_clean s t)
  then show ?case using clean_down_result by fastforce
next
  case (step_compensate s skew)
  let ?t = "initng_active_db_compensate_time skew s"
  have "svc ?t j = (if j \<in> set (g_active_db s) then shift_times skew (svc s j) else svc s j)" for j
    using step_compensate by (simp add: initng_active_db_compensate_time_def db_wf_def compensate_walk_svc)
  then show ?case
    by (intro db_wf_same [OF step_compensate])
      (simp_all add: initng_active_db_compensate_time_def shift_times_def svc_wf_def)
qed

lemma global_new_simps [simp]:
  "g_active_db (initng_config_global_new argv clock) = []"
  "g_interrupt (initng_config_global_new argv clock) = []"
  "svc (initng_config_global_new argv clock) = (\<lambda>_. calloc_service)"
  "g_next_sid (initng_config_global_new argv clock) = 0"
proof -
  have ev: "g_active_db (fold initng_event_type_register ts s) = g_active_db s"
      "g_interrupt (fold initng_event_type_register ts s) = g_interrupt s"
      "svc (fold initng_event_type_register ts s) = svc s"
      "g_next_sid (fold initng_event_type_register ts s) = g_next_sid s" for ts s
    by (induction ts arbitrary: s) (simp_all add: initng_event_type_register_def Let_def)
  have st: "g_active_db (snd (initng_active_state_register st s)) = g_active_db s"
      "g_interrupt (snd (initng_active_state_register st s)) = g_interrupt s"
      "svc (snd (initng_active_state_register st s)) = svc s"
      "g_next_sid (snd (initng_active_state_register st s)) = g_next_sid s" for st s
    by (simp_all add: initng_active_state_register_def)
  show "g_active_db (initng_config_global_new argv clock) = []"
    "g_interrupt (initng_config_global_new argv clock) = []"
    "svc (initng_config_global_new argv clock) = (\<lambda>_. calloc_service)"
    "g_next_sid (initng_config_global_new argv clock) = 0"
    by (simp_all add: initng_config_global_new_def initng_register_static_event_types_def ev
        initng_static_stypes_register_defaults_def initng_service_type_register_def
        initng_static_states_register_defaults_def st initng_static_data_id_register_defaults_def
        initng_service_data_type_register_def global_zero_def)
qed

lemma db_wf_init: "db_wf (initng_config_global_new argv clock)"
  by (simp add: db_wf_def calloc_service_def)

section \<open>Properties\<close>

text \<open>C7: in every state the program reaches from its start by operations on the service
  database, no two registered services have the same name, every service in the database or
  waiting for its interrupt is allocated, no service is in a list twice, every name hash is
  the hash of the name, and the variables of every service are well formed.\<close>

theorem db_reachable_wf:
  assumes "db_step\<^sup>*\<^sup>* (initng_config_global_new argv clock) s"
  shows "db_wf s"
  using assms by (induction rule: rtranclp_induct) (auto simp: db_wf_init dest: db_wf_step)

theorem db_reachable_wf_witness:
  "db_wf (snd (initng_active_db_register 0 (snd (initng_active_db_new ''net/lo''
     (initng_config_global_new [] \<lparr>tv_sec = 5, tv_usec = 0\<rparr>)))))"
proof (rule db_reachable_wf [of "[]" "\<lparr>tv_sec = 5, tv_usec = 0\<rparr>"])
  let ?s = "initng_config_global_new [] \<lparr>tv_sec = 5, tv_usec = 0\<rparr>"
  have "a_allocated (svc (snd (initng_active_db_new ''net/lo'' ?s)) 0)"
    using new_simps(7) [of "''net/lo''" ?s] by simp
  then show "db_step\<^sup>*\<^sup>* ?s (snd (initng_active_db_register 0 (snd (initng_active_db_new ''net/lo'' ?s))))"
    by (meson db_step.step_new db_step.step_register r_into_rtranclp rtranclp.rtrancl_into_rtrancl)
qed





text \<open>C26: a clock correction moves the times of every service by the correction, but also the
  alarm of a service that has none: the value 0, which means no alarm, becomes the correction
  itself.\<close>

theorem compensate_time_sets_alarm:
  assumes "db_wf s" and "i \<in> set (g_active_db s)"
  shows "let a = svc s i; b = svc (initng_active_db_compensate_time skew s) i in
    tv_sec (a_time_current_state b) = tv_sec (a_time_current_state a) + skew
    \<and> tv_sec (a_time_last_state b) = tv_sec (a_time_last_state a) + skew
    \<and> (a_alarm a = 0 \<longrightarrow> a_alarm b = skew)"
proof -
  have "svc (initng_active_db_compensate_time skew s) i = shift_times skew (svc s i)"
    using assms by (simp add: initng_active_db_compensate_time_def db_wf_def compensate_walk_svc)
  then show ?thesis by (simp add: shift_times_def Let_def)
qed

theorem compensate_time_sets_alarm_witness:
  "let s = (global_zero [] \<lparr>tv_sec = 5, tv_usec = 0\<rparr>)\<lparr>g_active_db := [0], g_next_sid := 1,
      svc := (\<lambda>_. calloc_service)(0 := calloc_service\<lparr>a_allocated := True, a_name_hash := FNV_INIT\<rparr>)\<rparr>
   in a_alarm (svc (initng_active_db_compensate_time 3600 s) 0) = 3600"
proof -
  let ?s = "(global_zero [] \<lparr>tv_sec = 5, tv_usec = 0\<rparr>)\<lparr>g_active_db := [0], g_next_sid := 1,
      svc := (\<lambda>_. calloc_service)(0 := calloc_service\<lparr>a_allocated := True, a_name_hash := FNV_INIT\<rparr>)\<rparr>"
  have "db_wf ?s" by (simp add: db_wf_def svc_wf_def init_defs initng_hash_str_def)
  from compensate_time_sets_alarm [OF this, of 0 3600] show ?thesis
    by (simp add: Let_def init_defs)
qed

text \<open>The percentages of started and of stopped services are between 0 and 100, and they are
  100 exactly when no service is starting, or stopping.\<close>

theorem percent_in_range:
  "0 \<le> initng_active_db_percent_started s \<and> initng_active_db_percent_started s \<le> 100
   \<and> (initng_active_db_percent_started s = 100 \<longleftrightarrow> (\<forall>i \<in> set (g_active_db s). GET_STATE s i \<noteq> IS_STARTING))
   \<and> 0 \<le> initng_active_db_percent_stopped s \<and> initng_active_db_percent_stopped s \<le> 100
   \<and> (initng_active_db_percent_stopped s = 100 \<longleftrightarrow> (\<forall>i \<in> set (g_active_db s). GET_STATE s i \<noteq> IS_STOPPING))"
proof -
  have z: "is_count st s \<le> 0 \<longleftrightarrow> (\<forall>i \<in> set (g_active_db s). GET_STATE s i \<noteq> st)" for st
    by (auto simp: is_count_def filter_empty_conv)
  have st: "initng_active_db_percent_started s = 100 \<longleftrightarrow> is_count IS_STARTING s \<le> 0"
    "0 \<le> initng_active_db_percent_started s" "initng_active_db_percent_started s \<le> 100"
    using percent_bounds [of "is_count IS_UP s" "is_count IS_STARTING s"]
    by (auto simp: initng_active_db_percent_started_def Let_def)
  have sp: "initng_active_db_percent_stopped s = 100 \<longleftrightarrow> is_count IS_STOPPING s \<le> 0"
    "0 \<le> initng_active_db_percent_stopped s" "initng_active_db_percent_stopped s \<le> 100"
    using percent_bounds [of "is_count IS_DOWN s" "is_count IS_STOPPING s"]
    by (auto simp: initng_active_db_percent_stopped_def Let_def)
  from st sp z show ?thesis by simp
qed

theorem percent_in_range_witness:
  "initng_active_db_percent_started (global_zero [] \<lparr>tv_sec = 5, tv_usec = 0\<rparr>) = 100"
  using percent_in_range [of "global_zero [] \<lparr>tv_sec = 5, tv_usec = 0\<rparr>"] by (simp add: global_zero_def)

end
