(* ===== verification/Depend.thy ===== *)
theory Depend
  imports Active_DB
begin

text \<open>
  The dependencies between services: src/main/depend. Every check may ask the hooks of
  EVENT_DEP_ON, so it hands the program state on. The functions that start or restart other
  services take the handler they call as an argument; the theory Handler ties the knot.
\<close>

section \<open>Who depends on whom\<close>

definition is_dep_type :: "s_data \<Rightarrow> bool" where
  "is_dep_type c = (d_type c = Some REQUIRE \<or> d_type c = Some NEED \<or> d_type c = Some USE)"

definition dep_on :: "sid \<Rightarrow> sid \<Rightarrow> sys \<Rightarrow> bool" where
  "dep_on service check s =
     (let d = a_data (svc s service) in
      case get_next_loop None None d (Suc (length (visible d))) None of
        None \<Rightarrow> False
      | Some cs \<Rightarrow> list_ex (\<lambda>c. is_dep_type c \<and> val_s (d_t c) = Some (a_name (svc s check))) cs)"

definition initng_depend :: "env \<Rightarrow> sid \<Rightarrow> sid \<Rightarrow> sys \<Rightarrow> (bool \<times> sys) option" where
  "initng_depend E service check s =
     (if service = check then Some (False, s)
      else if dep_on service check s then Some (True, s)
      else do {
        (ev, s) \<leftarrow> initng_event_send E (event EVENT_DEP_ON (ED_dep_on service check)) s;
        Some (ev_status ev = HANDLED, s) })"

text \<open>
  The deep check. The counter \<open>stack\<close> is shared by all calls of one check; the test in front of
  the recursion that compares a NULL pointer with the service never holds and is left out.
\<close>

fun initng_depend_deep2 :: "env \<Rightarrow> nat \<Rightarrow> sid \<Rightarrow> sid \<Rightarrow> int \<Rightarrow> sys \<Rightarrow> (bool \<times> int \<times> sys) option" where
  "initng_depend_deep2 E 0 service check stack s = None"
| "initng_depend_deep2 E (Suc k) service check stack s = do {
     (b, s) \<leftarrow> initng_depend E service check s;
     (if b then Some (True, stack, s)
      else if 10 < stack + 1 then Some (False, stack + 1, s)
      else do {
        (r, (stack, s)) \<leftarrow> while_list (\<lambda>x. g_active_db (snd x))
          (\<lambda>current (stack, s). do {
             (b, s) \<leftarrow> initng_depend E service current s;
             (if b then do {
                (res, stack, s) \<leftarrow> initng_depend_deep2 E k current check stack s;
                Some (if res then Some () else None, (stack, s)) }
              else Some (None, (stack, s))) })
          (e_fuel E) (stack + 1, s);
        Some (r \<noteq> None, stack, s) }) }"

definition initng_depend_deep :: "env \<Rightarrow> sid \<Rightarrow> sid \<Rightarrow> sys \<Rightarrow> (bool \<times> sys) option" where
  "initng_depend_deep E service check s = do {
     (b, stack, s) \<leftarrow> initng_depend_deep2 E 12 service check 0 s;
     Some (b, s) }"

definition initng_depend_any_depends_on :: "env \<Rightarrow> sid \<Rightarrow> sys \<Rightarrow> (int \<times> sys) option" where
  "initng_depend_any_depends_on E service s = do {
     (r, s) \<leftarrow> while_list g_active_db
       (\<lambda>current s.
          if current = service then Some (None, s)
          else if GET_STATE s current \<in> {IS_UP, IS_STARTING, IS_STOPPING} then do {
            (b, s) \<leftarrow> initng_depend_deep E current service s;
            Some (if b then Some () else None, s) }
          else Some (None, s))
       (e_fuel E) s;
     Some (of_cond (r \<noteq> None), s) }"

section \<open>Are the dependencies met\<close>

definition initng_depend_up_check :: "env \<Rightarrow> sid \<Rightarrow> sys \<Rightarrow> (int \<times> sys) option" where
  "initng_depend_up_check E service s = do {
     (ev, s) \<leftarrow> initng_event_send E (event EVENT_UP_MET (ED_service service)) s;
     Some (of_cond (ev_status ev \<noteq> FAILED), s) }"

definition set_depend_cache :: "sid \<Rightarrow> int \<Rightarrow> sys \<Rightarrow> sys" where
  "set_depend_cache i v = upd_svc i (\<lambda>a. a\<lparr>a_depend_cache := v\<rparr>)"

text \<open>
  One round of \<open>initng_depend_start_dep_met\<close>: the loop state is the counter and the program
  state; the round yields the value that the function returns.
\<close>

definition start_dep_body :: "(sid \<Rightarrow> sys \<Rightarrow> (int \<times> sys) option) \<Rightarrow> sid \<Rightarrow> s_data \<Rightarrow> int \<times> sys \<Rightarrow>
    (int option \<times> (int \<times> sys)) option" where
  "start_dep_body start service current cs =
     (let (count, s) = cs in
      if \<not> is_dep_type current then Some (None, (count, s))
      else case val_s (d_t current) of
        None \<Rightarrow> Some (None, (count, s))
      | Some n \<Rightarrow>
          (let count = count + 1 in
           if count \<le> a_depend_cache (svc s service) then Some (None, (count, s))
           else case initng_active_db_find_by_name n s of
             None \<Rightarrow>
               (if d_type current = Some USE then Some (None, (count, s))
                else if d_type current = Some REQUIRE
                  then Some (Some FAIL, (count, snd (initng_common_mark_service service REQ_NOT_FOUND s)))
                else Some (Some FALSE, (count, s)))
           | Some dep \<Rightarrow>
               (case GET_STATE s dep of
                  IS_STARTING \<Rightarrow> Some (Some FALSE, (count, s))
                | IS_FAILED \<Rightarrow> Some (Some FAIL, (count, s))
                | IS_NEW \<Rightarrow> Some (Some FALSE, (count, s))
                | IS_DOWN \<Rightarrow> do { (r, s) \<leftarrow> start dep s; Some (Some FALSE, (count, s)) }
                | IS_UP \<Rightarrow> Some (None, (count, set_depend_cache service count s))
                | _ \<Rightarrow> Some (Some FALSE, (count, s)))))"

definition initng_depend_start_dep_met :: "env \<Rightarrow> (sid \<Rightarrow> sys \<Rightarrow> (int \<times> sys) option) \<Rightarrow> sid \<Rightarrow> sys \<Rightarrow>
    (int \<times> sys) option" where
  "initng_depend_start_dep_met E start service s = do {
     (r, (count, s)) \<leftarrow> while_get_next None (\<lambda>x. a_data (svc (snd x) service)) (start_dep_body start service)
        (e_fuel E) None (0, s);
     (case r of
        Some v \<Rightarrow> Some (v, s)
      | None \<Rightarrow> do {
          (ev, s) \<leftarrow> initng_event_send E (event EVENT_START_DEP_MET (ED_service service)) s;
          (if ev_status ev = FAILED then Some (FALSE, s)
           else Some (TRUE, set_depend_cache service 0 s)) }) }"

definition stop_dep_body :: "env \<Rightarrow> sid \<Rightarrow> sid \<Rightarrow> int \<times> sys \<Rightarrow> (int option \<times> (int \<times> sys)) option" where
  "stop_dep_body E service currentA cs =
     (let (count, s) = cs; count = count + 1 in
      if count \<le> a_depend_cache (svc s service) then Some (None, (count, s))
      else
        (let s = set_depend_cache service (a_depend_cache (svc s service) + 1) s in
         if currentA = service then Some (None, (count, s))
         else do {
           (b, s) \<leftarrow> initng_depend E currentA service s;
           (if \<not> b then Some (None, (count, s))
            else if GET_STATE s currentA = IS_DOWN then Some (None, (count, s))
            else if GET_STATE s currentA = IS_FAILED then Some (None, (count, s))
            else if GET_STATE s currentA = IS_STARTING
                \<and> sublist ''WAITING_FOR_START_DEP'' (st_name (a_current_state (svc s currentA)))
              then Some (None, (count, s))
            else Some (Some FALSE, (count, set_depend_cache service (a_depend_cache (svc s service) - 1) s))) }))"

definition initng_depend_stop_dep_met :: "env \<Rightarrow> sid \<Rightarrow> sys \<Rightarrow> (int \<times> sys) option" where
  "initng_depend_stop_dep_met E service s = do {
     (r, (count, s)) \<leftarrow> while_list (\<lambda>x. g_active_db (snd x)) (stop_dep_body E service) (e_fuel E) (0, s);
     (case r of
        Some v \<Rightarrow> Some (v, s)
      | None \<Rightarrow> do {
          (ev, s) \<leftarrow> initng_event_send E (event EVENT_STOP_DEP_MET (ED_service service)) s;
          (if ev_status ev = FAILED then Some (FALSE, s)
           else Some (TRUE, set_depend_cache service 0 s)) }) }"

section \<open>Starting, stopping and restarting dependencies\<close>

definition start_deps_body :: "(sid \<Rightarrow> sys \<Rightarrow> (int \<times> sys) option) \<Rightarrow>
    (string \<Rightarrow> sys \<Rightarrow> (sid option \<times> sys) option) \<Rightarrow> sid \<Rightarrow> s_data \<Rightarrow> sys \<Rightarrow> (int option \<times> sys) option" where
  "start_deps_body start start_new service current s =
     (if d_type current \<noteq> Some REQUIRE \<and> d_type current \<noteq> Some NEED then Some (None, s)
      else case val_s (d_t current) of
        None \<Rightarrow> Some (None, s)
      | Some n \<Rightarrow>
          (case initng_active_db_find_by_name n s of
             Some dep \<Rightarrow>
               if GET_STATE s dep = IS_DOWN then do { (r, s) \<leftarrow> start dep s; Some (None, s) }
               else Some (None, s)
           | None \<Rightarrow> do {
               (r, s) \<leftarrow> start_new n s;
               (if r \<noteq> None then Some (None, s)
                else if d_type current = Some NEED then Some (None, s)
                else Some (Some FALSE, snd (initng_common_mark_service service REQ_NOT_FOUND s))) }))"

definition initng_depend_start_deps :: "env \<Rightarrow> (sid \<Rightarrow> sys \<Rightarrow> (int \<times> sys) option) \<Rightarrow>
    (string \<Rightarrow> sys \<Rightarrow> (sid option \<times> sys) option) \<Rightarrow> sid \<Rightarrow> sys \<Rightarrow> (int \<times> sys) option" where
  "initng_depend_start_deps E start start_new service s = do {
     (r, s) \<leftarrow> while_get_next None (\<lambda>s. a_data (svc s service)) (start_deps_body start start_new service)
        (e_fuel E) None s;
     Some (case r of Some v \<Rightarrow> v | None \<Rightarrow> TRUE, s) }"

text \<open>The walk that stops, or restarts, every service that depends on the given one.\<close>

definition dependents_body :: "env \<Rightarrow> (sid \<Rightarrow> sys \<Rightarrow> (int \<times> sys) option) \<Rightarrow> sid \<Rightarrow> sid \<Rightarrow> sys \<Rightarrow>
    (unit option \<times> sys) option" where
  "dependents_body E act service current s =
     (if current = service then Some (None, s)
      else do {
        (b, s) \<leftarrow> initng_depend_deep E current service s;
        (if b then do { (r, s) \<leftarrow> act current s; Some (None, s) } else Some (None, s)) })"

definition initng_depend_stop_deps :: "env \<Rightarrow> (sid \<Rightarrow> sys \<Rightarrow> (int \<times> sys) option) \<Rightarrow> sid \<Rightarrow> sys \<Rightarrow>
    (int \<times> sys) option" where
  "initng_depend_stop_deps E stop service s = do {
     (r, s) \<leftarrow> while_list_safe g_active_db (dependents_body E stop service) (e_fuel E) s;
     Some (TRUE, s) }"

definition initng_depend_restart_deps :: "env \<Rightarrow> (sid \<Rightarrow> sys \<Rightarrow> (int \<times> sys) option) \<Rightarrow> sid \<Rightarrow> sys \<Rightarrow>
    (int \<times> sys) option" where
  "initng_depend_restart_deps E restart service s = do {
     (r, s) \<leftarrow> while_list_safe g_active_db (dependents_body E restart service) (e_fuel E) s;
     Some (TRUE, s) }"

section \<open>The dependency relation\<close>

text \<open>Direct dependency when no module answers EVENT_DEP_ON.\<close>

definition deps :: "sys \<Rightarrow> sid \<Rightarrow> sid \<Rightarrow> bool" where
  "deps s a b = (a \<noteq> b \<and> dep_on a b s)"

inductive depends_via :: "(sid \<Rightarrow> sid \<Rightarrow> bool) \<Rightarrow> sid set \<Rightarrow> sid \<Rightarrow> sid \<Rightarrow> bool"
  for D :: "sid \<Rightarrow> sid \<Rightarrow> bool" and db :: "sid set" where
  direct: "D a c \<Longrightarrow> depends_via D db a c"
| via: "x \<in> db \<Longrightarrow> D a x \<Longrightarrow> depends_via D db x c \<Longrightarrow> depends_via D db a c"

text \<open>The deep check on a dependency relation, with the shared counter.\<close>

function deep_calls :: "(sid \<Rightarrow> sid \<Rightarrow> bool) \<Rightarrow> sid list \<Rightarrow> nat \<Rightarrow> sid \<Rightarrow> sid \<Rightarrow> int \<Rightarrow> (bool \<times> int) option"
  and deep_list :: "(sid \<Rightarrow> sid \<Rightarrow> bool) \<Rightarrow> sid list \<Rightarrow> nat \<Rightarrow> sid \<Rightarrow> sid list \<Rightarrow> sid \<Rightarrow> int \<Rightarrow> (bool \<times> int) option" where
  "deep_calls D db 0 a c st = None"
| "deep_calls D db (Suc k) a c st =
     (if D a c then Some (True, st)
      else if 10 < st + 1 then Some (False, st + 1)
      else deep_list D db k a db c (st + 1))"
| "deep_list D db k a [] c st = Some (False, st)"
| "deep_list D db k a (x # xs) c st =
     (if D a x then (case deep_calls D db k x c st of
          None \<Rightarrow> None
        | Some (b, st') \<Rightarrow> if b then Some (True, st') else deep_list D db k a xs c st')
      else deep_list D db k a xs c st)"
  by pat_completeness auto
termination
  by (relation "measures [\<lambda>p. case p of Inl (D, db, k, a, c, st) \<Rightarrow> k | Inr (D, db, k, a, xs, c, st) \<Rightarrow> k,
      \<lambda>p. case p of Inl (D, db, k, a, c, st) \<Rightarrow> 0 | Inr (D, db, k, a, xs, c, st) \<Rightarrow> Suc (length xs)]") auto

section \<open>Lemmas on the checks\<close>

lemma dep_on_visible:
  "data_wf (a_data (svc s a)) \<Longrightarrow> dep_on a b s =
    (\<exists>c \<in> set (visible (a_data (svc s a))). is_dep_type c \<and> val_s (d_t c) = Some (a_name (svc s b)))"
  using get_next_loop_rest [where d = "a_data (svc s a)" and pre = "[]" and suf = "visible (a_data (svc s a))"
      and lst = None and k = "Suc (length (visible (a_data (svc s a))))" and ty = None and vn = None]
  by (simp add: dep_on_def Let_def data_wf_def entry_match_def list_ex_iff)

lemma depend_no_hooks [simp]:
  "g_hooks s EVENT_DEP_ON = [] \<Longrightarrow> 0 < e_fuel E \<Longrightarrow> initng_depend E a b s = Some (deps s a b, s)"
  by (simp add: initng_depend_def deps_def)

text \<open>Enough fuel: the counter ends the recursion.\<close>

lemma deep_total:
  "0 \<le> st \<Longrightarrow> 1 \<le> k \<Longrightarrow> 11 \<le> int k + st \<Longrightarrow> \<exists>b st'. deep_calls D db k a c st = Some (b, st') \<and> st \<le> st'"
  "0 \<le> st \<Longrightarrow> 11 \<le> int k + st \<Longrightarrow> 1 \<le> k \<Longrightarrow> \<exists>b st'. deep_list D db k a xs c st = Some (b, st') \<and> st \<le> st'"
proof (induction D db k a c st and D db k a xs c st rule: deep_calls_deep_list.induct)
  case (2 D db k a c st)
  then show ?case by (cases "10 < st + 1") force+
next
  case (4 D db k a x xs c st)
  show ?case
  proof (cases "D a x")
    case True
    from 4(1) [OF True] 4(4-6) obtain b st' where c: "deep_calls D db k x c st = Some (b, st')" "st \<le> st'"
      by auto
    show ?thesis
    proof (cases b)
      case True
      with c \<open>D a x\<close> show ?thesis by (auto intro: exI [of _ True])
    next
      case False
      from 4(2) [OF \<open>D a x\<close> c(1) refl False] c 4(4-6) False \<open>D a x\<close> show ?thesis by force
    qed
  next
    case False
    with 4 show ?thesis by simp
  qed
qed (auto intro: exI [of _ False])

lemma deep_sound:
  "deep_calls D db k a c st = Some (True, st') \<Longrightarrow> depends_via D (set db) a c"
  "set xs \<subseteq> set db \<Longrightarrow> deep_list D db k a xs c st = Some (True, st') \<Longrightarrow>
     \<exists>x \<in> set xs. D a x \<and> depends_via D (set db) x c"
proof (induction D db k a c st and D db k a xs c st arbitrary: st' and st' rule: deep_calls_deep_list.induct)
  case (2 D db k a c st)
  then show ?case
    by (cases "D a c"; cases "10 < st + 1") (auto intro: depends_via.intros)
next
  case (4 D db k a x xs c st)
  then show ?case by (auto split: if_splits option.splits prod.splits)
qed simp_all

lemma deep_mono:
  "deep_calls D db k a c st = Some (b, st') \<Longrightarrow> st \<le> st'"
  "deep_list D db k a xs c st = Some (b, st') \<Longrightarrow> st \<le> st'"
proof (induction D db k a c st and D db k a xs c st arbitrary: b st' and b st' rule: deep_calls_deep_list.induct)
  case (2 D db k a c st)
  then show ?case by (fastforce split: if_splits)
next
  case (4 D db k a x xs c st)
  then show ?case by (fastforce split: if_splits option.splits prod.splits)
qed simp_all

lemma deep_list_False:
  "deep_list D db k a xs c st = Some (False, st') \<Longrightarrow> x \<in> set xs \<Longrightarrow> D a x \<Longrightarrow>
    \<exists>st1 st2. deep_calls D db k x c st1 = Some (False, st2) \<and> st2 \<le> st'"
proof (induction xs arbitrary: st)
  case (Cons y ys)
  show ?case
  proof (cases "D a y")
    case True
    with Cons.prems obtain st1 where c: "deep_calls D db k y c st = Some (False, st1)"
        "deep_list D db k a ys c st1 = Some (False, st')"
      by (auto split: option.splits prod.splits if_splits)
    with Cons deep_mono(2) [OF c(2)] show ?thesis by auto
  next
    case False
    with Cons show ?thesis by auto
  qed
qed simp

lemma deep_complete:
  "depends_via D (set db) a c \<Longrightarrow> deep_calls D db k a c st = Some (False, st') \<Longrightarrow> 10 < st'"
proof (induction arbitrary: k st st' rule: depends_via.induct)
  case (direct a c)
  then show ?case by (cases k) auto
next
  case (via x a c)
  then obtain j where k: "k = Suc j" by (cases k) auto
  show ?case
  proof (cases "10 < st + 1")
    case True
    with via k show ?thesis by (auto split: if_splits)
  next
    case False
    with via.prems k have "deep_list D db j a db c (st + 1) = Some (False, st')"
      by (auto split: if_splits)
    from deep_list_False [OF this via(1,2)] via.IH show ?thesis by force
  qed
qed

text \<open>The deep check of the program is the check on the direct dependencies.\<close>

lemma depend_deep2_calls:
  assumes h: "g_hooks s EVENT_DEP_ON = []" and f: "length (g_active_db s) < e_fuel E"
    and d: "distinct (g_active_db s)"
  shows "initng_depend_deep2 E k a c st s =
    map_option (\<lambda>(b, st). (b, st, s)) (deep_calls (deps s) (rev (g_active_db s)) k a c st)"
proof (induction k arbitrary: a st)
  case (Suc k)
  have f0: "0 < e_fuel E" using f by simp
  define body where "body a = (\<lambda>current (stack, t). do {
       (b, t) \<leftarrow> initng_depend E a current t;
       (if b then do {
          (res, stack, t) \<leftarrow> initng_depend_deep2 E k current c stack t;
          Some (if res then Some () else None, (stack, t)) }
        else Some (None, (stack, t))) })" for a
  have step: "body a x (st, s) = (if deps s a x then
        map_option (\<lambda>(b, st). (if b then Some () else None, (st, s)))
          (deep_calls (deps s) (rev (g_active_db s)) k x c st)
      else Some (None, (st, s)))" for x st
    using h f0 Suc.IH by (cases "deep_calls (deps s) (rev (g_active_db s)) k x c st") (auto simp: body_def)
  have run: "each (body a) is (st, s) = map_option (\<lambda>(b, st). (if b then Some () else None, (st, s)))
      (deep_list (deps s) (rev (g_active_db s)) k a is c st)" for "is" st
  proof (induction "is" arbitrary: st)
    case (Cons i "is")
    then show ?case using step [of i st]
      by (cases "deps s a i"; cases "deep_calls (deps s) (rev (g_active_db s)) k i c st")
        (auto split: prod.splits)
  qed simp
  have same: "snd y = s" if "snd x = s" "body a p x = Some (r, y)" for x y p r
  proof -
    from that obtain st0 where "body a p (st0, s) = Some (r, y)" by (cases x) auto
    with step [of p st0] show ?thesis
      by (cases "deps s a p"; cases "deep_calls (deps s) (rev (g_active_db s)) k p c st0")
        (auto split: prod.splits)
  qed
  have inv: "g_active_db (snd y) = g_active_db (snd x) \<and> snd y = s"
    if "snd x = s" "body a p x = Some (None, y)" for p x y
    using same [OF that] that(1) by simp
  have "while_list (\<lambda>x. g_active_db (snd x)) (body a) (e_fuel E) (st + 1, s) =
      each (body a) (rev (g_active_db (snd (st + 1, s)))) (st + 1, s)"
  proof (rule while_list_each_inv [where P = "\<lambda>x. snd x = s"])
    show "g_active_db (snd y) = g_active_db (snd x) \<and> snd y = s"
      if "snd x = s" "body a p x = Some (None, y)" for p x y
      using that by (rule inv)
  qed (simp_all add: f d)
  then have "while_list (\<lambda>x. g_active_db (snd x)) (body a) (e_fuel E) (st + 1, s) =
      map_option (\<lambda>(b, st). (if b then Some () else None, (st, s)))
        (deep_list (deps s) (rev (g_active_db s)) k a (rev (g_active_db s)) c (st + 1))"
    using run by simp
  then show ?case
    using h f0 unfolding body_def
    by (cases "deep_list (deps s) (rev (g_active_db s)) k a (rev (g_active_db s)) c (st + 1)")
      (auto split: if_splits)
qed simp

lemma depend_deep_calls:
  assumes "g_hooks s EVENT_DEP_ON = []" and "length (g_active_db s) < e_fuel E" and "db_wf s"
  shows "\<exists>b st. initng_depend_deep E a c s = Some (b, s)
    \<and> deep_calls (deps s) (rev (g_active_db s)) 12 a c 0 = Some (b, st)"
proof -
  from deep_total(1) [of 0 12 "deps s" "rev (g_active_db s)" a c] obtain b st where
    "deep_calls (deps s) (rev (g_active_db s)) 12 a c 0 = Some (b, st)" by auto
  with depend_deep2_calls [OF assms(1,2), of 12 a c 0] assms(3) show ?thesis
    by (auto simp: initng_depend_deep_def db_wf_def)
qed

text \<open>The loop of \<open>initng_depend_stop_dep_met\<close> over the services, one round per service.\<close>

definition stop_ok :: "sys \<Rightarrow> sid \<Rightarrow> sid \<Rightarrow> bool" where
  "stop_ok s service i = (i = service \<or> \<not> deps s i service \<or> GET_STATE s i = IS_DOWN
     \<or> GET_STATE s i = IS_FAILED \<or> (GET_STATE s i = IS_STARTING
        \<and> sublist ''WAITING_FOR_START_DEP'' (st_name (a_current_state (svc s i)))))"

lemma cache_simps [simp]:
  "g_hooks (set_depend_cache i v s) = g_hooks s"
  "g_active_db (set_depend_cache i v s) = g_active_db s"
  "GET_STATE (set_depend_cache i v s) j = GET_STATE s j"
  "a_current_state (svc (set_depend_cache i v s) j) = a_current_state (svc s j)"
  "a_data (svc (set_depend_cache i v s) j) = a_data (svc s j)"
  "a_name (svc (set_depend_cache i v s) j) = a_name (svc s j)"
  "a_name_hash (svc (set_depend_cache i v s) j) = a_name_hash (svc s j)"
  "a_depend_cache (svc (set_depend_cache i v s) i) = v"
  "set_depend_cache i v (set_depend_cache i w s) = set_depend_cache i v s"
  by (simp_all add: set_depend_cache_def upd_svc_def GET_STATE_def)

lemma dep_on_cong:
  "a_data (svc t a) = a_data (svc s a) \<Longrightarrow> a_name (svc t b) = a_name (svc s b) \<Longrightarrow> dep_on a b t = dep_on a b s"
  by (simp only: dep_on_def)

lemma cache_deps [simp]:
  "deps (set_depend_cache i v s) = deps s"
  "stop_ok (set_depend_cache i v s) = stop_ok s"
proof -
  have "dep_on a b (set_depend_cache i v s) = dep_on a b s" for a b
    by (rule dep_on_cong) simp_all
  then show "deps (set_depend_cache i v s) = deps s"
    "stop_ok (set_depend_cache i v s) = stop_ok s"
    by (simp_all add: deps_def stop_ok_def fun_eq_iff)
qed

lemma set_depend_cache_same [simp]: "a_depend_cache (svc s i) = v \<Longrightarrow> set_depend_cache i v s = s"
  unfolding set_depend_cache_def by (rule upd_svc_idem) auto

lemma stop_dep_round:
  assumes "g_hooks s EVENT_DEP_ON = []" and "0 < e_fuel E" and "a_depend_cache (svc s service) = count"
  shows "stop_dep_body E service i (count, s) =
    (if stop_ok s service i then Some (None, (count + 1, set_depend_cache service (count + 1) s))
     else Some (Some FALSE, (count + 1, set_depend_cache service count s)))"
  using assms by (auto simp: stop_dep_body_def stop_ok_def Let_def)

lemma stop_dep_rounds:
  assumes "g_hooks s EVENT_DEP_ON = []" and "0 < e_fuel E" and "a_depend_cache (svc s service) = count"
  shows "each (stop_dep_body E service) is (count, s) =
    (if \<forall>i \<in> set is. stop_ok s service i
     then Some (None, (count + int (length is), set_depend_cache service (count + int (length is)) s))
     else (let j = int (length (takeWhile (stop_ok s service) is)) in
       Some (Some FALSE, (count + j + 1, set_depend_cache service (count + j) s))))"
  using assms
proof (induction "is" arbitrary: s count)
  case Nil
  then show ?case by simp
next
  case (Cons i "is")
  show ?case
  proof (cases "stop_ok s service i")
    case True
    with stop_dep_round [OF Cons.prems, of i]
      Cons.IH [of "set_depend_cache service (count + 1) s" "count + 1"] Cons.prems
    show ?thesis by (auto simp: Let_def algebra_simps)
  next
    case False
    with stop_dep_round [OF Cons.prems, of i] show ?thesis by (simp add: Let_def)
  qed
qed

lemma stop_dep_body_list: "stop_dep_body E service p cs = Some (None, cs') \<Longrightarrow>
    g_hooks (snd cs) EVENT_DEP_ON = [] \<Longrightarrow> 0 < e_fuel E \<Longrightarrow> g_active_db (snd cs') = g_active_db (snd cs)"
  by (cases cs) (auto simp: stop_dep_body_def Let_def split: if_splits)

lemma stop_dep_met_loop:
  assumes "g_hooks s EVENT_DEP_ON = []" and "length (g_active_db s) < e_fuel E" and "distinct (g_active_db s)"
    and "a_depend_cache (svc s service) = 0"
  shows "while_list (\<lambda>x. g_active_db (snd x)) (stop_dep_body E service) (e_fuel E) (0, s) =
    each (stop_dep_body E service) (rev (g_active_db s)) (0, s)"
proof -
  have "g_active_db (snd y) = g_active_db (snd x) \<and> g_hooks (snd y) EVENT_DEP_ON = []"
    if "g_hooks (snd x) EVENT_DEP_ON = []" "stop_dep_body E service p x = Some (None, y)" for p x y
    using that assms(2) by (cases x) (auto simp: stop_dep_body_def Let_def split: if_splits)
  note inv = this
  have "while_list (\<lambda>x. g_active_db (snd x)) (stop_dep_body E service) (e_fuel E) (0, s) =
      each (stop_dep_body E service) (rev (g_active_db (snd (0 :: int, s)))) (0, s)"
  proof (rule while_list_each_inv [where P = "\<lambda>x. g_hooks (snd x) EVENT_DEP_ON = []"])
    show "g_active_db (snd y) = g_active_db (snd x) \<and> g_hooks (snd y) EVENT_DEP_ON = []"
      if "g_hooks (snd x) EVENT_DEP_ON = []" "stop_dep_body E service p x = Some (None, y)" for p x y
      using that by (rule inv)
  qed (simp_all add: assms)
  then show ?thesis by simp
qed

text \<open>A dependency entry of a service that is ready: the service is up, or it is only used and
  not known.\<close>

definition dep_ready :: "sys \<Rightarrow> s_data \<Rightarrow> bool" where
  "dep_ready s c = (is_dep_type c \<longrightarrow> (case val_s (d_t c) of None \<Rightarrow> True
     | Some n \<Rightarrow> (case initng_active_db_find_by_name n s of
          None \<Rightarrow> d_type c = Some USE
        | Some dep \<Rightarrow> GET_STATE s dep = IS_UP)))"

lemma cache_find [simp]:
  "initng_active_db_find_by_name n (set_depend_cache i v s) = initng_active_db_find_by_name n s"
  "dep_ready (set_depend_cache i v s) = dep_ready s"
proof -
  show f: "initng_active_db_find_by_name n (set_depend_cache i v s) = initng_active_db_find_by_name n s" for n
    by (simp add: initng_active_db_find_by_name_def find_by_name_walk_find)
  show "dep_ready (set_depend_cache i v s) = dep_ready s"
    by (simp add: dep_ready_def f fun_eq_iff split: option.splits)
qed

lemma start_dep_None:
  assumes "start_dep_body start service c (count, s) = Some (None, x)" and "a_depend_cache (svc s service) \<le> count"
  shows "dep_ready s c
    \<and> (x = (count, s) \<or> x = (count + 1, s) \<or> x = (count + 1, set_depend_cache service (count + 1) s))"
  using assms unfolding start_dep_body_def dep_ready_def Let_def
  by (auto split: if_splits option.splits e_is.splits bind_splits)

lemma start_dep_rounds:
  assumes "each (start_dep_body start service) cs (count, s) = Some (None, (count', t))"
    and "a_depend_cache (svc s service) \<le> count"
  shows "(\<forall>c \<in> set cs. dep_ready s c) \<and> (\<exists>v. t = set_depend_cache service v s)"
  using assms
proof (induction cs arbitrary: count s)
  case Nil
  then show ?case by (auto intro: exI [of _ "a_depend_cache (svc s service)"])
next
  case (Cons c cs)
  from Cons.prems(1) obtain x where b: "start_dep_body start service c (count, s) = Some (None, x)"
    and r: "each (start_dep_body start service) cs x = Some (None, (count', t))"
    by (auto split: bind_splits option.splits)
  note round = start_dep_None [OF b Cons.prems(2)]
  then have "\<exists>n. count \<le> n \<and> (x = (n, s) \<or> x = (n, set_depend_cache service n s))"
    by (elim conjE disjE) (auto intro: exI [of _ count] exI [of _ "count + 1"])
  with round obtain n where n: "dep_ready s c" "count \<le> n"
    "x = (n, s) \<or> x = (n, set_depend_cache service n s)" by blast
  from n(3) show ?case
  proof
    assume x: "x = (n, s)"
    with Cons.IH [of n s] r n Cons.prems(2) show ?thesis by auto
  next
    assume x: "x = (n, set_depend_cache service n s)"
    with Cons.IH [of n "set_depend_cache service n s"] r n show ?thesis by auto
  qed
qed

lemma start_dep_None_data:
  "start_dep_body start service c x = Some (None, y) \<Longrightarrow> a_data (svc (snd y) i) = a_data (svc (snd x) i)"
  by (cases x) (auto simp: start_dep_body_def Let_def split: if_splits option.splits e_is.splits bind_splits)

lemma start_dep_ready:
  assumes "dep_ready s c" and "a_depend_cache (svc s service) \<le> count"
  shows "\<exists>n v. count \<le> n \<and> v \<le> n
    \<and> start_dep_body start service c (count, s) = Some (None, (n, set_depend_cache service v s))"
proof -
  have same: "set_depend_cache service (a_depend_cache (svc s service)) s = s" by simp
  consider "\<not> is_dep_type c" | "is_dep_type c" "val_s (d_t c) = None"
    | n where "is_dep_type c" "val_s (d_t c) = Some n" by (cases "val_s (d_t c)") auto
  then show ?thesis
  proof cases
    case (3 n)
    show ?thesis
    proof (cases "initng_active_db_find_by_name n s")
      case None
      with 3 assms same show ?thesis
        by (intro exI [of _ "count + 1"] exI [of _ "a_depend_cache (svc s service)"])
          (simp add: start_dep_body_def dep_ready_def Let_def)
    next
      case (Some dep)
      with 3 assms show ?thesis
        by (intro exI [of _ "count + 1"]) (simp add: start_dep_body_def dep_ready_def Let_def)
    qed
  qed (use assms same in \<open>intro exI [of _ count] exI [of _ "a_depend_cache (svc s service)"],
      simp add: start_dep_body_def\<close>)+
qed

lemma start_dep_all_ready:
  assumes "\<forall>c \<in> set cs. dep_ready s c" and "a_depend_cache (svc s service) \<le> count"
  shows "\<exists>n v. each (start_dep_body start service) cs (count, s) = Some (None, (n, set_depend_cache service v s))"
  using assms
proof (induction cs arbitrary: count s)
  case Nil
  then show ?case by (auto intro!: exI [of _ "a_depend_cache (svc s service)"])
next
  case (Cons c cs)
  from start_dep_ready [of s c service count start] Cons.prems obtain n v where
    b: "start_dep_body start service c (count, s) = Some (None, (n, set_depend_cache service v s))"
    and v: "v \<le> n" by auto
  with Cons.IH [of "set_depend_cache service v s" n] Cons.prems show ?case by auto
qed

lemma start_dep_value:
  "each (start_dep_body start service) cs (count, s) = Some (Some v, x) \<Longrightarrow> v \<noteq> TRUE"
proof (induction cs arbitrary: count s)
  case (Cons c cs)
  have one: "start_dep_body start service c y = Some (Some v, x) \<Longrightarrow> v \<noteq> TRUE" for y
    by (cases y) (auto simp: start_dep_body_def Let_def split: if_splits option.splits e_is.splits bind_splits)
  from Cons.prems obtain r y where b: "start_dep_body start service c (count, s) = Some (r, y)"
    by (auto split: bind_splits)
  show ?case
  proof (cases r)
    case None
    with Cons b show ?thesis by (cases y) auto
  next
    case (Some w)
    with Cons.prems b have "start_dep_body start service c (count, s) = Some (Some v, x)" by auto
    with one show ?thesis by blast
  qed
qed simp

lemma start_dep_met_loop:
  assumes "data_wf (a_data (svc s service))" and "length (visible (a_data (svc s service))) < e_fuel E"
  shows "while_get_next None (\<lambda>x. a_data (svc (snd x) service)) (start_dep_body start service) (e_fuel E) None (0, s) =
    each (start_dep_body start service) (visible (a_data (svc s service))) (0, s)"
  using while_get_next_each [where D = "\<lambda>x :: int \<times> sys. a_data (svc (snd x) service)"
      and body = "start_dep_body start service" and s = "(0, s)" and k = "e_fuel E"] assms
    start_dep_None_data [of start service _ _ _ service]
  by simp

section \<open>Properties\<close>

text \<open>C11: a deep dependency check always returns, and a positive answer is never wrong. If no
  module answers EVENT_DEP_ON, then whatever the dependencies look like, cycles included,
  \<open>initng_depend_deep\<close> returns without changing the state, and if it says yes there is a chain
  of direct dependencies through registered services.\<close>

theorem depend_deep_sound:
  assumes "g_hooks s EVENT_DEP_ON = []" and "length (g_active_db s) < e_fuel E" and "db_wf s"
  shows "\<exists>b. initng_depend_deep E a c s = Some (b, s)
    \<and> (b \<longrightarrow> depends_via (deps s) (set (g_active_db s)) a c)"
proof -
  from depend_deep_calls [OF assms, of a c] obtain b st where
    "initng_depend_deep E a c s = Some (b, s)"
    "deep_calls (deps s) (rev (g_active_db s)) 12 a c 0 = Some (b, st)" by blast
  with deep_sound(1) [of "deps s" "rev (g_active_db s)" 12 a c 0 st] show ?thesis by auto
qed

text \<open>A small system for the witnesses: services with names, variables and states, and no hooks.\<close>

definition tiny_service :: "string \<Rightarrow> a_state_h \<Rightarrow> string list \<Rightarrow> active_db_h" where
  "tiny_service n st needs = calloc_service\<lparr>a_name := n, a_name_hash := initng_hash_str n, a_allocated := True,
     a_current_state := st, a_data := Data_Head (rev (map (\<lambda>(k, d). \<lparr>d_addr = k, d_t = U_s d,
       d_type = Some NEED, d_vn = None, d_linked = True\<rparr>) (enumerate 0 needs))) None\<rparr>"

definition tiny_sys :: "active_db_h list \<Rightarrow> sys" where
  "tiny_sys as = (global_zero [] \<lparr>tv_sec = 100, tv_usec = 0\<rparr>)\<lparr>g_active_db := rev [0..<length as],
     g_next_sid := length as, g_sys_state := STATE_UP,
     svc := (\<lambda>i. if i < length as then as ! i else calloc_service)\<rparr>"

definition tiny_env :: env where
  "tiny_env = (bare_env 20)\<lparr>e_hook := (\<lambda>_ e s. Some (e, s)), e_state_fn := (\<lambda>_ _ s. Some s),
     e_type_fn := (\<lambda>_ _ s. Some (TRUE, s)), e_kill_fn := (\<lambda>_ _ _ s. Some s)\<rparr>"

lemma tiny_service_wf: "svc_wf (tiny_service n st needs)"
  by (auto simp: tiny_service_def svc_wf_def data_wf_def entry_wf_def payload_ok_def NEED_def IT_def
      calloc_service_def distinct_map inj_on_def in_set_enumerate_eq rev_map)

lemma tiny_sys_simps [simp]:
  "g_active_db (tiny_sys as) = rev [0..<length as]" "g_interrupt (tiny_sys as) = []"
  "g_next_sid (tiny_sys as) = length as" "g_hooks (tiny_sys as) = (\<lambda>_. [])"
  "g_sys_state (tiny_sys as) = STATE_UP" "g_next_alarm (tiny_sys as) = 0"
  "svc (tiny_sys as) i = (if i < length as then as ! i else calloc_service)"
  by (simp_all add: tiny_sys_def global_zero_def)

lemma tiny_env_simps [simp]:
  "e_fuel tiny_env = 20" "e_hook tiny_env f e s = Some (e, s)" "e_state_fn tiny_env f i s = Some s"
  "e_type_fn tiny_env f i s = Some (TRUE, s)" "e_kill_fn tiny_env f i p s = Some s"
  by (simp_all add: tiny_env_def bare_env_def)

lemma tiny_sys_wf:
  assumes "\<forall>a \<in> set as. svc_wf a \<and> a_allocated a" and "distinct (map a_name as)"
  shows "db_wf (tiny_sys as)"
proof -
  have "map (\<lambda>i. a_name (svc (tiny_sys as) i)) (rev [0..<length as]) = rev (map a_name as)"
  proof -
    have "map (\<lambda>i. a_name (svc (tiny_sys as) i)) [0..<length as] = map a_name (map ((!) as) [0..<length as])"
      unfolding map_map by (rule map_cong) simp_all
    then show ?thesis by (simp only: rev_map [symmetric] map_nth)
  qed
  with assms(2) have "distinct (map (\<lambda>i. a_name (svc (tiny_sys as) i)) (g_active_db (tiny_sys as)))"
    by (simp only: tiny_sys_simps(1) distinct_rev)
  moreover have "a_allocated (svc (tiny_sys as) i) \<longrightarrow> i < g_next_sid (tiny_sys as) \<and> svc_wf (svc (tiny_sys as) i)" for i
    using assms(1) by (simp add: calloc_service_def)
  moreover have "\<forall>i \<in> set (g_active_db (tiny_sys as)). a_allocated (svc (tiny_sys as) i)"
    using assms(1) by simp
  moreover have "distinct (g_active_db (tiny_sys as))" "distinct (g_interrupt (tiny_sys as))"
    "\<forall>i \<in> set (g_interrupt (tiny_sys as)). a_allocated (svc (tiny_sys as) i)" by simp_all
  ultimately show ?thesis unfolding db_wf_def by blast
qed

lemma tiny_service_simps [simp]:
  "a_name (tiny_service n st needs) = n" "a_allocated (tiny_service n st needs)"
  "a_current_state (tiny_service n st needs) = st" "a_state_lock (tiny_service n st needs) = 0"
  "a_next_state (tiny_service n st needs) = None" "a_depend_cache (tiny_service n st needs) = 0"
  "a_name_hash (tiny_service n st needs) = initng_hash_str n" "a_type (tiny_service n st needs) = None"
  by (simp_all add: tiny_service_def calloc_service_def)

lemma tiny_service_data [simp]:
  "visible (a_data (tiny_service n st needs)) = map (\<lambda>(k, d). \<lparr>d_addr = k, d_t = U_s d,
     d_type = Some NEED, d_vn = None, d_linked = True\<rparr>) (enumerate 0 needs)"
  "data_wf (a_data (tiny_service n st needs))"
  using tiny_service_wf [of n st needs] by (simp_all add: tiny_service_def svc_wf_def)

lemma tiny_deps:
  "i < length as \<Longrightarrow> as ! i = tiny_service n st needs \<Longrightarrow>
    deps (tiny_sys as) i j = (i \<noteq> j \<and> a_name (svc (tiny_sys as) j) \<in> set needs)"
proof -
  assume i: "i < length as" "as ! i = tiny_service n st needs"
  have "(\<exists>c \<in> set (visible (a_data (tiny_service n st needs))). is_dep_type c \<and> val_s (d_t c) = Some m)
      = (m \<in> set needs)" for m
  proof -
    have "set needs = snd ` set (enumerate 0 needs)" by (metis list.set_map map_snd_enumerate)
    then show ?thesis by (simp add: is_dep_type_def case_prod_beta image_iff eq_commute)
  qed
  with i show ?thesis by (simp add: deps_def dep_on_visible)
qed

lemma tiny_system_wf:
  "distinct (map fst xs) \<Longrightarrow>
    db_wf (tiny_sys (map (\<lambda>(n, st, needs). tiny_service n st needs) xs))"
  by (rule tiny_sys_wf) (auto simp: tiny_service_wf comp_def case_prod_beta)

theorem depend_deep_sound_witness:
  "\<exists>b. initng_depend_deep tiny_env 0 1 (tiny_sys [tiny_service ''a'' NEW [''b''], tiny_service ''b'' NEW []])
     = Some (b, tiny_sys [tiny_service ''a'' NEW [''b''], tiny_service ''b'' NEW []])"
  using depend_deep_sound [of "tiny_sys [tiny_service ''a'' NEW [''b''], tiny_service ''b'' NEW []]" tiny_env 0 1]
    tiny_system_wf [of "[(''a'', NEW, [''b'']), (''b'', NEW, [])]"]
  by auto

text \<open>C12: a negative answer of the deep check is right as long as the shared counter has not
  passed ten: then there is no chain of dependencies from the one service to the other.\<close>

theorem depend_deep_complete:
  assumes "g_hooks s EVENT_DEP_ON = []" and "length (g_active_db s) < e_fuel E" and "db_wf s"
    and "initng_depend_deep2 E 12 a c 0 s = Some (b, stack, t)" and "stack \<le> 10"
  shows "t = s \<and> (b \<longleftrightarrow> depends_via (deps s) (set (g_active_db s)) a c)"
proof -
  have d: "distinct (g_active_db s)" using assms(3) by (simp add: db_wf_def)
  from assms(4) depend_deep2_calls [OF assms(1,2) d, of 12 a c 0] have
    c: "deep_calls (deps s) (rev (g_active_db s)) 12 a c 0 = Some (b, stack)" and t: "t = s"
    by auto
  show ?thesis
  proof (cases b)
    case True
    with c deep_sound(1) [of "deps s" "rev (g_active_db s)" 12 a c 0 stack] t show ?thesis by simp
  next
    case False
    with c deep_complete [of "deps s" "rev (g_active_db s)" a c 12 0 stack] t assms(5) show ?thesis by auto
  qed
qed

theorem depend_deep_complete_witness:
  "depends_via (deps (tiny_sys [tiny_service ''a'' NEW [''b''], tiny_service ''b'' NEW []])) {0, 1} 0 1"
proof -
  let ?s = "tiny_sys [tiny_service ''a'' NEW [''b''], tiny_service ''b'' NEW []]"
  have wf: "db_wf ?s" using tiny_system_wf [of "[(''a'', NEW, [''b'']), (''b'', NEW, [])]"] by simp
  have d: "deps ?s 0 1" by (subst tiny_deps [where n = "''a''" and st = NEW and needs = "[''b'']"]) simp_all
  have "initng_depend_deep2 tiny_env (Suc 11) 0 1 0 ?s = Some (True, 0, ?s)"
    unfolding initng_depend_deep2.simps using d by simp
  moreover have "(12 :: nat) = Suc 11" by simp
  ultimately have "initng_depend_deep2 tiny_env 12 0 1 0 ?s = Some (True, 0, ?s)" by metis
  from depend_deep_complete [OF _ _ wf this] show ?thesis by (simp add: insert_commute)
qed

text \<open>A system with many services that one service needs.\<close>

definition wide_deps :: "sid \<Rightarrow> sid \<Rightarrow> bool" where
  "wide_deps a b = ((a = 0 \<and> 1 \<le> b \<and> b \<le> 12) \<or> (a = 12 \<and> b = 13) \<or> (a = 13 \<and> b = 14))"

definition wide_sys :: sys where
  "wide_sys = tiny_sys (map (\<lambda>i. tiny_service (replicate (i + 1) (CHR ''x'')) NEW
     (map (\<lambda>j. replicate (j + 1) (CHR ''x'')) (filter (wide_deps i) [0..<15]))) [0..<15])"

lemma wide_sys_deps:
  assumes "i < 15" and "j < 15"
  shows "deps wide_sys i j = wide_deps i j"
proof -
  let ?n = "\<lambda>i. replicate (i + 1) (CHR ''x'')"
  let ?as = "map (\<lambda>i. tiny_service (?n i) NEW (map ?n (filter (wide_deps i) [0..<15]))) [0..<15]"
  have "deps (tiny_sys ?as) i j =
      (i \<noteq> j \<and> a_name (svc (tiny_sys ?as) j) \<in> set (map ?n (filter (wide_deps i) [0..<15])))"
    using assms(1) by (intro tiny_deps [where n = "?n i" and st = NEW]) simp_all
  also have "a_name (svc (tiny_sys ?as) j) = ?n j" using assms(2) by simp
  also have "(?n j \<in> set (map ?n (filter (wide_deps i) [0..<15]))) = wide_deps i j"
    using assms(2) by (auto simp: replicate_eq_replicate)
  also have "(i \<noteq> j \<and> wide_deps i j) = wide_deps i j" by (auto simp: wide_deps_def)
  finally show ?thesis by (simp only: wide_sys_def)
qed

lemma wide_sys_wf: "db_wf wide_sys"
  unfolding wide_sys_def
  by (rule tiny_sys_wf) (auto simp: tiny_service_wf comp_def distinct_map inj_on_def)

lemma deep_cong:
  "\<forall>i \<in> set db \<union> {a, c}. \<forall>j \<in> set db \<union> {a, c}. D i j = D' i j \<Longrightarrow>
    deep_calls D db k a c st = deep_calls D' db k a c st"
  "\<forall>i \<in> set db \<union> {a, c}. \<forall>j \<in> set db \<union> {a, c}. D i j = D' i j \<Longrightarrow> set xs \<subseteq> set db \<Longrightarrow>
    deep_list D db k a xs c st = deep_list D' db k a xs c st"
proof (induction D db k a c st and D db k a xs c st rule: deep_calls_deep_list.induct)
  case (4 D db k a x xs c st)
  then show ?case by (auto split: option.splits)
qed simp_all

text \<open>C24: the counter bounds the number of calls, not the depth. Service 0 needs twelve services,
  the last of which leads to service 14 over one more: the chain has three steps, but the ten
  services looked at before use up the counter and the answer is no.\<close>

theorem depend_deep_misses_short_chain:
  "initng_depend_deep tiny_env 0 14 wide_sys = Some (False, wide_sys)
   \<and> deps wide_sys 0 12 \<and> deps wide_sys 12 13 \<and> deps wide_sys 13 14"
proof -
  have db: "g_active_db wide_sys = rev [0..<15]" by (simp add: wide_sys_def)
  have "deep_calls (deps wide_sys) [0..<15] 12 0 14 0 = deep_calls wide_deps [0..<15] 12 0 14 0"
    by (rule deep_cong(1)) (auto simp: wide_sys_deps)
  also have "deep_calls wide_deps [0..<15] 12 0 14 0 = Some (False, 13)"
    by code_simp
  finally have "initng_depend_deep2 tiny_env 12 0 14 0 wide_sys = Some (False, 13, wide_sys)"
    by (subst depend_deep2_calls) (simp_all add: db, simp_all add: wide_sys_def)
  then show ?thesis by (simp add: initng_depend_deep_def wide_sys_deps wide_deps_def)
qed





text \<open>C23: the cache of a check that said no is trusted by the next one. A service needs two
  others, the first up and the second starting: the check says no and remembers that the first
  entry is done. When the second comes up while the first goes down, the next check says yes,
  although the service needs one that is down.\<close>

theorem start_dep_met_stale_cache:
  "let st = \<lambda>v. plain_state ''S'' v; start = \<lambda>i s. Some (TRUE, s);
       s = tiny_sys [tiny_service ''c'' (st IS_STARTING) [''a'', ''b''], tiny_service ''a'' (st IS_UP) [],
             tiny_service ''b'' (st IS_STARTING) []];
       t = set_depend_cache 0 1 s;
       u = upd_svc 1 (\<lambda>a. a\<lparr>a_current_state := st IS_DOWN\<rparr>) (upd_svc 2 (\<lambda>a. a\<lparr>a_current_state := st IS_UP\<rparr>) t)
   in initng_depend_start_dep_met tiny_env start 0 s = Some (FALSE, t)
    \<and> initng_depend_start_dep_met tiny_env start 0 u = Some (TRUE, set_depend_cache 0 0 u)
    \<and> GET_STATE u 1 = IS_DOWN \<and> deps u 0 1"
proof -
  let ?st = "\<lambda>v. plain_state ''S'' v" let ?start = "\<lambda>i s. Some (TRUE, s)"
  let ?as = "[tiny_service ''c'' (?st IS_STARTING) [''a'', ''b''], tiny_service ''a'' (?st IS_UP) [],
             tiny_service ''b'' (?st IS_STARTING) []]"
  let ?s = "tiny_sys ?as"
  let ?t = "set_depend_cache 0 1 ?s"
  let ?u = "upd_svc 1 (\<lambda>a. a\<lparr>a_current_state := ?st IS_DOWN\<rparr>)
    (upd_svc 2 (\<lambda>a. a\<lparr>a_current_state := ?st IS_UP\<rparr>) ?t)"
  have f: "initng_active_db_find_by_name ''a'' ?s = Some 1" "initng_active_db_find_by_name ''b'' ?s = Some 2"
    "initng_active_db_find_by_name ''b'' ?u = Some 2"
    by (simp_all add: initng_active_db_find_by_name_def find_by_name_walk_find upd_svc_def)
  have d: "a_data (svc ?u 0) = a_data (svc ?s 0)" "a_name (svc ?u 1) = a_name (svc ?s 1)"
    "g_hooks ?u = (\<lambda>_. [])" "a_depend_cache (svc ?u 0) = 1" by (simp_all add: upd_svc_def set_depend_cache_def)
  have "deps ?s 0 1"
    by (subst tiny_deps [where n = "''c''" and st = "?st IS_STARTING" and needs = "[''a'', ''b'']"]) simp_all
  then have deps: "deps ?u 0 1" using dep_on_cong [OF d(1,2)] by (simp add: deps_def)
  have g: "GET_STATE ?u 1 = IS_DOWN" "GET_STATE ?u 2 = IS_UP" "GET_STATE ?s 1 = IS_UP" "GET_STATE ?s 2 = IS_STARTING"
    by (simp_all add: GET_STATE_def upd_svc_def plain_state_def)
  have one: "initng_depend_start_dep_met tiny_env ?start 0 ?s = Some (FALSE, ?t)"
    using start_dep_met_loop [of ?s 0 tiny_env ?start] f g
    by (simp add: initng_depend_start_dep_met_def start_dep_body_def is_dep_type_def Let_def)
  have two: "initng_depend_start_dep_met tiny_env ?start 0 ?u = Some (TRUE, set_depend_cache 0 0 ?u)"
    using start_dep_met_loop [of ?u 0 tiny_env ?start] f g d
    by (simp add: initng_depend_start_dep_met_def start_dep_body_def is_dep_type_def Let_def)
  show ?thesis unfolding Let_def using one two g(1) deps by blast
qed

end
