(* ===== verification/Handler.thy ===== *)
theory Handler
  imports Depend
begin

text \<open>
  The handlers that start, stop and restart services and run due alarms: src/main/handler, and
  the functions of src/main/main that change the state of the whole system. Starting a service
  first starts what it needs, so the function is recursive through
  \<open>initng_depend_start_deps\<close>; its fuel bounds the depth of that recursion.
\<close>

section \<open>The state of the system\<close>

definition initng_main_set_sys_state :: "env \<Rightarrow> h_sys_state \<Rightarrow> sys \<Rightarrow> sys option" where
  "initng_main_set_sys_state E state s =
     (if state = g_sys_state s then Some s
      else initng_module_callers_system_changed E state (s\<lparr>g_sys_state := state\<rparr>))"

definition initng_main_set_runlevel :: "env \<Rightarrow> string \<Rightarrow> sys \<Rightarrow> sys option" where
  "initng_main_set_runlevel E runlevel s =
     (let s = s\<lparr>g_old_runlevel := None\<rparr>;
          s = (if g_runlevel s \<noteq> None then s\<lparr>g_old_runlevel := g_runlevel s, g_runlevel := None\<rparr> else s);
          s = s\<lparr>g_runlevel := Some runlevel\<rparr>
      in initng_module_callers_system_changed E (g_sys_state s) s)"

definition initng_main_ready_to_quit :: "sys \<Rightarrow> int" where
  "initng_main_ready_to_quit s =
     of_cond (list_all (\<lambda>i. GET_STATE s i = IS_FAILED \<or> GET_STATE s i = IS_DOWN) (rev (g_active_db s)))"

section \<open>Starting\<close>

definition start_new_service_named :: "env \<Rightarrow> (sid \<Rightarrow> sys \<Rightarrow> (int \<times> sys) option) \<Rightarrow> string \<Rightarrow> sys \<Rightarrow>
    (sid option \<times> sys) option" where
  "start_new_service_named E start service s =
     (case initng_active_db_find_by_name service s of
        Some to_load \<Rightarrow>
          if GET_STATE s to_load \<noteq> IS_DOWN then Some (Some to_load, s)
          else do { (r, s) \<leftarrow> start to_load s; Some (Some to_load, s) }
      | None \<Rightarrow> initng_module_active_new E service s)"

definition call_start :: "env \<Rightarrow> sid \<Rightarrow> sys \<Rightarrow> (int \<times> sys) option" where
  "call_start E i s = (case a_type (svc s i) of
     None \<Rightarrow> None
   | Some t \<Rightarrow> (case sty_start t of None \<Rightarrow> Some (FALSE, s) | Some f \<Rightarrow> e_type_fn E f i s))"

fun initng_handler_start_service :: "env \<Rightarrow> nat \<Rightarrow> sid \<Rightarrow> sys \<Rightarrow> (int \<times> sys) option" where
  "initng_handler_start_service E 0 i s = None"
| "initng_handler_start_service E (Suc k) i s =
     (if a_type (svc s i) = None then Some (FALSE, s)
      else if g_sys_state s \<noteq> STATE_STARTING \<and> g_sys_state s \<noteq> STATE_UP then Some (FALSE, s)
      else if is_set RESTARTING i s then Some (FALSE, s)
      else case GET_STATE s i of
        IS_STARTING \<Rightarrow> Some (TRUE, s)
      | IS_WAITING \<Rightarrow> Some (TRUE, s)
      | IS_FAILED \<Rightarrow> Some (FALSE, s)
      | IS_UP \<Rightarrow> Some (TRUE, s)
      | IS_NEW \<Rightarrow> Some (TRUE, s)
      | _ \<Rightarrow> do {
          (r, s) \<leftarrow> initng_depend_start_deps E (initng_handler_start_service E k)
            (start_new_service_named E (initng_handler_start_service E k)) i s;
          (if r \<noteq> TRUE then Some (FALSE, s) else call_start E i s) })"

definition start_service :: "env \<Rightarrow> sid \<Rightarrow> sys \<Rightarrow> (int \<times> sys) option" where
  "start_service E = initng_handler_start_service E (e_fuel E)"

definition initng_handler_start_new_service_named :: "env \<Rightarrow> string \<Rightarrow> sys \<Rightarrow> (sid option \<times> sys) option" where
  "initng_handler_start_new_service_named E = start_new_service_named E (start_service E)"

text \<open>The services named on the command line with a plus sign.\<close>

fun start_extra :: "env \<Rightarrow> string list \<Rightarrow> sys \<Rightarrow> sys option" where
  "start_extra E [] s = Some s"
| "start_extra E (p # ps) s =
     (if p = [] \<or> hd p \<noteq> CHR ''+'' then start_extra E ps s
      else do {
        (r, s) \<leftarrow> initng_handler_start_new_service_named E (tl p) s;
        start_extra E ps s })"

definition initng_main_start_extra_services :: "env \<Rightarrow> sys \<Rightarrow> sys option" where
  "initng_main_start_extra_services E s = do {
     s \<leftarrow> initng_main_set_sys_state E STATE_STARTING s;
     start_extra E (g_argv s) s }"

section \<open>Stopping and restarting\<close>

definition initng_handler_stop_service :: "env \<Rightarrow> sid \<Rightarrow> sys \<Rightarrow> (int \<times> sys) option" where
  "initng_handler_stop_service E i s =
     (case a_type (svc s i) of
        None \<Rightarrow> Some (FALSE, s)
      | Some t \<Rightarrow>
          (case GET_STATE s i of
             IS_FAILED \<Rightarrow> Some (TRUE, s)
           | IS_STOPPING \<Rightarrow> Some (TRUE, s)
           | IS_DOWN \<Rightarrow> Some (TRUE, s)
           | IS_NEW \<Rightarrow> Some (FALSE, s)
           | IS_WAITING \<Rightarrow> Some (FALSE, s)
           | _ \<Rightarrow> (case sty_stop t of None \<Rightarrow> Some (FALSE, s) | Some f \<Rightarrow> e_type_fn E f i s)))"

fun initng_handler_restart_service :: "env \<Rightarrow> nat \<Rightarrow> sid \<Rightarrow> sys \<Rightarrow> (int \<times> sys) option" where
  "initng_handler_restart_service E 0 i s = None"
| "initng_handler_restart_service E (Suc k) i s =
     (if a_type (svc s i) = None then Some (FALSE, s)
      else if GET_STATE s i \<noteq> IS_UP then Some (FALSE, s)
      else do {
        (r, s) \<leftarrow> initng_depend_restart_deps E (initng_handler_restart_service E k) i s;
        (case a_type (svc s i) of
           None \<Rightarrow> None
         | Some t \<Rightarrow>
             (case sty_restart t of
                Some f \<Rightarrow> e_type_fn E f i s
              | None \<Rightarrow> initng_handler_stop_service E i (svc_set RESTARTING i s))) })"

definition restart_body :: "env \<Rightarrow> sid \<Rightarrow> sys \<Rightarrow> (unit option \<times> sys) option" where
  "restart_body E current s =
     (if GET_STATE s current = IS_DOWN \<and> is_set RESTARTING current s
      then do { (r, s) \<leftarrow> start_service E current (svc_remove RESTARTING current s); Some (None, s) }
      else Some (None, s))"

definition initng_handler_restart_restarting :: "env \<Rightarrow> sys \<Rightarrow> sys option" where
  "initng_handler_restart_restarting E s =
     (if list_ex (\<lambda>i. GET_STATE s i = IS_STOPPING \<and> is_set RESTARTING i s) (rev (g_active_db s)) then Some s
      else map_option snd (while_list g_active_db (restart_body E) (e_fuel E) s))"

definition stop_all_body :: "env \<Rightarrow> sid \<Rightarrow> sys \<Rightarrow> (unit option \<times> sys) option" where
  "stop_all_body E ser s =
     (if GET_STATE s ser \<in> {IS_STOPPING, IS_DOWN, IS_FAILED} then Some (None, s)
      else do { (r, s) \<leftarrow> initng_handler_stop_service E ser s; Some (None, s) })"

definition initng_handler_stop_all :: "env \<Rightarrow> sys \<Rightarrow> (int \<times> sys) option" where
  "initng_handler_stop_all E s = do {
     s \<leftarrow> initng_main_set_sys_state E STATE_STOPPING s;
     (r, s) \<leftarrow> while_list_safe g_active_db (stop_all_body E) (e_fuel E) s;
     Some (TRUE, s) }"

section \<open>Alarms\<close>

definition run_alarm_body :: "env \<Rightarrow> sid \<Rightarrow> sys \<Rightarrow> (unit option \<times> sys) option" where
  "run_alarm_body E current s =
     (if a_alarm (svc s current) = 0 then Some (None, s)
      else if a_alarm (svc s current) \<le> tv_sec (g_now s) then
        (let s = upd_svc current (\<lambda>a. a\<lparr>a_alarm := 0\<rparr>) s
         in case st_alarm (a_current_state (svc s current)) of
              None \<Rightarrow> Some (None, s)
            | Some f \<Rightarrow> do { s \<leftarrow> e_state_fn E f current s; Some (None, s) })
      else if a_alarm (svc s current) < g_next_alarm s \<or> g_next_alarm s = 0
        then Some (None, s\<lparr>g_next_alarm := a_alarm (svc s current)\<rparr>)
      else Some (None, s))"

definition initng_handler_run_alarm :: "env \<Rightarrow> sys \<Rightarrow> sys option" where
  "initng_handler_run_alarm E s =
     map_option snd (while_list_safe g_active_db (run_alarm_body E) (e_fuel E) (s\<lparr>g_next_alarm := 0\<rparr>))"

section \<open>Starting returns\<close>

text \<open>Two states in which the same services are known, with the same names, types and variables.\<close>

definition same_deps :: "sys \<Rightarrow> sys \<Rightarrow> bool" where
  "same_deps s t \<longleftrightarrow> g_active_db t = g_active_db s \<and> g_hooks t = g_hooks s
     \<and> (\<forall>j. a_name (svc t j) = a_name (svc s j) \<and> a_name_hash (svc t j) = a_name_hash (svc s j)
          \<and> a_type (svc t j) = a_type (svc s j) \<and> a_data (svc t j) = a_data (svc s j))"

lemma same_deps_refl [simp]: "same_deps s s"
  by (simp add: same_deps_def)

lemma same_deps_trans: "same_deps s t \<Longrightarrow> same_deps t u \<Longrightarrow> same_deps s u"
  by (simp add: same_deps_def)

lemma same_deps_mark [simp, handler_laws]: "same_deps s (snd (initng_common_mark_service i st s))"
  using mark_frame [of s i st] by (simp add: same_deps_def same_frame_def)

lemma same_deps_find:
  "same_deps s t \<Longrightarrow> initng_active_db_find_by_name n t = initng_active_db_find_by_name n s"
  by (simp add: same_deps_def initng_active_db_find_by_name_def find_by_name_walk_find)

text \<open>The entries whose services \<open>initng_depend_start_deps\<close> starts.\<close>

definition start_entry :: "s_data \<Rightarrow> bool" where
  "start_entry c = (d_type c = Some REQUIRE \<or> d_type c = Some NEED)"

definition dep_ranked :: "(sid \<Rightarrow> nat) \<Rightarrow> sys \<Rightarrow> sid \<Rightarrow> bool" where
  "dep_ranked rank s i = (\<forall>c \<in> set (visible (a_data (svc s i))). start_entry c \<longrightarrow>
     (\<forall>n dep. val_s (d_t c) = Some n \<longrightarrow> initng_active_db_find_by_name n s = Some dep \<longrightarrow> rank dep < rank i))"

definition start_ready :: "env \<Rightarrow> (string \<Rightarrow> bool) \<Rightarrow> (sid \<Rightarrow> nat) \<Rightarrow> sys \<Rightarrow> bool" where
  "start_ready E ok rank s \<longleftrightarrow> g_hooks s EVENT_NEW_ACTIVE = [] \<and> 0 < e_fuel E
     \<and> (\<forall>i \<in> set (g_active_db s). data_wf (a_data (svc s i))
          \<and> length (visible (a_data (svc s i))) < e_fuel E
          \<and> (\<forall>t f. a_type (svc s i) = Some t \<longrightarrow> sty_start t = Some f \<longrightarrow> ok f)
          \<and> dep_ranked rank s i)"

lemma start_ready_same: "same_deps s t \<Longrightarrow> start_ready E ok rank t = start_ready E ok rank s"
proof -
  assume sd: "same_deps s t"
  note f = same_deps_find [OF sd]
  from sd show ?thesis
    unfolding start_ready_def dep_ranked_def f by (simp add: same_deps_def)
qed

text \<open>Every service that a REQUIRE entry of the service names is known.\<close>

definition requires_known :: "sys \<Rightarrow> sid \<Rightarrow> bool" where
  "requires_known s i \<longleftrightarrow> (\<forall>c \<in> set (visible (a_data (svc s i))). d_type c = Some REQUIRE \<longrightarrow>
     (\<forall>n. val_s (d_t c) = Some n \<longrightarrow> initng_active_db_find_by_name n s \<noteq> None))"

text \<open>The services above a rank are as they were.\<close>

definition kept_above :: "(sid \<Rightarrow> nat) \<Rightarrow> nat \<Rightarrow> sys \<Rightarrow> sys \<Rightarrow> bool" where
  "kept_above rank n s t \<longleftrightarrow> same_deps s t \<and> g_sys_state t = g_sys_state s \<and> (\<forall>k. n < rank k \<longrightarrow> svc t k = svc s k)"

lemma kept_above_trans: "kept_above rank m s t \<Longrightarrow> kept_above rank n t u \<Longrightarrow> m \<le> n \<Longrightarrow> kept_above rank n s u"
  using same_deps_trans by (auto simp: kept_above_def)

lemma kept_above_refl [simp]: "kept_above rank n s s"
  by (simp add: kept_above_def)

lemma mark_sys_state [simp]: "g_sys_state (snd (initng_common_mark_service i st s)) = g_sys_state s"
  by (simp add: initng_common_mark_service_def initng_common_state_unlock_def Let_def split: option.split)

lemma kept_above_mark [simp]: "kept_above rank (rank i) s (snd (initng_common_mark_service i st s))"
  by (auto simp: kept_above_def intro: mark_other)

text \<open>Only the state of one service changes.\<close>

definition only_state :: "sid \<Rightarrow> sys \<Rightarrow> sys \<Rightarrow> bool" where
  "only_state i s t \<longleftrightarrow> same_deps s t \<and> g_sys_state t = g_sys_state s \<and> (\<forall>k. k \<noteq> i \<longrightarrow> svc t k = svc s k)"

lemma only_state_mark [simp]: "only_state i s s" "only_state i s (snd (initng_common_mark_service i st s))"
  by (simp_all add: only_state_def)

text \<open>The contract of the start functions of the service types in \<open>ok\<close>: they return, and change
  nothing of the services but the state of the one they are called for.\<close>

locale start_contract =
  fixes E :: env and ok :: "string \<Rightarrow> bool"
  assumes start_fn: "ok f \<Longrightarrow> \<exists>r t. e_type_fn E f i s = Some (r, t) \<and> only_state i s t"
begin

lemma start_deps_returns:
  assumes ih: "\<And>j t. start_ready E ok rank t \<Longrightarrow> j \<in> set (g_active_db t) \<Longrightarrow> rank j < rank i \<Longrightarrow>
      \<exists>r u. start j t = Some (r, u) \<and> kept_above rank (rank j) t u"
    and ready: "start_ready E ok rank s" and i: "i \<in> set (g_active_db s)"
  shows "\<exists>r t. initng_depend_start_deps E start (start_new_service_named E start) i s = Some (r, t)
    \<and> kept_above rank (rank i) s t \<and> (requires_known s i \<longrightarrow> r = TRUE \<and> svc t i = svc s i)"
proof -
  let ?P = "\<lambda>t. kept_above rank (rank i) s t \<and> (requires_known s i \<longrightarrow> svc t i = svc s i)"
  let ?body = "start_deps_body start (start_new_service_named E start) i"
  have one: "\<exists>r u. ?body c t = Some (r, u) \<and> ?P u \<and> (requires_known s i \<longrightarrow> r = None)"
    if P: "?P t" and c: "c \<in> set (visible (a_data (svc s i)))" for c t
  proof (cases "start_entry c \<and> val_s (d_t c) \<noteq> None")
    case True
    then obtain n where n: "val_s (d_t c) = Some n" "start_entry c" by auto
    from P have sd: "same_deps s t" by (simp add: kept_above_def)
    note rt = start_ready_same [OF sd] and ft = same_deps_find [OF sd]
    show ?thesis
    proof (cases "initng_active_db_find_by_name n t")
      case None
      from ready sd have "g_hooks t EVENT_NEW_ACTIVE = []" "0 < e_fuel E"
        by (simp_all add: start_ready_def same_deps_def)
      with None have new: "start_new_service_named E start n t = Some (None, t)"
        by (simp add: start_new_service_named_def initng_module_active_new_def)
      from None c n(1) ft have "requires_known s i \<Longrightarrow> d_type c \<noteq> Some REQUIRE" by (auto simp: requires_known_def)
      with new n None P kept_above_trans [OF conjunct1 [OF P] kept_above_mark] show ?thesis
        by (auto simp: start_deps_body_def start_entry_def)
    next
      case (Some dep)
      with ready i c n ft have r: "rank dep < rank i" by (auto simp: start_ready_def dep_ranked_def)
      moreover have "dep \<in> set (g_active_db t)" using find_by_name_Some [OF Some] by simp
      ultimately obtain q u where u: "start dep t = Some (q, u)" "kept_above rank (rank dep) t u"
        using ih [of t dep] ready rt by blast
      from r u(2) have "kept_above rank (rank i) t u" "svc u i = svc t i" by (auto simp: kept_above_def)
      with u(1) n Some P kept_above_trans [OF conjunct1 [OF P], of "rank i"] show ?thesis
        by (auto simp: start_deps_body_def start_entry_def)
    qed
  next
    case False
    with P show ?thesis by (auto simp: start_deps_body_def start_entry_def)
  qed
  have "while_get_next None (\<lambda>s. a_data (svc s i)) ?body (e_fuel E) None s = each ?body (visible (a_data (svc s i))) s"
  proof (rule while_get_next_each_inv [where P = ?P])
    fix c t u
    assume P: "?P t" and c: "c \<in> set (visible (a_data (svc t i)))" and b: "?body c t = Some (None, u)"
    from P c have c': "c \<in> set (visible (a_data (svc s i)))" by (simp add: kept_above_def same_deps_def)
    from one [OF P c'] b have "?P u" by auto
    with P show "a_data (svc u i) = a_data (svc t i) \<and> ?P u" by (simp add: kept_above_def same_deps_def)
  qed (use ready i in \<open>simp_all add: start_ready_def\<close>)
  moreover have "\<exists>r t. each ?body (visible (a_data (svc s i))) s = Some (r, t) \<and> ?P t \<and> (requires_known s i \<longrightarrow> r = None)"
    by (rule each_total) (use one in auto)
  ultimately show ?thesis by (auto simp: initng_depend_start_deps_def)
qed

lemma start_service_returns:
  "start_ready E ok rank s \<Longrightarrow> i \<in> set (g_active_db s) \<Longrightarrow> rank i < k \<Longrightarrow>
    \<exists>r t. initng_handler_start_service E k i s = Some (r, t) \<and> kept_above rank (rank i) s t"
proof (induction k arbitrary: i s)
  case (Suc k)
  have "\<exists>r t. initng_depend_start_deps E (initng_handler_start_service E k)
      (start_new_service_named E (initng_handler_start_service E k)) i s = Some (r, t)
      \<and> kept_above rank (rank i) s t \<and> (requires_known s i \<longrightarrow> r = TRUE \<and> svc t i = svc s i)"
    by (rule start_deps_returns) (use Suc in auto)
  then obtain r t where d: "initng_depend_start_deps E (initng_handler_start_service E k)
      (start_new_service_named E (initng_handler_start_service E k)) i s = Some (r, t)" and sd: "kept_above rank (rank i) s t"
    by blast
  have call: "\<exists>r u. call_start E i t = Some (r, u) \<and> kept_above rank (rank i) s u" if "a_type (svc s i) \<noteq> None"
  proof -
    from that sd obtain ty where ty: "a_type (svc s i) = Some ty" "a_type (svc t i) = Some ty"
      by (auto simp: kept_above_def same_deps_def)
    show ?thesis
    proof (cases "sty_start ty")
      case None
      with ty sd show ?thesis by (simp add: call_start_def)
    next
      case (Some f)
      with Suc.prems ty have "ok f" by (auto simp: start_ready_def)
      from start_fn [OF this, of i t] obtain q u where u: "e_type_fn E f i t = Some (q, u)" "only_state i t u"
        by blast
      have "kept_above rank (rank i) t u" unfolding kept_above_def using u by (force simp: only_state_def)
      with u(1) kept_above_trans [OF sd this] Some ty show ?thesis by (simp add: call_start_def)
    qed
  qed
  from d sd call show ?case by (auto split: e_is.splits)
qed simp

text \<open>A service that is down and whose requirements are known gets to the start function of its
  type, as it was.\<close>

lemma start_reaches_type:
  assumes ready: "start_ready E ok rank s" "i \<in> set (g_active_db s)" "rank i < e_fuel E" "requires_known s i"
    and down: "GET_STATE s i = IS_DOWN" "\<not> is_set RESTARTING i s" "g_sys_state s = STATE_STARTING \<or> g_sys_state s = STATE_UP"
    and ty: "a_type (svc s i) = Some ty"
  shows "\<exists>t. start_service E i s = call_start E i t \<and> svc t i = svc s i \<and> same_deps s t"
proof -
  from ready(3) obtain k where k: "e_fuel E = Suc k" "rank i \<le> k" by (cases "e_fuel E") auto
  have "\<exists>r t. initng_depend_start_deps E (initng_handler_start_service E k)
      (start_new_service_named E (initng_handler_start_service E k)) i s = Some (r, t)
      \<and> kept_above rank (rank i) s t \<and> (requires_known s i \<longrightarrow> r = TRUE \<and> svc t i = svc s i)"
    by (rule start_deps_returns [OF start_service_returns]) (use k ready in auto)
  with ready(4) down ty k show ?thesis
    by (auto simp: start_service_def kept_above_def)
qed

end

section \<open>Alarms that are pending\<close>

text \<open>The next alarm of the program is not later than the alarm of a service.\<close>

definition alarm_ok :: "sys \<Rightarrow> sid \<Rightarrow> bool" where
  "alarm_ok s i = (a_alarm (svc s i) \<noteq> 0 \<longrightarrow> g_next_alarm s \<noteq> 0 \<and> g_next_alarm s \<le> a_alarm (svc s i))"

lemma alarm_ok_mark [simp]: "alarm_ok s j \<Longrightarrow> alarm_ok (snd (initng_common_mark_service i st s)) j"
  by (auto simp: alarm_ok_def initng_common_mark_service_def initng_common_state_unlock_def state_commit_def Let_def
      upd_svc_def split: option.splits)

lemma alarm_ok_set:
  "0 < tv_sec (g_now s) + n \<Longrightarrow> alarm_ok s j \<or> j = i \<Longrightarrow> alarm_ok (initng_handler_set_alarm i n s) j"
  by (auto simp: alarm_ok_def initng_handler_set_alarm_def Let_def upd_svc_def)

text \<open>The contract of the alarm functions of the service states: they leave the database and the
  clock alone, and whatever alarm they set, the next alarm of the program accounts for it.\<close>

text \<open>Every service of the database has a sid of its own, given out before.\<close>

definition db_fresh :: "sys \<Rightarrow> bool" where
  "db_fresh s \<longleftrightarrow> distinct (g_active_db s) \<and> (\<forall>i \<in> set (g_active_db s). i < g_next_sid s)"

text \<open>The alarm functions may load new services, which are put in front.\<close>

locale alarm_contract =
  fixes E :: env and ok :: "string \<Rightarrow> bool"
  assumes alarm_fn: "ok f \<Longrightarrow> e_state_fn E f i s = Some t \<Longrightarrow> 0 < tv_sec (g_now s) \<Longrightarrow> db_fresh s \<Longrightarrow>
    db_fresh t \<and> (\<exists>new. g_active_db t = new @ g_active_db s) \<and> g_now t = g_now s \<and> (\<forall>j. alarm_ok s j \<longrightarrow> alarm_ok t j)
    \<and> (\<forall>j g. st_alarm (a_current_state (svc t j)) = Some g \<longrightarrow> ok g
        \<or> st_alarm (a_current_state (svc s j)) = Some g)"
begin

lemma alarm_body:
  assumes "run_alarm_body E c s = Some (r, t)" and "0 < tv_sec (g_now s)" and "db_fresh s"
    and "\<forall>j g. st_alarm (a_current_state (svc s j)) = Some g \<longrightarrow> ok g"
  shows "r = None \<and> db_fresh t \<and> (\<exists>new. g_active_db t = new @ g_active_db s) \<and> g_now t = g_now s \<and> alarm_ok t c
    \<and> (\<forall>j. alarm_ok s j \<longrightarrow> alarm_ok t j)
    \<and> (\<forall>j g. st_alarm (a_current_state (svc t j)) = Some g \<longrightarrow> ok g)"
proof (cases "a_alarm (svc s c) \<noteq> 0 \<and> a_alarm (svc s c) \<le> tv_sec (g_now s)")
  case True
  define u where "u = upd_svc c (\<lambda>a. a\<lparr>a_alarm := 0\<rparr>) s"
  have u: "g_active_db u = g_active_db s" "g_now u = g_now s" "alarm_ok u c" "\<forall>j. alarm_ok s j \<longrightarrow> alarm_ok u j"
    "\<forall>j. a_current_state (svc u j) = a_current_state (svc s j)" "db_fresh u = db_fresh s"
    by (auto simp: u_def alarm_ok_def db_fresh_def)
  show ?thesis
  proof (cases "st_alarm (a_current_state (svc u c))")
    case None
    with True assms u have "r = None" "t = u" by (auto simp: run_alarm_body_def u_def [symmetric] Let_def)
    with u assms(3,4) show ?thesis by simp
  next
    case (Some f)
    with True assms(1) u have "r = None" and f: "e_state_fn E f c u = Some t"
      by (auto simp: run_alarm_body_def u_def [symmetric] Let_def split: bind_splits)
    from Some u assms(4) have "ok f" by simp
    from alarm_fn [OF this f] u assms \<open>r = None\<close> show ?thesis by (metis (no_types, lifting))
  qed
next
  case False
  with assms show ?thesis by (auto simp: run_alarm_body_def alarm_ok_def db_fresh_def split: if_splits)
qed

lemma alarm_walk:
  assumes "initng_handler_run_alarm E s = Some t" and "db_fresh s"
    and "0 < tv_sec (g_now s)" and "\<forall>j g. st_alarm (a_current_state (svc s j)) = Some g \<longrightarrow> ok g"
  shows "\<forall>i \<in> set (g_active_db s). alarm_ok t i"
proof -
  let ?s = "s\<lparr>g_next_alarm := 0\<rparr>"
  let ?P = "\<lambda>s. 0 < tv_sec (g_now s) \<and> db_fresh s \<and> (\<forall>j g. st_alarm (a_current_state (svc s j)) = Some g \<longrightarrow> ok g)"
  from assms(1) obtain r where w: "while_list_safe g_active_db (run_alarm_body E) (e_fuel E) ?s = Some (r, t)"
    by (auto simp: initng_handler_run_alarm_def)
  have "\<forall>c \<in> set (g_active_db ?s). alarm_ok t c"
  proof (rule while_list_safe_visits [where P = ?P and Q = alarm_ok, OF _ _ _ w])
    fix c u q v
    assume u: "?P u" and b: "run_alarm_body E c u = Some (q, v)"
    from u have "0 < tv_sec (g_now u)" "db_fresh u" "\<forall>j g. st_alarm (a_current_state (svc u j)) = Some g \<longrightarrow> ok g" by simp_all
    from alarm_body [OF b this] u
    show "q = None \<and> ?P v \<and> alarm_ok v c \<and> (\<forall>x. alarm_ok u x \<longrightarrow> alarm_ok v x) \<and> (\<exists>new. g_active_db v = new @ g_active_db u)"
      by simp
  qed (use assms in \<open>simp_all add: db_fresh_def\<close>)
  then show ?thesis by simp
qed

end

section \<open>Properties\<close>

text \<open>The first service that the NEED and REQUIRE entries of a service name is in the set.\<close>

definition first_need_in :: "sid set \<Rightarrow> sys \<Rightarrow> sid \<Rightarrow> bool" where
  "first_need_in C s i = (case find (\<lambda>c. start_entry c \<and> val_s (d_t c) \<noteq> None) (visible (a_data (svc s i))) of
     None \<Rightarrow> False
   | Some c \<Rightarrow> (case initng_active_db_find_by_name (the (val_s (d_t c))) s of None \<Rightarrow> False | Some dep \<Rightarrow> dep \<in> C))"

definition startable :: "sys \<Rightarrow> sid \<Rightarrow> bool" where
  "startable s i = (a_type (svc s i) \<noteq> None \<and> GET_STATE s i = IS_DOWN \<and> \<not> is_set RESTARTING i s
     \<and> (g_sys_state s = STATE_STARTING \<or> g_sys_state s = STATE_UP))"



end
