(* ===== verification/Interrupt.thy ===== *)
theory Interrupt
  imports Handler
begin

text \<open>
  The interrupt of the main loop: src/main/interrupt. A service whose state was committed waits
  in the interrupt list; the interrupt takes the waiting services out one by one, sends the
  events of the change, runs the init function of the new state and at last the interrupt
  functions of all services.
\<close>

section \<open>Operations\<close>

definition check_sys_state_up :: "env \<Rightarrow> sys \<Rightarrow> sys option" where
  "check_sys_state_up E s =
     (if g_sys_state s \<noteq> STATE_STARTING then Some s
      else if list_ex (\<lambda>i. GET_STATE s i = IS_STARTING) (rev (g_active_db s)) then Some s
      else initng_main_set_sys_state E STATE_UP s)"

text \<open>The body of \<open>dep_failed_to_start\<close> is compiled out.\<close>

definition dep_failed_to_start :: "sid \<Rightarrow> sys \<Rightarrow> sys" where
  "dep_failed_to_start service s = s"

text \<open>An event sent with the state of the service locked; the second component tells whether the
  state changed meanwhile.\<close>

definition send_locked :: "env \<Rightarrow> s_event_type \<Rightarrow> sid \<Rightarrow> sys \<Rightarrow> (int \<times> sys) option" where
  "send_locked E t service s = do {
     (ev, s) \<leftarrow> initng_event_send E (event t (ED_service service)) (initng_common_state_lock service s);
     Some (initng_common_state_unlock service s) }"

definition is_changed :: "env \<Rightarrow> sid \<Rightarrow> sys \<Rightarrow> sys option" where
  "is_changed E service s =
     (case GET_STATE s service of
        IS_FAILED \<Rightarrow> check_sys_state_up E (dep_failed_to_start service s)
      | IS_UP \<Rightarrow> check_sys_state_up E s
      | IS_DOWN \<Rightarrow> (if is_set RESTARTING service s then initng_handler_restart_restarting E s else Some s)
      | _ \<Rightarrow> Some s)"

definition run_init :: "env \<Rightarrow> sid \<Rightarrow> sys \<Rightarrow> sys option" where
  "run_init E service s = (case st_init (a_current_state (svc s service)) of
     None \<Rightarrow> Some s | Some f \<Rightarrow> e_state_fn E f service s)"

definition handle :: "env \<Rightarrow> sid \<Rightarrow> sys \<Rightarrow> sys option" where
  "handle E service s =
     (let state = a_current_state (svc s service) in do {
        (changed, s) \<leftarrow> send_locked E EVENT_STATE_CHANGE service s;
        (if changed \<noteq> FALSE then Some s
         else if a_last_rought_state (svc s service) \<noteq> st_is state then do {
           (changed, s) \<leftarrow> send_locked E EVENT_IS_CHANGE service s;
           (if changed \<noteq> FALSE then Some s
            else do {
              s \<leftarrow> is_changed E service s;
              run_init E service s }) }
         else run_init E service s) })"

definition run_handlers_body :: "env \<Rightarrow> sid \<Rightarrow> sys \<Rightarrow> (unit option \<times> sys) option" where
  "run_handlers_body E current s =
     (case st_interrupt (a_current_state (svc s current)) of
        None \<Rightarrow> Some (None, s)
      | Some f \<Rightarrow> do { s \<leftarrow> e_state_fn E f current s; Some (None, s) })"

definition run_interrupt_handlers :: "env \<Rightarrow> sys \<Rightarrow> sys option" where
  "run_interrupt_handlers E s =
     map_option snd (while_list_safe g_active_db (run_handlers_body E) (e_fuel E) s)"

definition interrupt_body :: "env \<Rightarrow> sid \<Rightarrow> int \<times> sys \<Rightarrow> (unit option \<times> (int \<times> sys)) option" where
  "interrupt_body E service x =
     (let s = snd x in do {
        s \<leftarrow> handle E service (s\<lparr>g_interrupt := list_del service (g_interrupt s)\<rparr>);
        Some (None, (TRUE, s)) })"

definition initng_interrupt :: "env \<Rightarrow> sys \<Rightarrow> (int \<times> sys) option" where
  "initng_interrupt E s = do {
     (r, (interrupt, s)) \<leftarrow> while_list_safe (\<lambda>x. g_interrupt (snd x)) (interrupt_body E) (e_fuel E) (FALSE, s);
     s \<leftarrow> (if interrupt \<noteq> FALSE then run_interrupt_handlers E s else Some s);
     Some (interrupt, s) }"

end
