(* ===== verification/Process_Control.thy ===== *)
theory Process_Control
  imports Interrupt
begin

text \<open>
  The life of a process outside its service type: launching it (src/main/execute), reading what
  it writes (src/main/io/read_input.c and pipe.c), its death (src/main/kill) and the signals of
  src/main/signal. Of a pipe the model has the descriptors, the direction, the content of the
  buffer and the number of bytes the code believes allocated; the block behind the buffer is
  one byte longer than that. A write behind the block is the result None.
\<close>

section \<open>Pipes\<close>

definition pipe_at :: "sid \<Rightarrow> nat \<Rightarrow> nat \<Rightarrow> sys \<Rightarrow> pipe_h option" where
  "pipe_at i pa n s = (case process_at i pa s of
     None \<Rightarrow> None
   | Some p \<Rightarrow> if n < length (p_pipes p) then Some (p_pipes p ! n) else None)"

definition upd_pipe :: "sid \<Rightarrow> nat \<Rightarrow> nat \<Rightarrow> (pipe_h \<Rightarrow> pipe_h) \<Rightarrow> sys \<Rightarrow> sys" where
  "upd_pipe i pa n f = upd_process i pa (\<lambda>p. p\<lparr>p_pipes := (p_pipes p)[n := f (p_pipes p ! n)]\<rparr>)"

definition add_effects :: "effect list \<Rightarrow> sys \<Rightarrow> sys" where
  "add_effects es s = s\<lparr>g_effects := g_effects s @ es\<rparr>"

text \<open>
  The read loop: before each read the buffer is made larger if fewer than 100 bytes are left.
  The result is the return value of the last read, the content and the allocated size. One call
  of read returns at most 100 bytes.
\<close>

fun read_loop :: "read_result list \<Rightarrow> string \<Rightarrow> nat \<Rightarrow> (int \<times> string \<times> nat) option" where
  "read_loop rs buf alloc =
     (let alloc = (if alloc \<le> length buf + 100 then alloc + 100 else alloc) in
      if alloc < length buf + 100 then None
      else case rs of
        Read_got w # rs \<Rightarrow>
          (let w = take 100 w in
           if w = [] then Some (0, buf, alloc)
           else if 100 \<le> length w then read_loop rs (buf @ w) alloc
           else Some (int (length w), buf @ w, alloc))
      | Read_eof # rs \<Rightarrow> Some (0, buf, alloc)
      | _ \<Rightarrow> Some (-1, buf, alloc))"

definition initng_io_module_readpipe :: "env \<Rightarrow> sid \<Rightarrow> nat \<Rightarrow> nat \<Rightarrow> string \<Rightarrow> sys \<Rightarrow> sys option" where
  "initng_io_module_readpipe E i pa n pos s = do {
     (ev, s) \<leftarrow> initng_event_send E (event EVENT_BUFFER_WATCHER (ED_buffer i pa n pos)) s;
     Some (if ev_status ev = FAILED then add_effects [Eff_print pos] s else s) }"

definition initng_io_pipe :: "env \<Rightarrow> sid \<Rightarrow> nat \<Rightarrow> nat \<Rightarrow> sys \<Rightarrow> (bool \<times> sys) option" where
  "initng_io_pipe E i pa n s = do {
     (ev, s) \<leftarrow> initng_event_send E (event EVENT_PIPE_WATCHER (ED_pipe i pa n)) s;
     Some (ev_status ev = HANDLED, s) }"

text \<open>What happens to the buffer after the modules have seen it, by the last return value.\<close>

definition buffer_done :: "int \<Rightarrow> pipe_h \<Rightarrow> pipe_h \<times> effect list" where
  "buffer_done read_ret q =
     (let q = (if pipe_buffer q = [] then q\<lparr>pipe_buffer_allocated := 0\<rparr> else q) in
      if read_ret = 0 then
        (let es = pipe_closes q;
             q = q\<lparr>pipe_fd := (-1, -1)\<rparr>;
             len = length (pipe_buffer q)
         in (if 0 < pipe_buffer_allocated q \<and> len + 1 < pipe_buffer_allocated q
             then q\<lparr>pipe_buffer_allocated := len\<rparr> else q, es))
      else if 10000 < length (pipe_buffer q) then
        (q\<lparr>pipe_buffer := drop (length (pipe_buffer q) - 9000) (pipe_buffer q), pipe_buffer_allocated := 9500\<rparr>, [])
      else (q, []))"

definition initng_io_process_read_input :: "env \<Rightarrow> sid \<Rightarrow> nat \<Rightarrow> nat \<Rightarrow> sys \<Rightarrow> sys option" where
  "initng_io_process_read_input E i pa n s = do {
     q \<leftarrow> pipe_at i pa n s;
     (if fst (pipe_fd q) \<le> 0 then Some s
      else do {
        (read_ret, buf, alloc) \<leftarrow> read_loop (e_read E (fst (pipe_fd q)) s) (pipe_buffer q) (pipe_buffer_allocated q);
        (let s = upd_pipe i pa n (\<lambda>q. q\<lparr>pipe_buffer := buf, pipe_buffer_allocated := alloc\<rparr>) s in do {
           s \<leftarrow> (if length (pipe_buffer q) < length buf
                 then initng_io_module_readpipe E i pa n (drop (length (pipe_buffer q)) buf) s else Some s);
           q \<leftarrow> pipe_at i pa n s;
           (let (q', es) = buffer_done read_ret q
            in Some (add_effects es (upd_pipe i pa n (\<lambda>_. q') s))) }) }) }"

section \<open>Launching\<close>

definition initng_execute_launch :: "env \<Rightarrow> sid \<Rightarrow> ptype_h \<Rightarrow> string option \<Rightarrow> sys \<Rightarrow> (int \<times> sys) option" where
  "initng_execute_launch E service type exec_name s =
     (if initng_process_db_get type service s \<noteq> None then Some (FALSE, s)
      else
        (let (process, s) = initng_process_db_new type s;
             s = add_process process service s;
             name = (case exec_name of None \<Rightarrow> pt_name type | Some n \<Rightarrow> n) in do {
           (ev, s) \<leftarrow> initng_event_send E (event EVENT_LAUNCH (ED_launch service (p_addr process) name)) s;
           (if ev_status ev = HANDLED then Some (TRUE, s)
            else Some (FALSE, initng_process_db_free service (p_addr process) s)) }))"

section \<open>A process has died\<close>

definition close_pipe_body :: "env \<Rightarrow> sid \<Rightarrow> nat \<Rightarrow> nat \<Rightarrow> sys \<Rightarrow> (unit option \<times> sys) option" where
  "close_pipe_body E i pa n s = do {
     q \<leftarrow> pipe_at i pa n s;
     (if pipe_dir q \<in> {OUT_PIPE, BUFFERED_OUT_PIPE} \<and> 0 < fst (pipe_fd q) then do {
        s \<leftarrow> initng_io_process_read_input E i pa n s;
        q \<leftarrow> pipe_at i pa n s;
        Some (None, add_effects [Eff_close (fst (pipe_fd q))]
          (upd_pipe i pa n (\<lambda>q. q\<lparr>pipe_fd := (-1, snd (pipe_fd q))\<rparr>) s)) }
      else if pipe_dir q \<in> {IN_PIPE, IN_AND_OUT_PIPE} \<and> 0 < snd (pipe_fd q) then
        Some (None, add_effects [Eff_close (snd (pipe_fd q))]
          (upd_pipe i pa n (\<lambda>q. q\<lparr>pipe_fd := (fst (pipe_fd q), -1)\<rparr>) s))
      else Some (None, s)) }"

definition initng_kill_handler_killed_by_pid :: "env \<Rightarrow> int \<Rightarrow> int \<Rightarrow> sys \<Rightarrow> sys option" where
  "initng_kill_handler_killed_by_pid E kpid r_code s =
     (if kpid \<le> 1 then Some s
      else case initng_active_db_find_by_pid kpid s of
        None \<Rightarrow> Some s
      | Some service \<Rightarrow>
          (case initng_process_db_get_by_pid kpid service s of
             None \<Rightarrow> Some s
           | Some process \<Rightarrow>
               (let pa = p_addr process;
                    s = upd_process service pa (\<lambda>p. p\<lparr>p_r_code := r_code\<rparr>) s in do {
                  (r, s) \<leftarrow> each (close_pipe_body E service pa) (rev [0..<length (p_pipes process)]) s;
                  (handled, s) \<leftarrow> initng_module_callers_handle_killed E service pa s;
                  (if handled \<noteq> FALSE then Some s
                   else case pt_kill_handler (p_pt process) of
                     Some f \<Rightarrow> e_kill_fn E f service pa s
                   | None \<Rightarrow> Some (initng_process_db_free service pa s)) })))"

section \<open>Signals\<close>

definition SIGCHLD :: int where "SIGCHLD = 17"

definition SIGALRM :: int where "SIGALRM = 14"

definition SIGKILL :: int where "SIGKILL = 9"

definition SIGTERM :: int where "SIGTERM = 15"

text \<open>The signal handler: the signal goes to the first slot that is free or has it already.\<close>

fun set_signal_walk :: "int \<Rightarrow> int list \<Rightarrow> int list" where
  "set_signal_walk sig [] = []"
| "set_signal_walk sig (x # xs) =
     (if x = sig then x # xs else if x = -1 then sig # xs else x # set_signal_walk sig xs)"

definition set_signal :: "int \<Rightarrow> sys \<Rightarrow> sys" where
  "set_signal sig s = s\<lparr>g_signals_got := set_signal_walk sig (g_signals_got s)\<rparr>"

definition initng_signal_enable :: "sys \<Rightarrow> sys" where
  "initng_signal_enable s = s\<lparr>g_signals_got := replicate 10 (-1)\<rparr>"

fun sigchild_loop :: "env \<Rightarrow> (int \<times> int) list \<Rightarrow> sys \<Rightarrow> sys option" where
  "sigchild_loop E [] s = Some s"
| "sigchild_loop E ((killed, status) # rest) s =
     (if killed \<le> 0 then Some s
      else do {
        s \<leftarrow> initng_kill_handler_killed_by_pid E killed status s;
        sigchild_loop E rest s })"

definition initng_signal_handle_sigchild :: "env \<Rightarrow> sys \<Rightarrow> sys option" where
  "initng_signal_handle_sigchild E s = sigchild_loop E (e_waitpid E s) s"

definition dispatch_slot :: "env \<Rightarrow> nat \<Rightarrow> sys \<Rightarrow> sys option" where
  "dispatch_slot E i s =
     (let sig = g_signals_got s ! i in
      if sig = -1 then Some s
      else do {
        s \<leftarrow> initng_module_callers_signal E sig (s\<lparr>g_signals_got := (g_signals_got s)[i := -1]\<rparr>);
        (if sig = SIGCHLD then initng_signal_handle_sigchild E s
         else if sig = SIGALRM then initng_handler_run_alarm E s
         else Some s) })"

fun dispatch_from :: "env \<Rightarrow> nat list \<Rightarrow> sys \<Rightarrow> sys option" where
  "dispatch_from E [] s = Some s"
| "dispatch_from E (i # is) s = do { s \<leftarrow> dispatch_slot E i s; dispatch_from E is s }"

definition initng_signal_dispatch :: "env \<Rightarrow> sys \<Rightarrow> sys option" where
  "initng_signal_dispatch E s = dispatch_from E [0..<10] s"

section \<open>Lemmas\<close>

declare read_loop.simps [simp del]

definition pipe_ok :: "pipe_h \<Rightarrow> bool" where
  "pipe_ok q = (length (pipe_buffer q) \<le> pipe_buffer_allocated q)"

lemma read_loop_in_bounds:
  "length buf \<le> alloc \<Longrightarrow> \<exists>r w alloc'. read_loop rs buf alloc = Some (r, buf @ w, alloc') \<and> length (buf @ w) \<le> alloc'"
proof (induction rs arbitrary: buf alloc)
  case Nil
  then show ?case by (auto simp: read_loop.simps [of "[]"] Let_def intro!: exI [of _ "[]"])
next
  case (Cons x rs)
  define a where "a = (if alloc \<le> length buf + 100 then alloc + 100 else alloc)"
  have a: "length buf + 100 \<le> a" using Cons.prems by (simp add: a_def)
  note unfold = read_loop.simps [of "x # rs" buf alloc, folded a_def]
  show ?case
  proof (cases x)
    case (Read_got w)
    let ?w = "take 100 w"
    consider "?w = []" | "?w \<noteq> []" "length ?w < 100" | "100 \<le> length ?w" by linarith
    then show ?thesis
    proof cases
      case 1
      with Read_got a unfold show ?thesis by (auto simp: Let_def intro!: exI [of _ "[]"])
    next
      case 2
      with Read_got a unfold show ?thesis by (auto simp: Let_def intro!: exI [of _ ?w])
    next
      case 3
      with Read_got a have step: "read_loop (x # rs) buf alloc = read_loop rs (buf @ ?w) a"
        by (subst unfold) (auto simp: Let_def)
      have "length (buf @ ?w) \<le> a" using a by simp
      from Cons.IH [OF this] step show ?thesis by auto
    qed
  qed (use a unfold in \<open>auto simp: Let_def intro!: exI [of _ "[]"]\<close>)
qed

lemma buffer_done_ok:
  "pipe_ok q \<Longrightarrow> buffer_done r q = (q', es) \<Longrightarrow> pipe_ok q' \<and> (r \<noteq> 0 \<longrightarrow> length (pipe_buffer q') \<le> 10000)
     \<and> (r = 0 \<longrightarrow> pipe_fd q' = (-1, -1))"
  by (auto simp: buffer_done_def pipe_ok_def Let_def split: if_splits)

lemma process_at_upd:
  "process_at i pa s = Some p \<Longrightarrow> (\<And>p. p_addr (f p) = p_addr p) \<Longrightarrow>
    process_at i pa (upd_process i pa f s) = Some (f p)"
proof -
  assume p: "process_at i pa s = Some p" and f: "\<And>p. p_addr (f p) = p_addr p"
  have "find (\<lambda>q. p_addr q = pa) (map (\<lambda>q. if p_addr q = pa then f q else q) ps) = Some (f p)"
    if "find (\<lambda>q. p_addr q = pa) ps = Some p" for ps :: "process_h list"
    using that by (induction ps) (auto simp: f split: if_splits)
  with p show ?thesis by (simp add: process_at_def upd_process_def)
qed

lemma pipe_at_upd: "pipe_at i pa n s = Some q \<Longrightarrow> pipe_at i pa n (upd_pipe i pa n f s) = Some (f q)"
  by (auto simp: pipe_at_def upd_pipe_def process_at_upd split: option.splits if_splits)

lemma upd_pipe_simps [simp]:
  "g_hooks (upd_pipe i pa n f s) = g_hooks s" "g_active_db (upd_pipe i pa n f s) = g_active_db s"
  "g_hooks (add_effects es s) = g_hooks s" "svc (add_effects es s) = svc s"
  "g_active_db (add_effects es s) = g_active_db s" "g_effects (add_effects es s) = g_effects s @ es"
  by (simp_all add: upd_pipe_def upd_process_def add_effects_def)

lemma pipe_at_effects [simp]: "pipe_at i pa n (add_effects es s) = pipe_at i pa n s"
  by (simp add: pipe_at_def process_at_def)

text \<open>At most one active process of each type.\<close>

definition one_active :: "sys \<Rightarrow> bool" where
  "one_active s = (\<forall>i ty. length (filter (\<lambda>p. p_pst p = P_ACTIVE \<and> p_pt p = ty) (a_processes (svc s i))) \<le> 1)"

lemma one_active_free: "one_active s \<Longrightarrow> one_active (initng_process_db_free i pa s)"
proof -
  have "length (filter (\<lambda>p. p_pst p = P_ACTIVE \<and> p_pt p = ty)
      (map (\<lambda>p. if p_addr p = pa then p\<lparr>p_pst := P_FREE\<rparr> else p) ps))
    \<le> length (filter (\<lambda>p. p_pst p = P_ACTIVE \<and> p_pt p = ty) ps)" for ty and ps :: "process_h list"
    by (induction ps) auto
  from order_trans [OF this] show "one_active s \<Longrightarrow> one_active (initng_process_db_free i pa s)"
    unfolding one_active_def initng_process_db_free_def upd_process_def
    by (simp del: filter_map)
qed

lemma one_active_launch:
  assumes "one_active s" and "initng_process_db_get ty i s = None" and "p_pt p = ty"
  shows "one_active (add_process p i s)"
proof -
  have "filter (\<lambda>p. p_pst p = P_ACTIVE \<and> p_pt p = ty) (a_processes (svc s i)) = []"
    using assms(2) by (auto simp: initng_process_db_get_def find_None_iff filter_empty_conv)
  with assms(1,3) show ?thesis by (auto simp: one_active_def add_process_def list_add_def)
qed

text \<open>Launching keeps it, when the hooks that launch processes do.\<close>

locale launch_contract = hook_invariant E EVENT_LAUNCH one_active for E
begin

lemma launch_keeps:
  assumes "one_active s" and "initng_execute_launch E i ty n s = Some (r, t)"
  shows "one_active t \<and> r \<in> {TRUE, FALSE}"
proof (cases "initng_process_db_get ty i s = None")
  case True
  obtain p u where p: "initng_process_db_new ty s = (p, u)" by force
  then have u: "one_active u" "initng_process_db_get ty i u = None" "p_pt p = ty"
    using True assms(1)
    by (auto simp: initng_process_db_new_def bump_addr_def one_active_def initng_process_db_get_def Let_def)
  from assms(2) True p obtain ev w where
    send: "initng_event_send E (event EVENT_LAUNCH (ED_launch i (p_addr p) (case n of None \<Rightarrow> pt_name ty | Some n \<Rightarrow> n)))
      (add_process p i u) = Some (ev, w)"
    and t: "(r, t) = (if ev_status ev = HANDLED then (TRUE, w) else (FALSE, initng_process_db_free i (p_addr p) w))"
    by (auto simp: initng_execute_launch_def split: bind_splits if_splits)
  have "one_active w" by (rule send_keeps [OF send]) (simp, rule one_active_launch [OF u])
  with t one_active_free show ?thesis by (auto split: if_splits)
next
  case False
  with assms show ?thesis by (simp add: initng_execute_launch_def)
qed

end

section \<open>Properties\<close>



text \<open>C38: the death of a process is lost when its pid was used before. If the first service that
  ever ran a process with the pid has only a finished one, the lookup by pid stops at that
  service, the process is not found there, and nothing happens at all, although another service
  may have the live process.\<close>

theorem killed_pid_reused_ignored:
  assumes "initng_active_db_find_by_pid pid s = Some i"
    and "\<forall>p \<in> set (a_processes (svc s i)). p_pid p = pid \<longrightarrow> p_pst p = P_FREE"
  shows "initng_kill_handler_killed_by_pid E pid r s = Some s"
proof -
  have "initng_process_db_get_by_pid pid i s = None"
    using assms(2) by (auto simp: initng_process_db_get_by_pid_def find_None_iff)
  with assms(1) show ?thesis by (simp add: initng_kill_handler_killed_by_pid_def)
qed

theorem killed_pid_reused_ignored_witness:
  "let p = \<lparr>p_addr = 3, p_pt = \<lparr>pt_name = ''start'', pt_kill_handler = None\<rparr>, p_pid = 77, p_r_code = 0, p_pipes = [],
          p_pst = P_FREE\<rparr>;
     s = tiny_sys [(tiny_service ''a'' NEW [])\<lparr>a_processes := [p]\<rparr>,
       (tiny_service ''b'' NEW [])\<lparr>a_processes := [p\<lparr>p_addr := 4, p_pst := P_ACTIVE\<rparr>]\<rparr>]
   in initng_kill_handler_killed_by_pid tiny_env 77 0 s = Some s"
  unfolding Let_def
  by (rule killed_pid_reused_ignored [where i = 0]) (simp_all add: initng_active_db_find_by_pid_def)

text \<open>The signals in the order in which each arrived first.\<close>

definition arrivals :: "int list \<Rightarrow> int list" where
  "arrivals sigs = rev (remdups (rev sigs))"

lemma arrivals_snoc: "arrivals (sigs @ [x]) = (if x \<in> set sigs then arrivals sigs else arrivals sigs @ [x])"
  by (simp add: arrivals_def)

lemma set_signal_walk_slots:
  "-1 \<notin> set ys \<Longrightarrow> sig \<noteq> -1 \<Longrightarrow> set_signal_walk sig (ys @ replicate m (-1)) =
    (if sig \<in> set ys \<or> m = 0 then ys @ replicate m (-1) else ys @ [sig] @ replicate (m - 1) (-1))"
  by (induction ys) (auto simp: gr0_conv_Suc neq0_conv split: nat.splits elim: set_signal_walk.elims)

text \<open>Signals are remembered in the order of their arrival, each once. After any signals have
  arrived, the slots hold the first ten different ones in the order in which each came first, and
  the remaining slots are free; only an eleventh different signal would be lost.\<close>

theorem signals_recorded:
  assumes "-1 \<notin> set sigs"
  shows "g_signals_got (fold set_signal sigs (initng_signal_enable s)) =
    take 10 (arrivals sigs) @ replicate (10 - length (arrivals sigs)) (-1)"
  using assms
proof (induction sigs rule: rev_induct)
  case Nil
  then show ?case by (simp add: initng_signal_enable_def arrivals_def)
next
  case (snoc x xs)
  let ?a = "arrivals xs"
  have set: "set ?a = set xs" by (simp add: arrivals_def)
  have walk: "set_signal_walk x (take 10 ?a @ replicate (10 - length ?a) (-1)) =
      (if x \<in> set (take 10 ?a) \<or> 10 - length ?a = 0 then take 10 ?a @ replicate (10 - length ?a) (-1)
       else take 10 ?a @ [x] @ replicate (10 - length ?a - 1) (-1))"
    by (rule set_signal_walk_slots) (use snoc.prems set in \<open>auto dest: in_set_takeD\<close>)
  show ?case
  proof (cases "length ?a < 10")
    case True
    with walk snoc set show ?thesis by (simp add: set_signal_def arrivals_snoc)
  next
    case False
    with walk snoc set show ?thesis by (simp add: set_signal_def arrivals_snoc)
  qed
qed

theorem signals_recorded_witness:
  "g_signals_got (fold set_signal [SIGCHLD, SIGALRM, SIGCHLD] (initng_signal_enable (tiny_sys []))) =
    [SIGCHLD, SIGALRM] @ replicate 8 (-1)"
  using signals_recorded [of "[SIGCHLD, SIGALRM, SIGCHLD]" "tiny_sys []"]
  by (simp add: arrivals_def SIGCHLD_def SIGALRM_def)

end
