(* ===== verification/Service_Type.thy ===== *)
theory Service_Type
  imports Process_Control
begin

text \<open>
  The service type of modules/service: a start script runs when the service is started, a stop
  script when it is stopped. The functions of the module are known to the core by the pointers
  in its type, its states and its process types.
\<close>

section \<open>The type, its processes and variables\<close>

definition TYPE_SERVICE :: stype_h where
  "TYPE_SERVICE = \<lparr>sty_name = ''service'', sty_hidden = False, sty_start = Some ''start_SERVICE'',
     sty_stop = Some ''stop_SERVICE'', sty_restart = None\<rparr>"

definition T_START :: ptype_h where
  "T_START = \<lparr>pt_name = ''start'', pt_kill_handler = Some ''service_handle_killed_start''\<rparr>"

definition T_STOP :: ptype_h where
  "T_STOP = \<lparr>pt_name = ''stop'', pt_kill_handler = Some ''service_handle_killed_stop''\<rparr>"

definition DEFAULT_START_TIMEOUT :: int where "DEFAULT_START_TIMEOUT = 240"

definition DEFAULT_STOP_TIMEOUT :: int where "DEFAULT_STOP_TIMEOUT = 60"

definition START_TIMEOUT :: s_entry where "START_TIMEOUT = S_Entry ''start_timeout'' INT_T None"

definition STOP_TIMEOUT :: s_entry where "STOP_TIMEOUT = S_Entry ''stop_timeout'' INT_T None"

definition NEVER_KILL :: s_entry where "NEVER_KILL = S_Entry ''never_kill'' SET None"

definition START_FAIL_OK :: s_entry where "START_FAIL_OK = S_Entry ''start_fail_ok'' SET None"

definition STOP_FAIL_OK :: s_entry where "STOP_FAIL_OK = S_Entry ''stop_fail_ok'' SET None"

section \<open>The states\<close>

definition SERVICE_START_MARKED :: a_state_h where
  "SERVICE_START_MARKED = \<lparr>st_name = ''SERVICE_START_MARKED'', st_is = IS_STARTING, st_interrupt = None,
     st_init = Some ''init_SERVICE_START_MARKED'', st_alarm = None\<rparr>"

definition SERVICE_STOP_MARKED :: a_state_h where
  "SERVICE_STOP_MARKED = \<lparr>st_name = ''SERVICE_STOP_MARKED'', st_is = IS_STOPPING, st_interrupt = None,
     st_init = Some ''init_SERVICE_STOP_MARKED'', st_alarm = None\<rparr>"

definition SERVICE_DONE :: a_state_h where
  "SERVICE_DONE = \<lparr>st_name = ''SERVICE_DONE'', st_is = IS_UP, st_interrupt = None,
     st_init = None, st_alarm = None\<rparr>"

definition SERVICE_WAITING_FOR_START_DEP :: a_state_h where
  "SERVICE_WAITING_FOR_START_DEP = \<lparr>st_name = ''SERVICE_WAITING_FOR_START_DEP'', st_is = IS_STARTING, st_interrupt = Some ''handle_SERVICE_WAITING_FOR_START_DEP'',
     st_init = None, st_alarm = None\<rparr>"

definition SERVICE_WAITING_FOR_STOP_DEP :: a_state_h where
  "SERVICE_WAITING_FOR_STOP_DEP = \<lparr>st_name = ''SERVICE_WAITING_FOR_STOP_DEP'', st_is = IS_STOPPING, st_interrupt = Some ''handle_SERVICE_WAITING_FOR_STOP_DEP'',
     st_init = None, st_alarm = None\<rparr>"

definition SERVICE_START_DEPS_MET :: a_state_h where
  "SERVICE_START_DEPS_MET = \<lparr>st_name = ''SERVICE_START_DEPS_MET'', st_is = IS_STARTING, st_interrupt = None,
     st_init = Some ''init_SERVICE_START_DEPS_MET'', st_alarm = None\<rparr>"

definition SERVICE_STOP_DEPS_MET :: a_state_h where
  "SERVICE_STOP_DEPS_MET = \<lparr>st_name = ''SERVICE_STOP_DEPS_MET'', st_is = IS_STOPPING, st_interrupt = None,
     st_init = Some ''init_SERVICE_STOP_DEPS_MET'', st_alarm = None\<rparr>"

definition SERVICE_STOPPED :: a_state_h where
  "SERVICE_STOPPED = \<lparr>st_name = ''SERVICE_STOPPED'', st_is = IS_DOWN, st_interrupt = None,
     st_init = None, st_alarm = None\<rparr>"

definition SERVICE_START_RUN :: a_state_h where
  "SERVICE_START_RUN = \<lparr>st_name = ''SERVICE_START_RUN'', st_is = IS_STARTING, st_interrupt = None,
     st_init = Some ''init_SERVICE_START_RUN'', st_alarm = Some ''timeout_SERVICE_START_RUN''\<rparr>"

definition SERVICE_STOP_RUN :: a_state_h where
  "SERVICE_STOP_RUN = \<lparr>st_name = ''SERVICE_STOP_RUN'', st_is = IS_STOPPING, st_interrupt = None,
     st_init = Some ''init_SERVICE_STOP_RUN'', st_alarm = Some ''timeout_SERVICE_STOP_RUN''\<rparr>"

text \<open>The failures.\<close>

definition SERVICE_START_DEPS_FAILED :: a_state_h where "SERVICE_START_DEPS_FAILED = plain_state ''SERVICE_START_DEPS_FAILED'' IS_FAILED"

definition SERVICE_FAIL_START_LAUNCH :: a_state_h where "SERVICE_FAIL_START_LAUNCH = plain_state ''SERVICE_FAIL_START_LAUNCH'' IS_FAILED"

definition SERVICE_FAIL_START_NONEXIST :: a_state_h where "SERVICE_FAIL_START_NONEXIST = plain_state ''SERVICE_FAIL_START_NONEXIST'' IS_FAILED"

definition SERVICE_FAIL_START_RCODE :: a_state_h where "SERVICE_FAIL_START_RCODE = plain_state ''SERVICE_FAIL_START_RCODE'' IS_FAILED"

definition SERVICE_FAIL_START_SIGNAL :: a_state_h where "SERVICE_FAIL_START_SIGNAL = plain_state ''SERVICE_FAIL_START_SIGNAL'' IS_FAILED"

definition SERVICE_START_FAILED_TIMEOUT :: a_state_h where "SERVICE_START_FAILED_TIMEOUT = plain_state ''SERVICE_START_FAILED_TIMEOUT'' IS_FAILED"

definition SERVICE_STOP_DEPS_FAILED :: a_state_h where "SERVICE_STOP_DEPS_FAILED = plain_state ''SERVICE_STOP_DEPS_FAILED'' IS_FAILED"

definition SERVICE_FAIL_STOP_NONEXIST :: a_state_h where "SERVICE_FAIL_STOP_NONEXIST = plain_state ''SERVICE_FAIL_STOP_NONEXIST'' IS_FAILED"

definition SERVICE_FAIL_STOP_RCODE :: a_state_h where "SERVICE_FAIL_STOP_RCODE = plain_state ''SERVICE_FAIL_STOP_RCODE'' IS_FAILED"

definition SERVICE_FAIL_STOP_SIGNAL :: a_state_h where "SERVICE_FAIL_STOP_SIGNAL = plain_state ''SERVICE_FAIL_STOP_SIGNAL'' IS_FAILED"

definition SERVICE_STOP_FAILED_TIMEOUT :: a_state_h where "SERVICE_STOP_FAILED_TIMEOUT = plain_state ''SERVICE_STOP_FAILED_TIMEOUT'' IS_FAILED"

definition SERVICE_UP_CHECK_FAILED :: a_state_h where "SERVICE_UP_CHECK_FAILED = plain_state ''SERVICE_UP_CHECK_FAILED'' IS_FAILED"

lemmas service_states = SERVICE_START_MARKED_def SERVICE_STOP_MARKED_def SERVICE_DONE_def SERVICE_WAITING_FOR_START_DEP_def SERVICE_WAITING_FOR_STOP_DEP_def SERVICE_START_DEPS_MET_def SERVICE_STOP_DEPS_MET_def SERVICE_STOPPED_def SERVICE_START_RUN_def SERVICE_STOP_RUN_def SERVICE_START_DEPS_FAILED_def SERVICE_FAIL_START_LAUNCH_def SERVICE_FAIL_START_NONEXIST_def SERVICE_FAIL_START_RCODE_def SERVICE_FAIL_START_SIGNAL_def SERVICE_START_FAILED_TIMEOUT_def SERVICE_STOP_DEPS_FAILED_def SERVICE_FAIL_STOP_NONEXIST_def SERVICE_FAIL_STOP_RCODE_def SERVICE_FAIL_STOP_SIGNAL_def SERVICE_STOP_FAILED_TIMEOUT_def SERVICE_UP_CHECK_FAILED_def

section \<open>Type handlers\<close>

definition start_SERVICE :: "sid \<Rightarrow> sys \<Rightarrow> (int \<times> sys) option" where
  "start_SERVICE service s =
     (if IS_MARK s service SERVICE_WAITING_FOR_STOP_DEP
      then Some (TRUE, snd (initng_common_mark_service service SERVICE_DONE s))
      else
        (let (r, s) = initng_common_mark_service service SERVICE_START_MARKED s
         in if r = FALSE then Some (FALSE, s) else Some (TRUE, s)))"

definition stop_SERVICE :: "sid \<Rightarrow> sys \<Rightarrow> (int \<times> sys) option" where
  "stop_SERVICE service s =
     (if IS_MARK s service SERVICE_WAITING_FOR_START_DEP
      then Some (TRUE, snd (initng_common_mark_service service SERVICE_STOPPED s))
      else
        (let (r, s) = initng_common_mark_service service SERVICE_STOP_MARKED s
         in if r = FALSE then Some (FALSE, s) else Some (TRUE, s)))"

section \<open>Init and interrupt functions of the states\<close>

definition mark :: "sid \<Rightarrow> a_state_h \<Rightarrow> sys \<Rightarrow> sys" where
  "mark i st s = snd (initng_common_mark_service i st s)"

definition init_SERVICE_START_MARKED :: "env \<Rightarrow> sid \<Rightarrow> sys \<Rightarrow> sys option" where
  "init_SERVICE_START_MARKED E service s = do {
     (r, s) \<leftarrow> initng_depend_start_deps E (start_service E) (initng_handler_start_new_service_named E) service s;
     Some (if r \<noteq> TRUE then mark service SERVICE_START_DEPS_FAILED s
           else mark service SERVICE_WAITING_FOR_START_DEP s) }"

definition init_SERVICE_STOP_MARKED :: "env \<Rightarrow> sid \<Rightarrow> sys \<Rightarrow> sys option" where
  "init_SERVICE_STOP_MARKED E service s = do {
     (r, s) \<leftarrow> initng_depend_stop_deps E (initng_handler_stop_service E) service s;
     Some (if r \<noteq> TRUE then mark service SERVICE_STOP_DEPS_FAILED s
           else mark service SERVICE_WAITING_FOR_STOP_DEP s) }"

definition handle_SERVICE_WAITING_FOR_START_DEP :: "env \<Rightarrow> sid \<Rightarrow> sys \<Rightarrow> sys option" where
  "handle_SERVICE_WAITING_FOR_START_DEP E service s = do {
     (r, s) \<leftarrow> initng_depend_start_dep_met E (start_service E) service s;
     Some (if r = TRUE then
             (if g_sys_state s \<noteq> STATE_STARTING \<and> g_sys_state s \<noteq> STATE_UP then mark service SERVICE_STOPPED s
              else mark service SERVICE_START_DEPS_MET s)
           else if r = FAIL then mark service SERVICE_START_DEPS_FAILED s
           else s) }"

definition handle_SERVICE_WAITING_FOR_STOP_DEP :: "env \<Rightarrow> sid \<Rightarrow> sys \<Rightarrow> sys option" where
  "handle_SERVICE_WAITING_FOR_STOP_DEP E service s = do {
     (r, s) \<leftarrow> initng_depend_stop_dep_met E service s;
     Some (if r \<noteq> TRUE then s else mark service SERVICE_STOP_DEPS_MET s) }"

definition init_SERVICE_START_DEPS_MET :: "env \<Rightarrow> sid \<Rightarrow> sys \<Rightarrow> sys option" where
  "init_SERVICE_START_DEPS_MET E service s =
     (let (m, s) = initng_common_mark_service service SERVICE_START_RUN s in
      if m = FALSE then Some s
      else do {
        (r, s) \<leftarrow> initng_execute_launch E service T_START None s;
        Some (if r = FALSE then mark service SERVICE_FAIL_START_NONEXIST s
              else if r = FAIL then mark service SERVICE_FAIL_START_LAUNCH s
              else s) })"

definition init_SERVICE_STOP_DEPS_MET :: "env \<Rightarrow> sid \<Rightarrow> sys \<Rightarrow> sys option" where
  "init_SERVICE_STOP_DEPS_MET E service s =
     (let (m, s) = initng_common_mark_service service SERVICE_STOP_RUN s in
      if m = FALSE then Some s
      else do {
        (r, s) \<leftarrow> initng_execute_launch E service T_STOP None s;
        Some (if r = FAIL then mark service SERVICE_FAIL_STOP_NONEXIST s
              else if r = FALSE then mark service SERVICE_STOPPED s
              else s) })"

definition init_SERVICE_START_RUN :: "sid \<Rightarrow> sys \<Rightarrow> sys" where
  "init_SERVICE_START_RUN service s =
     (if is_set NEVER_KILL service s then s
      else
        (let timeout = svc_get_int START_TIMEOUT service s;
             timeout = (if timeout = 0 then DEFAULT_START_TIMEOUT else timeout)
         in initng_handler_set_alarm service timeout s))"

definition init_SERVICE_STOP_RUN :: "sid \<Rightarrow> sys \<Rightarrow> sys" where
  "init_SERVICE_STOP_RUN service s =
     (if is_set NEVER_KILL service s then s
      else
        (let timeout = svc_get_int STOP_TIMEOUT service s;
             timeout = (if timeout = 0 then DEFAULT_STOP_TIMEOUT else timeout)
         in initng_handler_set_alarm service timeout s))"

section \<open>Kill handlers and timeouts\<close>

text \<open>The parts of a status of waitpid.\<close>

definition WTERMSIG :: "int \<Rightarrow> int" where "WTERMSIG r = r mod 128"

definition WEXITSTATUS :: "int \<Rightarrow> int" where "WEXITSTATUS r = (r div 256) mod 256"

definition service_handle_killed_start :: "env \<Rightarrow> sid \<Rightarrow> nat \<Rightarrow> sys \<Rightarrow> sys option" where
  "service_handle_killed_start E service pa s = do {
     process \<leftarrow> process_at service pa s;
     (let rcode = p_r_code process;
          s = initng_process_db_free service pa s in
      if IS_MARK s service SERVICE_START_FAILED_TIMEOUT then Some s
      else if \<not> IS_MARK s service SERVICE_START_RUN then Some s
      else if WTERMSIG rcode = 11 then Some (mark service SERVICE_FAIL_START_SIGNAL s)
      else if 0 < WEXITSTATUS rcode \<and> \<not> is_set START_FAIL_OK service s
        then Some (mark service SERVICE_FAIL_START_RCODE s)
      else do {
        (r, s) \<leftarrow> initng_depend_up_check E service s;
        Some (if r = FAIL then mark service SERVICE_UP_CHECK_FAILED s else mark service SERVICE_DONE s) }) }"

definition service_handle_killed_stop :: "env \<Rightarrow> sid \<Rightarrow> nat \<Rightarrow> sys \<Rightarrow> sys option" where
  "service_handle_killed_stop E service pa s = do {
     process \<leftarrow> process_at service pa s;
     (let rcode = p_r_code process;
          s = initng_process_db_free service pa s in
      if IS_MARK s service SERVICE_STOP_FAILED_TIMEOUT then Some s
      else if \<not> IS_MARK s service SERVICE_STOP_RUN then Some s
      else if WTERMSIG rcode = 11 then Some (mark service SERVICE_FAIL_STOP_SIGNAL s)
      else if 0 < WEXITSTATUS rcode \<and> \<not> is_set STOP_FAIL_OK service s
        then Some (mark service SERVICE_FAIL_STOP_RCODE s)
      else Some (mark service SERVICE_STOPPED s)) }"

definition timeout_SERVICE_START_RUN :: "env \<Rightarrow> sid \<Rightarrow> sys \<Rightarrow> sys option" where
  "timeout_SERVICE_START_RUN E service s =
     (if is_set NEVER_KILL service s then Some s
      else case initng_process_db_get T_START service s of
        None \<Rightarrow> Some s
      | Some process \<Rightarrow>
          (if p_pid process \<le> 0 \<or> e_kill0 E (p_pid process) s = ESRCH
           then service_handle_killed_start E service (p_addr process) s
           else Some (mark service SERVICE_START_FAILED_TIMEOUT (add_effects [Eff_kill (p_pid process) SIGKILL] s))))"

definition timeout_SERVICE_STOP_RUN :: "env \<Rightarrow> sid \<Rightarrow> sys \<Rightarrow> sys option" where
  "timeout_SERVICE_STOP_RUN E service s =
     (if is_set NEVER_KILL service s then Some s
      else case initng_process_db_get T_STOP service s of
        None \<Rightarrow> Some s
      | Some process \<Rightarrow>
          (if p_pid process \<le> 0 \<or> e_kill0 E (p_pid process) s = ESRCH
           then service_handle_killed_stop E service (p_addr process) s
           else Some (mark service SERVICE_STOP_FAILED_TIMEOUT (add_effects [Eff_kill (p_pid process) SIGKILL] s))))"

section \<open>The module\<close>

definition service_module_states :: "a_state_h list" where
  "service_module_states = [SERVICE_START_MARKED, SERVICE_STOP_MARKED, SERVICE_DONE,
     SERVICE_WAITING_FOR_START_DEP, SERVICE_WAITING_FOR_STOP_DEP, SERVICE_START_DEPS_MET,
     SERVICE_STOP_DEPS_MET, SERVICE_STOPPED, SERVICE_START_RUN, SERVICE_STOP_RUN,
     SERVICE_START_DEPS_FAILED, SERVICE_STOP_DEPS_FAILED, SERVICE_FAIL_START_LAUNCH,
     SERVICE_FAIL_START_NONEXIST, SERVICE_FAIL_START_RCODE, SERVICE_FAIL_START_SIGNAL,
     SERVICE_START_FAILED_TIMEOUT, SERVICE_STOP_FAILED_TIMEOUT, SERVICE_FAIL_STOP_NONEXIST,
     SERVICE_UP_CHECK_FAILED, SERVICE_FAIL_STOP_RCODE, SERVICE_FAIL_STOP_SIGNAL]"

definition service_module_entries :: "s_entry list" where
  "service_module_entries = [START_TIMEOUT, STOP_TIMEOUT, NEVER_KILL, START_FAIL_OK, STOP_FAIL_OK]"

definition service_module_init :: "sys \<Rightarrow> int \<times> sys" where
  "service_module_init s =
     (let s = initng_service_type_register TYPE_SERVICE s;
          s = initng_process_db_ptype_register T_STOP (initng_process_db_ptype_register T_START s);
          s = fold (\<lambda>st s. snd (initng_active_state_register st s)) service_module_states s;
          s = fold initng_service_data_type_register service_module_entries s
      in (TRUE, s))"

definition service_module_unload :: "sys \<Rightarrow> sys" where
  "service_module_unload s =
     (let s = initng_service_type_unregister TYPE_SERVICE s;
          s = initng_process_db_ptype_unregister T_STOP (initng_process_db_ptype_unregister T_START s);
          s = fold initng_active_state_unregister service_module_states s
      in fold initng_service_data_type_unregister service_module_entries s)"

end
