(* ===== verification/Daemon.thy ===== *)
theory Daemon
  imports Service_Type
begin

text \<open>
  The service type of modules/daemon: a process that keeps running while the service is up. The
  module finds the pid of a daemon that forks, respawns a daemon that died and ends it with
  SIGTERM and SIGKILL.
\<close>

section \<open>The type, its processes and variables\<close>

definition PID_TIMEOUT :: int where "PID_TIMEOUT = 60"

definition DEFAULT_RESPAWN_RATE :: int where "DEFAULT_RESPAWN_RATE = 10"

definition DEFAULT_RESPAWN_PAUSE :: int where "DEFAULT_RESPAWN_PAUSE = 1"

definition DEFAULT_TERM_TIMEOUT :: int where "DEFAULT_TERM_TIMEOUT = 30"

definition DEFAULT_KILL_TIMEOUT :: int where "DEFAULT_KILL_TIMEOUT = 2"

definition TYPE_DAEMON :: stype_h where
  "TYPE_DAEMON = \<lparr>sty_name = ''daemon'', sty_hidden = False, sty_start = Some ''start_DAEMON'',
     sty_stop = Some ''stop_DAEMON'', sty_restart = None\<rparr>"

definition T_DAEMON :: ptype_h where
  "T_DAEMON = \<lparr>pt_name = ''daemon'', pt_kill_handler = Some ''handle_killed_daemon''\<rparr>"

definition T_KILL :: ptype_h where "T_KILL = \<lparr>pt_name = ''kill'', pt_kill_handler = None\<rparr>"

definition PIDOF :: s_entry where "PIDOF = S_Entry ''pid_of'' STRING None"

definition PIDFILE :: s_entry where "PIDFILE = S_Entry ''pid_file'' STRINGS None"

definition FORKS :: s_entry where "FORKS = S_Entry ''forks'' SET None"

definition RESPAWN :: s_entry where "RESPAWN = S_Entry ''respawn'' SET None"

definition RESPAWN_PAUSE :: s_entry where "RESPAWN_PAUSE = S_Entry ''respawn_pause'' INT_T None"

definition RESPAWN_RATE :: s_entry where "RESPAWN_RATE = S_Entry ''respawn_rate'' INT_T None"

definition TERM_TIMEOUT :: s_entry where "TERM_TIMEOUT = S_Entry ''term_timeout'' INT_T None"

definition DAEMON_FAIL_OK :: s_entry where "DAEMON_FAIL_OK = S_Entry ''daemon_fail_ok'' SET None"

definition DAEMON_STOPS_BADLY :: s_entry where "DAEMON_STOPS_BADLY = S_Entry ''daemon_stops_badly'' SET None"

definition INTERNAL_LAST_RESPAWN :: s_entry where "INTERNAL_LAST_RESPAWN = S_Entry ''internal_last_respawn'' INT_T None"

section \<open>The states\<close>

definition DAEMON_START_MARKED :: a_state_h where
  "DAEMON_START_MARKED = \<lparr>st_name = ''DAEMON_START_MARKED'', st_is = IS_STARTING, st_interrupt = None,
     st_init = Some ''init_DAEMON_START_MARKED'', st_alarm = None\<rparr>"

definition DAEMON_STOP_MARKED :: a_state_h where
  "DAEMON_STOP_MARKED = \<lparr>st_name = ''DAEMON_STOP_MARKED'', st_is = IS_STOPPING, st_interrupt = None,
     st_init = Some ''init_DAEMON_STOP_MARKED'', st_alarm = None\<rparr>"

definition DAEMON_RUNNING :: a_state_h where
  "DAEMON_RUNNING = \<lparr>st_name = ''DAEMON_RUNNING'', st_is = IS_UP, st_interrupt = None,
     st_init = None, st_alarm = None\<rparr>"

definition DAEMON_WAITING_FOR_START_DEP :: a_state_h where
  "DAEMON_WAITING_FOR_START_DEP = \<lparr>st_name = ''DAEMON_WAITING_FOR_START_DEP'', st_is = IS_STARTING, st_interrupt = Some ''handle_DAEMON_WAITING_FOR_START_DEP'',
     st_init = None, st_alarm = None\<rparr>"

definition DAEMON_WAITING_FOR_STOP_DEP :: a_state_h where
  "DAEMON_WAITING_FOR_STOP_DEP = \<lparr>st_name = ''DAEMON_WAITING_FOR_STOP_DEP'', st_is = IS_STOPPING, st_interrupt = Some ''handle_DAEMON_WAITING_FOR_STOP_DEP'',
     st_init = None, st_alarm = None\<rparr>"

definition DAEMON_START_DEPS_MET :: a_state_h where
  "DAEMON_START_DEPS_MET = \<lparr>st_name = ''DAEMON_START_DEPS_MET'', st_is = IS_STARTING, st_interrupt = None,
     st_init = Some ''init_DAEMON_START_DEPS_MET'', st_alarm = None\<rparr>"

definition DAEMON_STOP_DEPS_MET :: a_state_h where
  "DAEMON_STOP_DEPS_MET = \<lparr>st_name = ''DAEMON_STOP_DEPS_MET'', st_is = IS_STOPPING, st_interrupt = None,
     st_init = Some ''init_DAEMON_STOP_DEPS_MET'', st_alarm = None\<rparr>"

definition DAEMON_KILL :: a_state_h where
  "DAEMON_KILL = \<lparr>st_name = ''DAEMON_KILL'', st_is = IS_STOPPING, st_interrupt = None,
     st_init = Some ''init_DAEMON_KILL'', st_alarm = Some ''timeout_DAEMON_KILL''\<rparr>"

definition DAEMON_TERM :: a_state_h where
  "DAEMON_TERM = \<lparr>st_name = ''DAEMON_TERM'', st_is = IS_STOPPING, st_interrupt = None,
     st_init = Some ''init_DAEMON_TERM'', st_alarm = Some ''timeout_DAEMON_TERM''\<rparr>"

definition DAEMON_STOPPED :: a_state_h where
  "DAEMON_STOPPED = \<lparr>st_name = ''DAEMON_STOPPED'', st_is = IS_DOWN, st_interrupt = None,
     st_init = None, st_alarm = None\<rparr>"

definition DAEMON_LAUNCH :: a_state_h where
  "DAEMON_LAUNCH = \<lparr>st_name = ''DAEMON_LAUNCH'', st_is = IS_STARTING, st_interrupt = None,
     st_init = None, st_alarm = None\<rparr>"

definition DAEMON_WAIT_FOR_PID_FILE :: a_state_h where
  "DAEMON_WAIT_FOR_PID_FILE = \<lparr>st_name = ''DAEMON_WAIT_FOR_PID_FILE'', st_is = IS_STARTING, st_interrupt = None,
     st_init = Some ''init_DAEMON_WAIT_FOR_PID_FILE'', st_alarm = Some ''timeout_DAEMON_WAIT_FOR_PID_FILE''\<rparr>"

definition DAEMON_WAIT_RESP_TOUT :: a_state_h where
  "DAEMON_WAIT_RESP_TOUT = \<lparr>st_name = ''WAIT_FOR_RESPAWN_TIMEOUT'', st_is = IS_STARTING, st_interrupt = None,
     st_init = Some ''init_DAEMON_WAIT_RESP_TOUT'', st_alarm = Some ''timeout_DAEMON_WAIT_RESP_TOUT''\<rparr>"

text \<open>The failures.\<close>

definition DAEMON_START_DEPS_FAILED :: a_state_h where "DAEMON_START_DEPS_FAILED = plain_state ''DAEMON_START_DEPS_FAILED'' IS_FAILED"

definition DAEMON_STOP_DEPS_FAILED :: a_state_h where "DAEMON_STOP_DEPS_FAILED = plain_state ''DAEMON_STOP_DEPS_FAILED'' IS_FAILED"

definition DAEMON_FAIL_START_RCODE :: a_state_h where "DAEMON_FAIL_START_RCODE = plain_state ''DAEMON_FAIL_START_RCODE'' IS_FAILED"

definition DAEMON_FAIL_START_SIGNAL :: a_state_h where "DAEMON_FAIL_START_SIGNAL = plain_state ''DAEMON_FAIL_START_SIGNAL'' IS_FAILED"

definition DAEMON_FAIL_START_LAUNCH :: a_state_h where "DAEMON_FAIL_START_LAUNCH = plain_state ''DAEMON_FAIL_START_LAUNCH'' IS_FAILED"

definition DAEMON_FAIL_START_TIMEOUT_PIDFILE :: a_state_h where "DAEMON_FAIL_START_TIMEOUT_PIDFILE = plain_state ''DAEMON_FAIL_START_TIMEOUT_PIDFILE'' IS_FAILED"

definition DAEMON_FAIL_START_NONEXIST :: a_state_h where "DAEMON_FAIL_START_NONEXIST = plain_state ''DAEMON_FAIL_START_NONEXIST'' IS_FAILED"

definition DAEMON_FAIL_STOPPING :: a_state_h where "DAEMON_FAIL_STOPPING = plain_state ''DAEMON_FAIL_STOPPING'' IS_FAILED"

definition DAEMON_UP_CHECK_FAILED :: a_state_h where "DAEMON_UP_CHECK_FAILED = plain_state ''DAEMON_UP_CHECK_FAILED'' IS_FAILED"

definition DAEMON_RESPAWN_RATE_EXCEEDED :: a_state_h where "DAEMON_RESPAWN_RATE_EXCEEDED = plain_state ''DAEMON_RESPAWN_RATE_EXCEEDED'' IS_FAILED"

lemmas daemon_states = DAEMON_START_MARKED_def DAEMON_STOP_MARKED_def DAEMON_RUNNING_def DAEMON_WAITING_FOR_START_DEP_def DAEMON_WAITING_FOR_STOP_DEP_def DAEMON_START_DEPS_MET_def DAEMON_STOP_DEPS_MET_def DAEMON_KILL_def DAEMON_TERM_def DAEMON_STOPPED_def DAEMON_LAUNCH_def DAEMON_WAIT_FOR_PID_FILE_def DAEMON_WAIT_RESP_TOUT_def DAEMON_START_DEPS_FAILED_def DAEMON_STOP_DEPS_FAILED_def DAEMON_FAIL_START_RCODE_def DAEMON_FAIL_START_SIGNAL_def DAEMON_FAIL_START_LAUNCH_def DAEMON_FAIL_START_TIMEOUT_PIDFILE_def DAEMON_FAIL_START_NONEXIST_def DAEMON_FAIL_STOPPING_def DAEMON_UP_CHECK_FAILED_def DAEMON_RESPAWN_RATE_EXCEEDED_def

section \<open>Type handlers\<close>

definition start_DAEMON :: "sid \<Rightarrow> sys \<Rightarrow> (int \<times> sys) option" where
  "start_DAEMON service s =
     (if IS_MARK s service DAEMON_WAITING_FOR_STOP_DEP then Some (TRUE, mark service DAEMON_RUNNING s)
      else
        (let (r, s) = initng_common_mark_service service DAEMON_START_MARKED s
         in if r = FALSE then Some (FALSE, s) else Some (TRUE, s)))"

definition stop_DAEMON :: "sid \<Rightarrow> sys \<Rightarrow> (int \<times> sys) option" where
  "stop_DAEMON service s =
     (if IS_MARK s service DAEMON_WAITING_FOR_START_DEP then Some (TRUE, mark service DAEMON_STOPPED s)
      else
        (let (r, s) = initng_common_mark_service service DAEMON_STOP_MARKED s
         in if r = FALSE then Some (FALSE, s) else Some (TRUE, s)))"

section \<open>Finding the pid\<close>

text \<open>A C string up to a white space or the end as a number, as atoi reads it.\<close>

definition is_digit :: "char \<Rightarrow> bool" where
  "is_digit c = (c \<in> set ''0123456789'')"

definition digit_val :: "char \<Rightarrow> int" where
  "digit_val c = int (of_char c) - 48"

definition digits_val :: "string \<Rightarrow> int" where
  "digits_val ds = foldl (\<lambda>v c. v * 10 + digit_val c) 0 ds"

definition atoi :: "string \<Rightarrow> int" where
  "atoi s = (let s = dropWhile (\<lambda>c. c \<in> set [CHR '' '', CHR 0x09, CHR 0x0A, CHR 0x0B, CHR 0x0C, CHR 0x0D]) s
     in case s of
          [] \<Rightarrow> 0
        | c # cs \<Rightarrow>
            if c = CHR ''-'' then - digits_val (takeWhile is_digit cs)
            else if c = CHR ''+'' then digits_val (takeWhile is_digit cs)
            else digits_val (takeWhile is_digit s))"

text \<open>Does the line of a stat file, cut at 511 characters, name the process? The name between
  the brackets is compared up to its own length only.\<close>

definition stat_matches :: "string \<Rightarrow> string \<Rightarrow> bool" where
  "stat_matches name line =
     (let s = dropWhile (\<lambda>c. c \<noteq> CHR '' '') (take 511 line) in
      case s of
        sp # br # rest \<Rightarrow>
          if br \<noteq> CHR ''('' then False
          else (let comm = takeWhile (\<lambda>c. c \<noteq> CHR '')'') rest
                in take (length comm) name = comm)
      | _ \<Rightarrow> False)"

fun pid_of_walk :: "string \<Rightarrow> (string \<times> string option) list \<Rightarrow> int" where
  "pid_of_walk name [] = -1"
| "pid_of_walk name ((d, stat) # ds) =
     (if atoi d \<le> 0 then pid_of_walk name ds
      else case stat of
        None \<Rightarrow> pid_of_walk name ds
      | Some line \<Rightarrow> if stat_matches name line then atoi d else pid_of_walk name ds)"

definition pid_of :: "env \<Rightarrow> string \<Rightarrow> sys \<Rightarrow> int" where
  "pid_of E name s = (case e_proc E s of None \<Rightarrow> -1 | Some ds \<Rightarrow> pid_of_walk name ds)"

text \<open>
  The number in a pid file, from at most 20 characters. A failing read makes the unsigned
  length huge and the loops run over the end of the buffer, and a number above the range of
  pid_t overflows: both are the result None.
\<close>

definition pid_from_file :: "env \<Rightarrow> string \<Rightarrow> sys \<Rightarrow> int option" where
  "pid_from_file E name s =
     (case e_file E name s of
        None \<Rightarrow> Some (-1)
      | Some Read_error \<Rightarrow> None
      | Some Read_eof \<Rightarrow> Some (-1)
      | Some (Read_got buf) \<Rightarrow>
          (let buf = take 20 buf;
               v = digits_val (takeWhile is_digit (dropWhile (\<lambda>c. \<not> is_digit c) buf))
           in if buf = [] then Some (-1) else if 2 ^ 31 \<le> v then None else Some v))"

definition get_pidof :: "env \<Rightarrow> sid \<Rightarrow> sys \<Rightarrow> int" where
  "get_pidof E service s = (case svc_get_string PIDOF service s of None \<Rightarrow> -1 | Some pidof \<Rightarrow> pid_of E pidof s)"

definition get_pidfile_body :: "env \<Rightarrow> string \<Rightarrow> sys \<Rightarrow> (int option \<times> sys) option" where
  "get_pidfile_body E pidfile s =
     (if pidfile = [] \<or> hd pidfile \<noteq> CHR ''/'' then Some (Some (-1), s)
      else do {
        pid \<leftarrow> pid_from_file E pidfile s;
        Some (if 1 < pid then Some pid else None, s) })"

definition get_pidfile :: "env \<Rightarrow> sid \<Rightarrow> sys \<Rightarrow> int option" where
  "get_pidfile E service s = do {
     (r, s) \<leftarrow> while_next_string PIDFILE (\<lambda>s. a_data (svc s service)) (get_pidfile_body E) (e_fuel E) None s;
     Some (case r of None \<Rightarrow> -1 | Some pid \<Rightarrow> pid) }"

text \<open>Only the first pid file is removed: the loop stops after it.\<close>

definition clear_pidfile_body :: "string \<Rightarrow> sys \<Rightarrow> (unit option \<times> sys) option" where
  "clear_pidfile_body pidfile s =
     (if pidfile \<noteq> [] \<and> hd pidfile = CHR ''/'' then Some (Some (), add_effects [Eff_unlink pidfile] s)
      else Some (Some (), s))"

definition clear_pidfile :: "env \<Rightarrow> sid \<Rightarrow> sys \<Rightarrow> sys option" where
  "clear_pidfile E service s =
     map_option snd (while_next_string PIDFILE (\<lambda>s. a_data (svc s service)) clear_pidfile_body (e_fuel E) None s)"

definition try_get_pid :: "env \<Rightarrow> sid \<Rightarrow> sys \<Rightarrow> (int \<times> sys) option" where
  "try_get_pid E service s =
     (if \<not> is_set PIDOF service s \<and> \<not> is_set PIDFILE service s then Some (FALSE, s)
      else do {
        pid \<leftarrow> (if is_set PIDOF service s then Some (get_pidof E service s) else get_pidfile E service s);
        (if 0 < pid \<and> e_kill0 E pid s = ESRCH then Some (FALSE, s)
         else if 0 < pid then
           (case initng_process_db_get T_DAEMON service s of
              None \<Rightarrow> Some (FALSE, mark service DAEMON_UP_CHECK_FAILED s)
            | Some p \<Rightarrow>
                (let s = (if is_set FORKS service s
                          then upd_process service (p_addr p) (\<lambda>p. p\<lparr>p_pid := pid\<rparr>) s else s) in do {
                   (r, s) \<leftarrow> initng_depend_up_check E service s;
                   Some (if r = FAIL then (FALSE, mark service DAEMON_UP_CHECK_FAILED s)
                         else (TRUE, mark service DAEMON_RUNNING s)) }))
         else Some (FALSE, s)) })"

section \<open>Ending and respawning\<close>

definition kill_daemon :: "env \<Rightarrow> sid \<Rightarrow> int \<Rightarrow> sys \<Rightarrow> sys" where
  "kill_daemon E service sig s =
     (case initng_process_db_get T_DAEMON service s of
        None \<Rightarrow> s
      | Some process \<Rightarrow>
          (if p_pid process \<le> 0 then initng_process_db_free service (p_addr process) s
           else if e_kill0 E (p_pid process) s = ESRCH then initng_process_db_free service (p_addr process) s
           else add_effects [Eff_kill (p_pid process) sig] s))"

definition check_respawn :: "sid \<Rightarrow> sys \<Rightarrow> int \<times> sys" where
  "check_respawn service s =
     (if \<not> IS_MARK s service DAEMON_RUNNING then (FALSE, s)
      else if \<not> is_set RESPAWN service s then (FALSE, s)
      else
        (let last_time = (if is_set INTERNAL_LAST_RESPAWN service s then svc_get_int INTERNAL_LAST_RESPAWN service s else 0);
             respawn_rate = (if is_set RESPAWN_RATE service s then svc_get_int RESPAWN_RATE service s
                             else DEFAULT_RESPAWN_RATE)
         in if last_time \<noteq> 0 \<and> 0 < respawn_rate \<and> tv_sec (g_now s) - last_time < respawn_rate
            then (FALSE, mark service DAEMON_RESPAWN_RATE_EXCEEDED s)
            else (TRUE, mark service DAEMON_WAIT_RESP_TOUT
                    (svc_set_int INTERNAL_LAST_RESPAWN service (tv_sec (g_now s)) s))))"

section \<open>Functions of the states\<close>

definition init_DAEMON_START_MARKED :: "env \<Rightarrow> sid \<Rightarrow> sys \<Rightarrow> sys option" where
  "init_DAEMON_START_MARKED E daemon s = do {
     (r, s) \<leftarrow> initng_depend_start_deps E (start_service E) (initng_handler_start_new_service_named E) daemon s;
     Some (mark daemon DAEMON_WAITING_FOR_START_DEP s) }"

definition init_DAEMON_STOP_MARKED :: "env \<Rightarrow> sid \<Rightarrow> sys \<Rightarrow> sys option" where
  "init_DAEMON_STOP_MARKED E daemon s = do {
     (r, s) \<leftarrow> initng_depend_stop_deps E (initng_handler_stop_service E) daemon s;
     Some (mark daemon DAEMON_WAITING_FOR_STOP_DEP s) }"

definition handle_DAEMON_WAITING_FOR_START_DEP :: "env \<Rightarrow> sid \<Rightarrow> sys \<Rightarrow> sys option" where
  "handle_DAEMON_WAITING_FOR_START_DEP E daemon s = do {
     (r, s) \<leftarrow> initng_depend_start_dep_met E (start_service E) daemon s;
     Some (if r = TRUE then
             (if g_sys_state s \<noteq> STATE_STARTING \<and> g_sys_state s \<noteq> STATE_UP then mark daemon DAEMON_STOPPED s
              else mark daemon DAEMON_START_DEPS_MET s)
           else if r = FAIL then mark daemon DAEMON_START_DEPS_FAILED s
           else s) }"

definition handle_DAEMON_WAITING_FOR_STOP_DEP :: "env \<Rightarrow> sid \<Rightarrow> sys \<Rightarrow> sys option" where
  "handle_DAEMON_WAITING_FOR_STOP_DEP E daemon s = do {
     (r, s) \<leftarrow> initng_depend_stop_dep_met E daemon s;
     Some (if r \<noteq> TRUE then s else mark daemon DAEMON_STOP_DEPS_MET s) }"

text \<open>After the launch: wait for a pid, wait for the fork, or be up at once.\<close>

definition daemon_launched :: "env \<Rightarrow> sid \<Rightarrow> sys \<Rightarrow> sys option" where
  "daemon_launched E daemon s =
     (if is_set PIDFILE daemon s \<or> is_set PIDOF daemon s then Some (mark daemon DAEMON_WAIT_FOR_PID_FILE s)
      else if is_set FORKS daemon s then Some s
      else do {
        (r, s) \<leftarrow> initng_depend_up_check E daemon s;
        Some (if r = FAIL then mark daemon DAEMON_UP_CHECK_FAILED s else mark daemon DAEMON_RUNNING s) })"

definition init_DAEMON_START_DEPS_MET :: "env \<Rightarrow> sid \<Rightarrow> sys \<Rightarrow> sys option" where
  "init_DAEMON_START_DEPS_MET E daemon s = do {
     s \<leftarrow> clear_pidfile E daemon s;
     (let (m, s) = initng_common_mark_service daemon DAEMON_LAUNCH s;
          pid = (if is_set PIDOF daemon s then get_pidof E daemon s else 0) in
      if m = FALSE then Some s
      else if is_set PIDOF daemon s \<and> 1 < pid \<and> e_kill0 E pid s = 0 then
        (let (p, s) = initng_process_db_new T_DAEMON s
         in Some (mark daemon DAEMON_RUNNING (add_process (p\<lparr>p_pid := pid\<rparr>) daemon s)))
      else do {
        (r, s) \<leftarrow> initng_execute_launch E daemon T_DAEMON None s;
        (if r = FALSE then Some (mark daemon DAEMON_FAIL_START_LAUNCH s)
         else if r = FAIL then Some (mark daemon DAEMON_FAIL_START_NONEXIST s)
         else daemon_launched E daemon s) }) }"

definition init_DAEMON_STOP_DEPS_MET :: "env \<Rightarrow> sid \<Rightarrow> sys \<Rightarrow> sys option" where
  "init_DAEMON_STOP_DEPS_MET E service s =
     (case initng_process_db_get T_DAEMON service s of
        None \<Rightarrow> Some s
      | Some process \<Rightarrow>
          (if p_pid process \<le> 0 then Some (mark service DAEMON_STOPPED s)
           else if e_kill0 E (p_pid process) s = ESRCH then Some (mark service DAEMON_STOPPED s)
           else do {
             (r, s) \<leftarrow> initng_execute_launch E service T_KILL None s;
             Some (if r = FAIL then mark service DAEMON_FAIL_STOPPING s
                   else if r = FALSE then mark service DAEMON_TERM (kill_daemon E service SIGTERM s)
                   else mark service DAEMON_TERM s) }))"

definition init_DAEMON_WAIT_FOR_PID_FILE :: "sid \<Rightarrow> sys \<Rightarrow> sys" where
  "init_DAEMON_WAIT_FOR_PID_FILE service s = initng_handler_set_alarm service 1 s"

definition timeout_DAEMON_WAIT_FOR_PID_FILE :: "env \<Rightarrow> sid \<Rightarrow> sys \<Rightarrow> sys option" where
  "timeout_DAEMON_WAIT_FOR_PID_FILE E service s =
     (if tv_sec (a_time_current_state (svc s service)) + PID_TIMEOUT < tv_sec (g_now s) then
        (let s = mark service DAEMON_FAIL_START_TIMEOUT_PIDFILE s;
             s = kill_daemon E service SIGKILL s
         in Some (case initng_process_db_get T_DAEMON service s of
                    None \<Rightarrow> s
                  | Some process \<Rightarrow> initng_process_db_free service (p_addr process) s))
      else do {
        (r, s) \<leftarrow> try_get_pid E service s;
        Some (if r = FALSE then initng_handler_set_alarm service 1 s else s) })"

definition init_DAEMON_WAIT_RESP_TOUT :: "sid \<Rightarrow> sys \<Rightarrow> sys" where
  "init_DAEMON_WAIT_RESP_TOUT service s =
     (let respawn_pause = (if is_set RESPAWN_PAUSE service s then svc_get_int RESPAWN_PAUSE service s
                           else DEFAULT_RESPAWN_PAUSE)
      in initng_handler_set_alarm service respawn_pause s)"

definition timeout_DAEMON_WAIT_RESP_TOUT :: "env \<Rightarrow> sid \<Rightarrow> sys \<Rightarrow> sys option" where
  "timeout_DAEMON_WAIT_RESP_TOUT E service s = do {
     (r, s) \<leftarrow> start_service E service (mark service DAEMON_STOPPED s);
     Some s }"

definition init_DAEMON_TERM :: "sid \<Rightarrow> sys \<Rightarrow> sys" where
  "init_DAEMON_TERM daemon s =
     (let timeout = svc_get_int TERM_TIMEOUT daemon s;
          timeout = (if timeout = 0 then DEFAULT_TERM_TIMEOUT else timeout)
      in initng_handler_set_alarm daemon timeout s)"

definition timeout_DAEMON_TERM :: "env \<Rightarrow> sid \<Rightarrow> sys \<Rightarrow> sys" where
  "timeout_DAEMON_TERM E daemon s = mark daemon DAEMON_KILL (kill_daemon E daemon SIGKILL s)"

definition init_DAEMON_KILL :: "sid \<Rightarrow> sys \<Rightarrow> sys" where
  "init_DAEMON_KILL daemon s = initng_handler_set_alarm daemon DEFAULT_KILL_TIMEOUT s"

definition timeout_DAEMON_KILL :: "env \<Rightarrow> sid \<Rightarrow> sys \<Rightarrow> sys" where
  "timeout_DAEMON_KILL E daemon s =
     initng_handler_set_alarm daemon DEFAULT_KILL_TIMEOUT (kill_daemon E daemon SIGKILL s)"

section \<open>The kill handler\<close>

definition handle_killed_daemon :: "env \<Rightarrow> sid \<Rightarrow> nat \<Rightarrow> sys \<Rightarrow> sys option" where
  "handle_killed_daemon E daemon pa s = do {
     process \<leftarrow> process_at daemon pa s;
     (if IS_MARK s daemon DAEMON_WAIT_FOR_PID_FILE \<and> is_set FORKS daemon s
      then do { (r, s) \<leftarrow> try_get_pid E daemon s; Some s }
      else
        (let (respawn, s) = check_respawn daemon s;
             rcode = p_r_code process;
             s = initng_process_db_free daemon pa s in
         if respawn \<noteq> FALSE then Some s
         else if WTERMSIG rcode = 11 then Some (mark daemon DAEMON_FAIL_START_SIGNAL s)
         else if WEXITSTATUS rcode = 0 then Some (mark daemon DAEMON_STOPPED s)
         else if is_set DAEMON_FAIL_OK daemon s then Some (mark daemon DAEMON_STOPPED s)
         else if GET_STATE s daemon = IS_STOPPING \<and> is_set DAEMON_STOPS_BADLY daemon s
           then Some (mark daemon DAEMON_STOPPED s)
         else Some (mark daemon DAEMON_FAIL_START_RCODE s))) }"

section \<open>The module\<close>

definition daemon_module_states :: "a_state_h list" where
  "daemon_module_states = [DAEMON_START_MARKED, DAEMON_STOP_MARKED, DAEMON_RUNNING,
     DAEMON_WAITING_FOR_START_DEP, DAEMON_WAITING_FOR_STOP_DEP, DAEMON_START_DEPS_MET,
     DAEMON_STOP_DEPS_MET, DAEMON_KILL, DAEMON_TERM, DAEMON_STOPPED, DAEMON_LAUNCH,
     DAEMON_WAIT_FOR_PID_FILE, DAEMON_START_DEPS_FAILED, DAEMON_STOP_DEPS_FAILED,
     DAEMON_FAIL_START_RCODE, DAEMON_FAIL_START_SIGNAL, DAEMON_FAIL_START_LAUNCH,
     DAEMON_FAIL_START_NONEXIST, DAEMON_FAIL_START_TIMEOUT_PIDFILE, DAEMON_FAIL_STOPPING,
     DAEMON_WAIT_RESP_TOUT, DAEMON_UP_CHECK_FAILED, DAEMON_RESPAWN_RATE_EXCEEDED]"

definition daemon_module_entries :: "s_entry list" where
  "daemon_module_entries = [PIDFILE, PIDOF, FORKS, RESPAWN, TERM_TIMEOUT, DAEMON_FAIL_OK,
     DAEMON_STOPS_BADLY, INTERNAL_LAST_RESPAWN, RESPAWN_PAUSE, RESPAWN_RATE]"

definition daemon_module_init :: "sys \<Rightarrow> int \<times> sys" where
  "daemon_module_init s =
     (let s = initng_service_type_register TYPE_DAEMON s;
          s = initng_process_db_ptype_register T_KILL (initng_process_db_ptype_register T_DAEMON s);
          s = fold initng_service_data_type_register daemon_module_entries s;
          s = fold (\<lambda>st s. snd (initng_active_state_register st s)) daemon_module_states s
      in (TRUE, s))"

definition daemon_module_unload :: "sys \<Rightarrow> sys" where
  "daemon_module_unload s =
     (let s = fold initng_active_state_unregister daemon_module_states s;
          s = fold initng_service_data_type_unregister daemon_module_entries s;
          s = initng_process_db_ptype_unregister T_KILL (initng_process_db_ptype_unregister T_DAEMON s)
      in initng_service_type_unregister TYPE_DAEMON s)"

end
