(* ===== verification/Runlevel.thy ===== *)
theory Runlevel
  imports Daemon
begin

text \<open>
  The service types of modules/runlevel, runlevel and virtual: sets of services without a process
  of their own. Starting a runlevel stops what only the old runlevel needed.
\<close>

section \<open>The types and the states\<close>

definition TYPE_RUNLEVEL :: stype_h where
  "TYPE_RUNLEVEL = \<lparr>sty_name = ''runlevel'', sty_hidden = False, sty_start = Some ''start_RUNLEVEL'',
     sty_stop = Some ''stop_RUNLEVEL'', sty_restart = None\<rparr>"

definition TYPE_VIRTUAL :: stype_h where
  "TYPE_VIRTUAL = \<lparr>sty_name = ''virtual'', sty_hidden = True, sty_start = Some ''start_RUNLEVEL'',
     sty_stop = Some ''stop_RUNLEVEL'', sty_restart = None\<rparr>"

definition RUNLEVEL_START_MARKED :: a_state_h where
  "RUNLEVEL_START_MARKED = \<lparr>st_name = ''START_MARKED'', st_is = IS_STARTING, st_interrupt = None,
     st_init = Some ''init_RUNLEVEL_START_MARKED'', st_alarm = None\<rparr>"

definition RUNLEVEL_STOP_MARKED :: a_state_h where
  "RUNLEVEL_STOP_MARKED = \<lparr>st_name = ''STOP_MARKED'', st_is = IS_STOPPING, st_interrupt = None,
     st_init = Some ''init_RUNLEVEL_STOP_MARKED'', st_alarm = None\<rparr>"

definition RUNLEVEL_UP :: a_state_h where "RUNLEVEL_UP = plain_state ''UP'' IS_UP"

definition RUNLEVEL_WAITING_FOR_START_DEP :: a_state_h where
  "RUNLEVEL_WAITING_FOR_START_DEP = \<lparr>st_name = ''WAITING_FOR_START_DEP'', st_is = IS_STARTING,
     st_interrupt = Some ''handle_RUNLEVEL_WAITING_FOR_START_DEP'', st_init = None, st_alarm = None\<rparr>"

definition RUNLEVEL_WAITING_FOR_STOP_DEP :: a_state_h where
  "RUNLEVEL_WAITING_FOR_STOP_DEP = \<lparr>st_name = ''WAITING_FOR_STOP_DEP'', st_is = IS_STOPPING,
     st_interrupt = Some ''handle_RUNLEVEL_WAITING_FOR_STOP_DEP'', st_init = None, st_alarm = None\<rparr>"

definition RUNLEVEL_DOWN :: a_state_h where "RUNLEVEL_DOWN = plain_state ''DOWN'' IS_DOWN"

definition RUNLEVEL_START_DEPS_FAILED :: a_state_h where
  "RUNLEVEL_START_DEPS_FAILED = plain_state ''START_DEPS_FAILED'' IS_FAILED"

lemmas runlevel_states = RUNLEVEL_START_MARKED_def RUNLEVEL_STOP_MARKED_def RUNLEVEL_UP_def
  RUNLEVEL_WAITING_FOR_START_DEP_def RUNLEVEL_WAITING_FOR_STOP_DEP_def RUNLEVEL_DOWN_def
  RUNLEVEL_START_DEPS_FAILED_def

section \<open>Operations\<close>

definition start_RUNLEVEL :: "sid \<Rightarrow> sys \<Rightarrow> (int \<times> sys) option" where
  "start_RUNLEVEL service s =
     (if IS_MARK s service RUNLEVEL_WAITING_FOR_STOP_DEP then Some (TRUE, mark service RUNLEVEL_UP s)
      else
        (let (r, s) = initng_common_mark_service service RUNLEVEL_START_MARKED s
         in if r = FALSE then Some (FALSE, s) else Some (TRUE, s)))"

definition stop_RUNLEVEL :: "sid \<Rightarrow> sys \<Rightarrow> (int \<times> sys) option" where
  "stop_RUNLEVEL service s =
     (if IS_MARK s service RUNLEVEL_WAITING_FOR_START_DEP then Some (TRUE, mark service RUNLEVEL_DOWN s)
      else
        (let (r, s) = initng_common_mark_service service RUNLEVEL_STOP_MARKED s
         in if r = FALSE then Some (FALSE, s) else Some (TRUE, s)))"

definition runlevel_find_old :: "sid \<Rightarrow> sys \<Rightarrow> sid option" where
  "runlevel_find_old new_rl s =
     find (\<lambda>i. a_type (svc s i) = Some TYPE_RUNLEVEL \<and> i \<noteq> new_rl) (rev (g_active_db s))"

definition runlevel_find_dep :: "env \<Rightarrow> sid \<Rightarrow> string \<Rightarrow> sys \<Rightarrow> bool option" where
  "runlevel_find_dep E rl dep s = do {
     (r, s) \<leftarrow> while_next_string NEED (\<lambda>s. a_data (svc s rl))
       (\<lambda>dep_new s. Some (if dep_new = dep then Some () else None, s)) (e_fuel E) None s;
     Some (r \<noteq> None) }"

definition stop_unneeded_body :: "env \<Rightarrow> sid \<Rightarrow> string \<Rightarrow> sys \<Rightarrow> (unit option \<times> sys) option" where
  "stop_unneeded_body E new_rl dep_old s = do {
     found \<leftarrow> runlevel_find_dep E new_rl dep_old s;
     (if found then Some (None, s)
      else case initng_active_db_find_by_name dep_old s of
        None \<Rightarrow> Some (None, s)
      | Some to_stop \<Rightarrow> do { (r, s) \<leftarrow> initng_handler_stop_service E to_stop s; Some (None, s) }) }"

definition runlevel_stop_unneeded :: "env \<Rightarrow> sid \<Rightarrow> sid \<Rightarrow> sys \<Rightarrow> sys option" where
  "runlevel_stop_unneeded E old_rl new_rl s =
     map_option snd (while_next_string NEED (\<lambda>s. a_data (svc s old_rl)) (stop_unneeded_body E new_rl) (e_fuel E) None s)"

definition init_RUNLEVEL_START_MARKED :: "env \<Rightarrow> sid \<Rightarrow> sys \<Rightarrow> sys option" where
  "init_RUNLEVEL_START_MARKED E new_runlevel s = do {
     (r, s) \<leftarrow> initng_depend_start_deps E (start_service E) (initng_handler_start_new_service_named E) new_runlevel s;
     s \<leftarrow> (if a_type (svc s new_runlevel) = Some TYPE_RUNLEVEL then do {
             s \<leftarrow> (case runlevel_find_old new_runlevel s of
                     None \<Rightarrow> Some s
                   | Some old_runlevel \<Rightarrow> do {
                       s \<leftarrow> runlevel_stop_unneeded E old_runlevel new_runlevel s;
                       (r, s) \<leftarrow> initng_handler_stop_service E old_runlevel s;
                       Some s });
             Some (s\<lparr>g_runlevel := Some (a_name (svc s new_runlevel))\<rparr>) }
           else Some s);
     Some (mark new_runlevel RUNLEVEL_WAITING_FOR_START_DEP s) }"

definition init_RUNLEVEL_STOP_MARKED :: "env \<Rightarrow> sid \<Rightarrow> sys \<Rightarrow> sys option" where
  "init_RUNLEVEL_STOP_MARKED E service s = do {
     (r, s) \<leftarrow> initng_depend_stop_deps E (initng_handler_stop_service E) service s;
     Some (mark service RUNLEVEL_WAITING_FOR_STOP_DEP s) }"

definition handle_RUNLEVEL_WAITING_FOR_START_DEP :: "env \<Rightarrow> sid \<Rightarrow> sys \<Rightarrow> sys option" where
  "handle_RUNLEVEL_WAITING_FOR_START_DEP E service s = do {
     (r, s) \<leftarrow> initng_depend_start_dep_met E (start_service E) service s;
     Some (if r = FALSE then s
           else if r = FAIL then mark service RUNLEVEL_START_DEPS_FAILED s
           else mark service RUNLEVEL_UP s) }"

definition handle_RUNLEVEL_WAITING_FOR_STOP_DEP :: "env \<Rightarrow> sid \<Rightarrow> sys \<Rightarrow> sys option" where
  "handle_RUNLEVEL_WAITING_FOR_STOP_DEP E service s = do {
     (r, s) \<leftarrow> initng_depend_stop_dep_met E service s;
     Some (if r = FALSE then s else mark service RUNLEVEL_DOWN s) }"

definition runlevel_module_states :: "a_state_h list" where
  "runlevel_module_states = [RUNLEVEL_START_MARKED, RUNLEVEL_STOP_MARKED, RUNLEVEL_UP,
     RUNLEVEL_WAITING_FOR_START_DEP, RUNLEVEL_WAITING_FOR_STOP_DEP, RUNLEVEL_DOWN, RUNLEVEL_START_DEPS_FAILED]"

definition runlevel_module_init :: "sys \<Rightarrow> int \<times> sys" where
  "runlevel_module_init s =
     (let s = initng_service_type_register TYPE_VIRTUAL (initng_service_type_register TYPE_RUNLEVEL s)
      in (TRUE, fold (\<lambda>st s. snd (initng_active_state_register st s)) runlevel_module_states s))"

definition runlevel_module_unload :: "sys \<Rightarrow> sys" where
  "runlevel_module_unload s =
     (let s = initng_service_type_unregister TYPE_VIRTUAL (initng_service_type_unregister TYPE_RUNLEVEL s)
      in fold initng_active_state_unregister runlevel_module_states s)"

section \<open>Tasks\<close>

text \<open>The service type of modules/task: a program that runs when it is triggered.\<close>

definition TYPE_TASK :: stype_h where
  "TYPE_TASK = \<lparr>sty_name = ''task'', sty_hidden = False, sty_start = Some ''start_task'', sty_stop = None,
     sty_restart = None\<rparr>"

definition RUN_TASK :: ptype_h where
  "RUN_TASK = \<lparr>pt_name = ''task'', pt_kill_handler = Some ''handle_task_leave''\<rparr>"

definition ONCE :: s_entry where "ONCE = S_Entry ''once'' SET None"

definition TASK_WAITING :: a_state_h where "TASK_WAITING = plain_state ''TASK_WAITING'' IS_DOWN"

definition TASK_RUNNING :: a_state_h where "TASK_RUNNING = plain_state ''TASK_RUNNING'' IS_STARTING"

definition TASK_DONE :: a_state_h where "TASK_DONE = plain_state ''TASK_DONE'' IS_UP"

definition TASK_FAILED :: a_state_h where "TASK_FAILED = plain_state ''TASK_FAILED'' IS_FAILED"

definition TASK_RUN_MARKED :: a_state_h where
  "TASK_RUN_MARKED = \<lparr>st_name = ''TASK_RUN_MARKED'', st_is = IS_STARTING, st_interrupt = None,
     st_init = Some ''task_run_marked'', st_alarm = None\<rparr>"

definition TASK_DEPS_FAILED :: a_state_h where "TASK_DEPS_FAILED = plain_state ''TASK_DEPS_FAILED'' IS_FAILED"

definition TASK_WAITING_FOR_DEPS :: a_state_h where
  "TASK_WAITING_FOR_DEPS = \<lparr>st_name = ''TASK_WAITING_FOR_DEPS'', st_is = IS_STARTING,
     st_interrupt = Some ''handle_deps'', st_init = None, st_alarm = None\<rparr>"

definition TASK_DEPS_MET :: a_state_h where
  "TASK_DEPS_MET = \<lparr>st_name = ''TASK_DEPS_MET'', st_is = IS_STARTING, st_interrupt = None,
     st_init = Some ''task_deps_met'', st_alarm = None\<rparr>"

definition handle_task_leave :: "sid \<Rightarrow> nat \<Rightarrow> sys \<Rightarrow> sys" where
  "handle_task_leave killed_task pa s =
     (if is_set ONCE killed_task s then mark killed_task TASK_DONE s
      else mark killed_task TASK_WAITING (initng_process_db_free killed_task pa s))"

definition start_task :: "sid \<Rightarrow> sys \<Rightarrow> (int \<times> sys) option" where
  "start_task task s = Some (TRUE, if IS_MARK s task TASK_WAITING then mark task TASK_RUN_MARKED s else s)"

definition task_run_marked :: "env \<Rightarrow> sid \<Rightarrow> sys \<Rightarrow> sys option" where
  "task_run_marked E task s = do {
     (r, s) \<leftarrow> initng_depend_start_deps E (start_service E) (initng_handler_start_new_service_named E) task s;
     Some (if r \<noteq> TRUE then mark task TASK_DEPS_FAILED s else mark task TASK_WAITING_FOR_DEPS s) }"

definition handle_deps :: "env \<Rightarrow> sid \<Rightarrow> sys \<Rightarrow> sys option" where
  "handle_deps E task s = do {
     (r, s) \<leftarrow> initng_depend_start_dep_met E (start_service E) task s;
     Some (if r = TRUE then mark task TASK_DEPS_MET s
           else if r = FAIL then mark task TASK_DEPS_FAILED s
           else s) }"

definition task_deps_met :: "env \<Rightarrow> sid \<Rightarrow> sys \<Rightarrow> sys option" where
  "task_deps_met E task s = do {
     (r, s) \<leftarrow> initng_execute_launch E task RUN_TASK None (mark task TASK_RUNNING s);
     Some (if r = FALSE \<or> r = FAIL then mark task TASK_FAILED s else s) }"

definition task_module_states :: "a_state_h list" where
  "task_module_states = [TASK_WAITING, TASK_RUNNING, TASK_FAILED, TASK_DONE, TASK_RUN_MARKED,
     TASK_DEPS_FAILED, TASK_WAITING_FOR_DEPS, TASK_DEPS_MET]"

definition task_module_init :: "sys \<Rightarrow> int \<times> sys" where
  "task_module_init s =
     (let s = initng_process_db_ptype_register RUN_TASK (initng_service_type_register TYPE_TASK s);
          s = fold (\<lambda>st s. snd (initng_active_state_register st s)) task_module_states s
      in (TRUE, initng_service_data_type_register ONCE s))"

definition task_module_unload :: "sys \<Rightarrow> sys" where
  "task_module_unload s =
     (let s = initng_process_db_ptype_unregister RUN_TASK (initng_service_type_unregister TYPE_TASK s);
          s = fold initng_active_state_unregister task_module_states s
      in initng_service_data_type_unregister ONCE s)"

end
