(* ===== verification/Hook_Modules.thy ===== *)
theory Hook_Modules
  imports Runlevel
begin

text \<open>
  The modules that follow the services through event hooks: also, conflict, lockfile, last,
  synchron, fstat, interactive, daemon_clean, ctrlaltdel, the command of unneeded, and the
  virtual services of provide. A hook gets the event and returns it with its verdict in the
  status; an event with data of another kind is a failed assertion.
\<close>

section \<open>Registration\<close>

text \<open>Modules register variables, states and hooks; the folds keep the order of the calls.\<close>

definition register_entries :: "s_entry list \<Rightarrow> sys \<Rightarrow> sys" where
  "register_entries es s = fold initng_service_data_type_register es s"

definition unregister_entries :: "s_entry list \<Rightarrow> sys \<Rightarrow> sys" where
  "unregister_entries es s = fold initng_service_data_type_unregister es s"

definition register_states :: "a_state_h list \<Rightarrow> sys \<Rightarrow> sys" where
  "register_states sts s = fold (\<lambda>st s. snd (initng_active_state_register st s)) sts s"

definition unregister_states :: "a_state_h list \<Rightarrow> sys \<Rightarrow> sys" where
  "unregister_states sts s = fold initng_active_state_unregister sts s"

definition hook :: "string \<Rightarrow> s_event_type \<Rightarrow> string \<Rightarrow> sys \<Rightarrow> sys" where
  "hook file t f s = snd (initng_event_hook_register file t f s)"

definition event_service :: "s_event_type \<Rightarrow> s_event \<Rightarrow> sid option" where
  "event_service t ev = (case ev_data ev of ED_service i \<Rightarrow> if ev_type ev = t then Some i else None | _ \<Rightarrow> None)"

section \<open>also\<close>

definition ALSO_START :: s_entry where "ALSO_START = S_Entry ''also_start'' STRINGS None"

definition ALSO_STOP :: s_entry where "ALSO_STOP = S_Entry ''also_stop'' STRINGS None"

definition also_start_body :: "env \<Rightarrow> sid \<Rightarrow> string \<Rightarrow> sys \<Rightarrow> (unit option \<times> sys) option" where
  "also_start_body E service tmp s =
     (case initng_active_db_find_by_name tmp s of
        Some current \<Rightarrow> do { (r, s) \<leftarrow> start_service E current s; Some (None, s) }
      | None \<Rightarrow> do {
          (new, s) \<leftarrow> initng_handler_start_new_service_named E tmp s;
          (case new of
             Some _ \<Rightarrow> Some (None, s)
           | None \<Rightarrow> do { (r, s) \<leftarrow> initng_handler_stop_service E service s; Some (Some (), s) }) })"

definition also_stop_body :: "env \<Rightarrow> string \<Rightarrow> sys \<Rightarrow> (unit option \<times> sys) option" where
  "also_stop_body E tmp s =
     (case initng_active_db_find_by_name tmp s of
        Some current \<Rightarrow> do { (r, s) \<leftarrow> initng_handler_stop_service E current s; Some (None, s) }
      | None \<Rightarrow> Some (None, s))"

definition also_service_state :: "env \<Rightarrow> s_event \<Rightarrow> sys \<Rightarrow> (s_event \<times> sys) option" where
  "also_service_state E ev s = do {
     service \<leftarrow> event_service EVENT_IS_CHANGE ev;
     (case GET_STATE s service of
        IS_STARTING \<Rightarrow> do {
          (r, s) \<leftarrow> while_next_string ALSO_START (\<lambda>s. a_data (svc s service)) (also_start_body E service)
            (e_fuel E) None s;
          Some (ev, s) }
      | IS_STOPPING \<Rightarrow> do {
          (r, s) \<leftarrow> while_next_string ALSO_STOP (\<lambda>s. a_data (svc s service)) (also_stop_body E)
            (e_fuel E) None s;
          Some (ev, s) }
      | _ \<Rightarrow> Some (ev, s)) }"

definition also_module_init :: "sys \<Rightarrow> int \<times> sys" where
  "also_module_init s =
     (TRUE, hook ''initng_also.c'' EVENT_IS_CHANGE ''also_service_state'' (register_entries [ALSO_START, ALSO_STOP] s))"

definition also_module_unload :: "sys \<Rightarrow> sys" where
  "also_module_unload s =
     initng_event_hook_unregister EVENT_IS_CHANGE ''also_service_state'' (unregister_entries [ALSO_START, ALSO_STOP] s)"

section \<open>conflict\<close>

definition CONFLICT :: s_entry where "CONFLICT = S_Entry ''conflict'' STRINGS None"

definition CONFLICTING :: a_state_h where "CONFLICTING = plain_state ''FAILED_BY_CONFLICT'' IS_FAILED"

definition conflict_body :: "sid \<Rightarrow> string \<Rightarrow> sys \<Rightarrow> (unit option \<times> sys) option" where
  "conflict_body service conflict_entry s =
     (case initng_active_db_find_by_name conflict_entry s of
        None \<Rightarrow> Some (None, s)
      | Some i \<Rightarrow>
          (if GET_STATE s i = IS_UP \<or> GET_STATE s i = IS_STARTING
           then Some (Some (), mark service CONFLICTING s)
           else Some (None, s)))"

definition check_conflict :: "env \<Rightarrow> s_event \<Rightarrow> sys \<Rightarrow> (s_event \<times> sys) option" where
  "check_conflict E ev s = do {
     service \<leftarrow> event_service EVENT_IS_CHANGE ev;
     (if GET_STATE s service \<noteq> IS_STARTING then Some (ev, s)
      else do {
        (r, s) \<leftarrow> while_next_string CONFLICT (\<lambda>s. a_data (svc s service)) (conflict_body service) (e_fuel E) None s;
        Some (ev, s) }) }"

definition conflict_module_init :: "sys \<Rightarrow> int \<times> sys" where
  "conflict_module_init s =
     (TRUE, register_states [CONFLICTING]
        (hook ''initng_conflict.c'' EVENT_IS_CHANGE ''check_conflict'' (register_entries [CONFLICT] s)))"

definition conflict_module_unload :: "sys \<Rightarrow> sys" where
  "conflict_module_unload s =
     unregister_entries [CONFLICT] (unregister_states [CONFLICTING]
        (initng_event_hook_unregister EVENT_IS_CHANGE ''check_conflict'' s))"

section \<open>lockfile\<close>

definition LOCKFILE :: s_entry where "LOCKFILE = S_Entry ''lockfile'' SET None"

definition LOCKDIR :: string where "LOCKDIR = ''/var/lock/subsys/''"

text \<open>What follows the last occurrence of a character; None stands for the pointer after NULL
  that the code reads when there is none.\<close>

fun strrchr_next :: "char \<Rightarrow> string \<Rightarrow> string option" where
  "strrchr_next c [] = None"
| "strrchr_next c (x # xs) = (case strrchr_next c xs of
     Some r \<Rightarrow> Some r | None \<Rightarrow> if x = c then Some xs else None)"

definition status_change :: "s_event \<Rightarrow> sys \<Rightarrow> (s_event \<times> sys) option" where
  "status_change ev s = do {
     service \<leftarrow> event_service EVENT_IS_CHANGE ev;
     (if is_set LOCKFILE service s then do {
        p \<leftarrow> strrchr_next (CHR ''/'') (a_name (svc s service));
        (let lockfile = LOCKDIR @ p in
         case GET_STATE s service of
           IS_UP \<Rightarrow> Some (ev, add_effects [Eff_creat lockfile] s)
         | IS_DOWN \<Rightarrow> Some (ev, add_effects [Eff_unlink lockfile] s)
         | _ \<Rightarrow> Some (ev, s)) }
      else Some (ev, s)) }"

definition lockfile_module_init :: "sys \<Rightarrow> int \<times> sys" where
  "lockfile_module_init s =
     (TRUE, hook ''initng_lockfile.c'' EVENT_IS_CHANGE ''status_change'' (register_entries [LOCKFILE] s))"

definition lockfile_module_unload :: "sys \<Rightarrow> sys" where
  "lockfile_module_unload s =
     initng_event_hook_unregister EVENT_IS_CHANGE ''status_change'' (unregister_entries [LOCKFILE] s)"

section \<open>last\<close>

definition LAST :: s_entry where "LAST = S_Entry ''last'' SET None"

definition last_body :: "env \<Rightarrow> sid \<Rightarrow> sid \<Rightarrow> sys \<Rightarrow> (unit option \<times> sys) option" where
  "last_body E service current s =
     (if current = service then Some (None, s)
      else if m_TYPE_PROVIDED s \<noteq> None \<and> a_type (svc s current) = m_TYPE_PROVIDED s then Some (None, s)
      else if is_set LAST current s then Some (None, s)
      else do {
        (b, s) \<leftarrow> initng_depend_deep E current service s;
        Some (if \<not> b \<and> GET_STATE s current = IS_STARTING then Some () else None, s) })"

definition check_last :: "env \<Rightarrow> s_event \<Rightarrow> sys \<Rightarrow> (s_event \<times> sys) option" where
  "check_last E ev s = do {
     service \<leftarrow> event_service EVENT_START_DEP_MET ev;
     (if \<not> is_set LAST service s then Some (ev, s)
      else
        (let s = (if m_TYPE_PROVIDED s = None
                  then s\<lparr>m_TYPE_PROVIDED := initng_service_type_get_by_name ''provided'' s\<rparr> else s)
         in do {
           (r, s) \<leftarrow> while_list g_active_db (last_body E service) (e_fuel E) s;
           Some (if r \<noteq> None then ev\<lparr>ev_status := FAILED\<rparr> else ev, s) })) }"

definition last_module_init :: "sys \<Rightarrow> int \<times> sys" where
  "last_module_init s =
     (TRUE, hook ''initng_last.c'' EVENT_START_DEP_MET ''check_last'' (register_entries [LAST] s))"

definition last_module_unload :: "sys \<Rightarrow> sys" where
  "last_module_unload s =
     initng_event_hook_unregister EVENT_START_DEP_MET ''check_last'' (unregister_entries [LAST] s)"

section \<open>synchron\<close>

definition SYNCRON :: s_entry where "SYNCRON = S_Entry ''syncron'' STRING None"

text \<open>The pointer to the state is looked up again by every call that reads it.\<close>

definition resolv_SSR :: "sys \<Rightarrow> a_state_h option" where
  "resolv_SSR s = initng_active_state_find ''SERVICE_START_RUN'' s"

definition check_syncronicly_service :: "s_event \<Rightarrow> sys \<Rightarrow> (s_event \<times> sys) option" where
  "check_syncronicly_service ev s = do {
     service \<leftarrow> event_service EVENT_START_DEP_MET ev;
     (case resolv_SSR s of
        None \<Rightarrow> Some (ev, s)
      | Some ssr \<Rightarrow>
          (case svc_get_string SYNCRON service s of
             None \<Rightarrow> Some (ev, s)
           | Some service_syncron \<Rightarrow>
               Some (if list_ex (\<lambda>current. current \<noteq> service \<and> IS_MARK s current ssr
                         \<and> svc_get_string SYNCRON current s = Some service_syncron) (rev (g_active_db s))
                     then ev\<lparr>ev_status := FAILED\<rparr> else ev, s))) }"

definition check_syncronicly :: "s_event \<Rightarrow> sys \<Rightarrow> (s_event \<times> sys) option" where
  "check_syncronicly ev s = do {
     service \<leftarrow> event_service EVENT_START_DEP_MET ev;
     (case resolv_SSR s of
        None \<Rightarrow> Some (ev, s)
      | Some ssr \<Rightarrow>
          Some (if list_ex (\<lambda>current. current \<noteq> service \<and> IS_MARK s service ssr) (rev (g_active_db s))
                then ev\<lparr>ev_status := FAILED\<rparr> else ev, s)) }"

definition strstr :: "string \<Rightarrow> string \<Rightarrow> bool" where
  "strstr haystack needle =
     list_ex (\<lambda>i. take (length needle) (drop i haystack) = needle) [0..<Suc (length haystack)]"

definition synchron_module_init :: "sys \<Rightarrow> int \<times> sys" where
  "synchron_module_init s =
     (let s = register_entries [SYNCRON] s in
      if list_ex (\<lambda>a. strstr a ''synchronously'') (g_argv s)
      then (TRUE, hook ''initng_synchron.c'' EVENT_START_DEP_MET ''check_syncronicly'' (s\<lparr>m_synchron_check := True\<rparr>))
      else (TRUE, hook ''initng_synchron.c'' EVENT_START_DEP_MET ''check_syncronicly_service''
                    (s\<lparr>m_synchron_check := False\<rparr>)))"

definition synchron_module_unload :: "sys \<Rightarrow> sys" where
  "synchron_module_unload s =
     (let s = (if m_synchron_check s
               then initng_event_hook_unregister EVENT_START_DEP_MET ''check_syncronicly'' s else s)
      in unregister_entries [SYNCRON]
           (initng_event_hook_unregister EVENT_START_DEP_MET ''check_syncronicly_service'' s))"

section \<open>fstat\<close>

definition WAIT_FOR_FILE :: s_entry where "WAIT_FOR_FILE = S_Entry ''wait_for_file'' STRINGS None"

definition REQUIRE_FILE :: s_entry where "REQUIRE_FILE = S_Entry ''require_file'' STRINGS None"

definition WAIT_FOR_FILE_AFTER :: s_entry where
  "WAIT_FOR_FILE_AFTER = S_Entry ''wait_for_file_after'' STRINGS None"

definition REQUIRE_FILE_AFTER :: s_entry where
  "REQUIRE_FILE_AFTER = S_Entry ''require_file_after'' STRINGS None"

definition REQUIRE_FILE_FAILED :: a_state_h where
  "REQUIRE_FILE_FAILED = plain_state ''REQUIRE_FILE_FAILED'' IS_FAILED"

definition REQUIRE_FILE_AFTER_FAILED :: a_state_h where
  "REQUIRE_FILE_AFTER_FAILED = plain_state ''REQUIRE_FILE_AFTER_FAILED'' IS_FAILED"

definition wait_file_body :: "env \<Rightarrow> string \<Rightarrow> sys \<Rightarrow> (unit option \<times> sys) option" where
  "wait_file_body E file s =
     (if e_stat E file s = None then Some (Some (), initng_global_set_sleep 1 s) else Some (None, s))"

definition require_file_body :: "env \<Rightarrow> sid \<Rightarrow> a_state_h \<Rightarrow> string \<Rightarrow> sys \<Rightarrow> (unit option \<times> sys) option" where
  "require_file_body E service failed file s =
     (if e_stat E file s = None then Some (Some (), mark service failed s) else Some (None, s))"

text \<open>The cursor \<open>itt\<close> is NULL again when the first loop has run to its end.\<close>

definition check_files_to_exist :: "env \<Rightarrow> s_event \<Rightarrow> sys \<Rightarrow> (s_event \<times> sys) option" where
  "check_files_to_exist E ev s = do {
     service \<leftarrow> event_service EVENT_START_DEP_MET ev;
     (r, s) \<leftarrow> while_next_string WAIT_FOR_FILE (\<lambda>s. a_data (svc s service)) (wait_file_body E) (e_fuel E) None s;
     (if r \<noteq> None then Some (ev\<lparr>ev_status := FAILED\<rparr>, s)
      else do {
        (r, s) \<leftarrow> while_next_string REQUIRE_FILE (\<lambda>s. a_data (svc s service))
          (require_file_body E service REQUIRE_FILE_FAILED) (e_fuel E) None s;
        Some (if r \<noteq> None then ev\<lparr>ev_status := FAILED\<rparr> else ev, s) }) }"

text \<open>The second loop reads the same variable as the first.\<close>

definition check_files_to_exist_after :: "env \<Rightarrow> s_event \<Rightarrow> sys \<Rightarrow> (s_event \<times> sys) option" where
  "check_files_to_exist_after E ev s = do {
     service \<leftarrow> event_service EVENT_UP_MET ev;
     (r, s) \<leftarrow> while_next_string WAIT_FOR_FILE_AFTER (\<lambda>s. a_data (svc s service)) (wait_file_body E) (e_fuel E) None s;
     (if r \<noteq> None then Some (ev\<lparr>ev_status := FAILED\<rparr>, s)
      else do {
        (r, s) \<leftarrow> while_next_string WAIT_FOR_FILE_AFTER (\<lambda>s. a_data (svc s service))
          (require_file_body E service REQUIRE_FILE_AFTER_FAILED) (e_fuel E) None s;
        Some (if r \<noteq> None then ev\<lparr>ev_status := FAILED\<rparr> else ev, s) }) }"

definition fstat_entries :: "s_entry list" where
  "fstat_entries = [WAIT_FOR_FILE, REQUIRE_FILE, WAIT_FOR_FILE_AFTER, REQUIRE_FILE_AFTER]"

definition fstat_module_init :: "sys \<Rightarrow> int \<times> sys" where
  "fstat_module_init s =
     (TRUE, hook ''initng_fstat.c'' EVENT_UP_MET ''check_files_to_exist_after''
        (hook ''initng_fstat.c'' EVENT_START_DEP_MET ''check_files_to_exist''
          (register_states [REQUIRE_FILE_FAILED, REQUIRE_FILE_AFTER_FAILED] (register_entries fstat_entries s))))"

definition fstat_module_unload :: "sys \<Rightarrow> sys" where
  "fstat_module_unload s =
     initng_event_hook_unregister EVENT_UP_MET ''check_files_to_exist_after''
       (initng_event_hook_unregister EVENT_START_DEP_MET ''check_files_to_exist''
         (unregister_states [REQUIRE_FILE_FAILED, REQUIRE_FILE_AFTER_FAILED] (unregister_entries fstat_entries s)))"

section \<open>interactive\<close>

definition INT_DISABLED :: a_state_h where "INT_DISABLED = plain_state ''INTERACTIVELY_DISABLED'' IS_FAILED"

definition interactive_off :: "sys \<Rightarrow> sys" where
  "interactive_off s =
     initng_event_hook_unregister EVENT_STOP_DEP_MET ''interactive_STOP_MARKED''
       (initng_event_hook_unregister EVENT_START_DEP_MET ''interactive_STARTING'' s)"

text \<open>The question is written to the terminal; the first character of the answer decides, and
  an answer that cannot be read is no.\<close>

definition interactive_ask :: "env \<Rightarrow> string \<Rightarrow> s_event_type \<Rightarrow> s_event \<Rightarrow> sys \<Rightarrow> (s_event \<times> sys) option" where
  "interactive_ask E verb t ev s = do {
     service \<leftarrow> event_service t ev;
     (let s = add_effects [Eff_print (verb @ '' service '' @ a_name (svc s service) @ '', (Y/n/a):'')] s;
          asw = (case e_stdin E s of Some (c # _) \<Rightarrow> c | Some [] \<Rightarrow> char_of (0::nat) | None \<Rightarrow> CHR ''n'')
      in if asw = CHR ''y'' \<or> asw = CHR ''Y'' then Some (ev, s)
         else if asw = CHR ''a'' \<or> asw = CHR ''A''
         then Some (ev, (interactive_off s)\<lparr>m_interactive_active := False\<rparr>)
         else Some (ev\<lparr>ev_status := FAILED\<rparr>, mark service INT_DISABLED s)) }"

definition interactive_STARTING :: "env \<Rightarrow> s_event \<Rightarrow> sys \<Rightarrow> (s_event \<times> sys) option" where
  "interactive_STARTING E = interactive_ask E ''Start'' EVENT_START_DEP_MET"

definition interactive_STOP_MARKED :: "env \<Rightarrow> s_event \<Rightarrow> sys \<Rightarrow> (s_event \<times> sys) option" where
  "interactive_STOP_MARKED E = interactive_ask E ''Stop'' EVENT_STOP_DEP_MET"

definition interactive_module_unload :: "sys \<Rightarrow> sys" where
  "interactive_module_unload s = (if m_interactive_active s then interactive_off s else s)"

section \<open>daemon_clean, ctrlaltdel and unneeded\<close>

definition T_DAEMON_CLEAN :: ptype_h where
  "T_DAEMON_CLEAN = \<lparr>pt_name = ''daemon_clean'', pt_kill_handler = None\<rparr>"

definition on_kill :: "env \<Rightarrow> s_event \<Rightarrow> sys \<Rightarrow> (s_event \<times> sys) option" where
  "on_kill E ev s =
     (case ev_data ev of
        ED_process service pa \<Rightarrow>
          (if ev_type ev \<noteq> EVENT_HANDLE_KILLED then None
           else do {
             p \<leftarrow> process_at service pa s;
             (if pt_name (p_pt p) \<noteq> ''daemon'' then Some (ev, s)
              else do { (r, s) \<leftarrow> initng_execute_launch E service T_DAEMON_CLEAN None s; Some (ev, s) }) })
      | _ \<Rightarrow> None)"

definition daemon_clean_module_init :: "sys \<Rightarrow> int \<times> sys" where
  "daemon_clean_module_init s =
     (TRUE, hook ''initng_daemon_clean.c'' EVENT_HANDLE_KILLED ''on_kill'' (initng_process_db_ptype_register T_DAEMON_CLEAN s))"

definition daemon_clean_module_unload :: "sys \<Rightarrow> sys" where
  "daemon_clean_module_unload s =
     initng_process_db_ptype_unregister T_DAEMON_CLEAN (initng_event_hook_unregister EVENT_HANDLE_KILLED ''on_kill'' s)"

definition SIGINT :: int where "SIGINT = 2"

definition ctrlaltdel :: "env \<Rightarrow> s_event \<Rightarrow> sys \<Rightarrow> (s_event \<times> sys) option" where
  "ctrlaltdel E ev s =
     (case ev_data ev of
        ED_int signal \<Rightarrow>
          (if ev_type ev \<noteq> EVENT_SIGNAL then None
           else if signal \<noteq> SIGINT then Some (ev, s)
           else do {
             (r, s) \<leftarrow> initng_handler_stop_all E (s\<lparr>g_when_out := THEN_REBOOT\<rparr>);
             Some (ev, s) })
      | _ \<Rightarrow> None)"

definition ctrlaltdel_module_init :: "sys \<Rightarrow> int \<times> sys" where
  "ctrlaltdel_module_init s = (TRUE, hook ''initng_ctrlaltdel.c'' EVENT_SIGNAL ''ctrlaltdel'' s)"

definition ctrlaltdel_module_unload :: "sys \<Rightarrow> sys" where
  "ctrlaltdel_module_unload s = initng_event_hook_unregister EVENT_SIGNAL ''ctrlaltdel'' s"

definition needed_body :: "env \<Rightarrow> sid \<Rightarrow> sid \<Rightarrow> sys \<Rightarrow> (unit option \<times> sys) option" where
  "needed_body E A B s =
     (if A = B then Some (None, s)
      else do { (b, s) \<leftarrow> initng_depend E B A s; Some (if b then Some () else None, s) })"

definition stop_unneeded_service :: "env \<Rightarrow> stype_h option \<Rightarrow> sid \<Rightarrow> sys \<Rightarrow> (unit option \<times> sys) option" where
  "stop_unneeded_service E runlevel A s =
     (if a_type (svc s A) = runlevel then Some (None, s)
      else do {
        (needed, s) \<leftarrow> while_list g_active_db (needed_body E A) (e_fuel E) s;
        (if needed = None then do { (r, s) \<leftarrow> initng_handler_stop_service E A s; Some (None, s) }
         else Some (None, s)) })"

definition cmd_stop_unneeded :: "env \<Rightarrow> sys \<Rightarrow> (int \<times> sys) option" where
  "cmd_stop_unneeded E s = do {
     (r, s) \<leftarrow> while_list_safe g_active_db
       (stop_unneeded_service E (initng_service_type_get_by_name ''runlevel'' s)) (e_fuel E) s;
     Some (TRUE, s) }"

section \<open>provide\<close>

definition PROVIDE :: s_entry where "PROVIDE = S_Entry ''provide'' STRINGS None"

definition PCOUNT :: s_entry where "PCOUNT = S_Entry ''p_count'' INT_T None"

definition PROVIDED :: stype_h where
  "PROVIDED = \<lparr>sty_name = ''provided'', sty_hidden = True, sty_start = Some ''dont_try_to_stop_start'',
     sty_stop = Some ''dont_try_to_stop_start'', sty_restart = Some ''dont_try_to_stop_start''\<rparr>"

definition SOON_PROVIDED :: a_state_h where "SOON_PROVIDED = plain_state ''SOON_PROVIDED'' IS_STARTING"

definition PROVIDE_UP :: a_state_h where "PROVIDE_UP = plain_state ''PROVIDED'' IS_UP"

definition PROVIDE_DOWN :: a_state_h where "PROVIDE_DOWN = plain_state ''NOT_PROVIDED'' IS_DOWN"

definition dont_try_to_stop_start :: "sid \<Rightarrow> sys \<Rightarrow> (int \<times> sys) option" where
  "dont_try_to_stop_start service s = Some (FALSE, s)"

definition virtual_service_set_up :: "string \<Rightarrow> sys \<Rightarrow> int \<times> sys" where
  "virtual_service_set_up name s =
     (case initng_active_db_find_by_name name s of
        Some vserv \<Rightarrow> if GET_STATE s vserv = IS_STARTING then (TRUE, mark vserv PROVIDE_UP s) else (FALSE, s)
      | None \<Rightarrow> (FALSE, s))"

definition add_virtual_service :: "string \<Rightarrow> sys \<Rightarrow> int \<times> sys" where
  "add_virtual_service name s =
     (case initng_active_db_find_by_name name s of
        Some vserv \<Rightarrow>
          (if a_type (svc s vserv) \<noteq> Some PROVIDED then (FALSE, s)
           else
             (let s = (if GET_STATE s vserv \<in> {IS_UP, IS_STARTING} then s else mark vserv SOON_PROVIDED s)
              in (TRUE, svc_set_int PCOUNT vserv (svc_get_int PCOUNT vserv s + 1) s)))
      | None \<Rightarrow>
          (let (vserv, s) = initng_active_db_new name s;
               s = upd_svc vserv (\<lambda>a. a\<lparr>a_type := Some PROVIDED\<rparr>) s;
               (r, s) = initng_active_db_register vserv s
           in if r = FALSE then (FALSE, initng_active_db_free vserv s)
              else (TRUE, svc_set_int PCOUNT vserv 1 (mark vserv SOON_PROVIDED s))))"

definition remove_virtual_service :: "string \<Rightarrow> sys \<Rightarrow> sys" where
  "remove_virtual_service name s =
     (case initng_active_db_find_by_name name s of
        None \<Rightarrow> s
      | Some vserv \<Rightarrow>
          (if a_type (svc s vserv) \<noteq> Some PROVIDED then s
           else
             (let (i, s) = (if GET_STATE s vserv = IS_UP
                            then (let i = svc_get_int PCOUNT vserv s - 1 in (i, svc_set_int PCOUNT vserv i s))
                            else (0, s))
              in if i = 0 \<or> g_sys_state s = STATE_STOPPING then mark vserv PROVIDE_DOWN s else s)))"

definition provide_service_state :: "env \<Rightarrow> s_event \<Rightarrow> sys \<Rightarrow> (s_event \<times> sys) option" where
  "provide_service_state E ev s = do {
     service \<leftarrow> event_service EVENT_IS_CHANGE ev;
     (let each_provide = (\<lambda>body. do {
            (r, s) \<leftarrow> while_next_string PROVIDE (\<lambda>s. a_data (svc s service)) body (e_fuel E) None s;
            Some (ev, s) });
          stop_at = (\<lambda>x. Some (if fst x = FALSE then Some () else None, snd x))
      in case GET_STATE s service of
           IS_STARTING \<Rightarrow>
             if g_sys_state s = STATE_STOPPING then Some (ev, s)
             else each_provide (\<lambda>tmp s. stop_at (add_virtual_service tmp s))
         | IS_UP \<Rightarrow>
             if g_sys_state s = STATE_STOPPING then Some (ev, s)
             else each_provide (\<lambda>tmp s. stop_at (virtual_service_set_up tmp s))
         | _ \<Rightarrow> each_provide (\<lambda>tmp s. Some (None :: unit option, remove_virtual_service tmp s))) }"

definition provide_module_init :: "sys \<Rightarrow> int \<times> sys" where
  "provide_module_init s =
     (TRUE, hook ''initng_provide.c'' EVENT_IS_CHANGE ''provide_service_state''
        (register_entries [PROVIDE, PCOUNT]
          (register_states [SOON_PROVIDED, PROVIDE_UP, PROVIDE_DOWN] (initng_service_type_register PROVIDED s))))"

definition provide_module_unload :: "sys \<Rightarrow> sys" where
  "provide_module_unload s =
     initng_service_type_unregister PROVIDED
       (unregister_states [SOON_PROVIDED, PROVIDE_UP, PROVIDE_DOWN]
         (unregister_entries [PROVIDE, PCOUNT]
           (initng_event_hook_unregister EVENT_IS_CHANGE ''provide_service_state'' s)))"

end
