(* ===== verification/Module_DB.thy ===== *)
theory Module_DB
  imports Hook_Modules
begin

text \<open>
  The module loader of src/main/module and the command database of src/main/command. A module is
  known by the address of its entry; \<open>g_modules\<close> is the memory of the entries and \<open>g_module_db\<close>
  the linked list. The file system, the dynamic linker and the functions of the modules are part
  of the environment; the directory of the modules is set by the build and a parameter.
\<close>

section \<open>Dependencies between modules\<close>

definition module_is_loaded :: "string \<Rightarrow> sys \<Rightarrow> bool" where
  "module_is_loaded module_name s = list_ex (\<lambda>a. m_name (g_modules s a) = module_name) (rev (g_module_db s))"

definition module_needs_are_loaded :: "m_h \<Rightarrow> sys \<Rightarrow> bool" where
  "module_needs_are_loaded m s = list_all (\<lambda>need. module_is_loaded need s) (mi_deps (m_modinfo m))"

definition module_is_needed :: "string \<Rightarrow> sys \<Rightarrow> bool" where
  "module_is_needed module_name s =
     list_ex (\<lambda>a. module_name \<in> set (mi_deps (m_modinfo (g_modules s a)))) (rev (g_module_db s))"

section \<open>Loading\<close>

definition API_VERSION :: int where "API_VERSION = 19"

definition upd_module :: "nat \<Rightarrow> (m_h \<Rightarrow> m_h) \<Rightarrow> sys \<Rightarrow> sys" where
  "upd_module a f s = s\<lparr>g_modules := (g_modules s)(a := f (g_modules s a))\<rparr>"

definition initng_module_open :: "env \<Rightarrow> string \<Rightarrow> string \<Rightarrow> sys \<Rightarrow> nat option \<times> sys" where
  "initng_module_open E module_path module_name s =
     (let m = g_next_addr s; s = bump_addr s in
      if e_stat E module_path s = None then (None, s)
      else case e_dlopen E module_path s of
        None \<Rightarrow> (None, s)
      | Some modinfo \<Rightarrow>
          if mi_api_version modinfo \<noteq> API_VERSION then (None, s)
          else if mi_init modinfo = None \<or> mi_unload modinfo = None then (None, s)
          else (Some m, upd_module m (\<lambda>_. \<lparr>m_name = module_name, m_path = module_path, m_modinfo = modinfo,
                  m_initialized = False, m_remove = False\<rparr>) s))"

definition initng_module_close_and_free :: "nat \<Rightarrow> sys \<Rightarrow> sys" where
  "initng_module_close_and_free m s = s\<lparr>g_module_db := list_del m (g_module_db s)\<rparr>"

text \<open>A copy of the string without its last three characters; for a shorter string the length
  is negative and the whole string is copied.\<close>

definition without_suffix :: "string \<Rightarrow> string" where
  "without_suffix str = (if length str < 3 then str else take (length str - 3) str)"

definition module_name_of :: "string \<Rightarrow> string" where
  "module_name_of module =
     (if module \<noteq> [] \<and> hd module = CHR ''/'' \<and> strstr module ''.so'' then
        (let rest = (case strrchr_next (CHR ''/'') module of Some r \<Rightarrow> r | None \<Rightarrow> module);
             rest = (if take 3 rest = ''mod'' then drop 3 rest else rest)
         in without_suffix rest)
      else module)"

fun open_first :: "env \<Rightarrow> string list \<Rightarrow> string \<Rightarrow> sys \<Rightarrow> nat option \<times> sys" where
  "open_first E [] name s = (None, s)"
| "open_first E (p # ps) name s =
     (case initng_module_open E p name s of
        (Some m, s) \<Rightarrow> (Some m, s)
      | (None, s) \<Rightarrow> open_first E ps name s)"

definition module_paths :: "string \<Rightarrow> string \<Rightarrow> string list" where
  "module_paths dir module =
     (let name = module_name_of module
      in (if module \<noteq> [] \<and> hd module = CHR ''/'' \<and> strstr module ''.so'' then module
          else dir @ ''/mod'' @ name @ ''.so'')
         # map (\<lambda>d. d @ name @ ''.so'') [''/lib/initng/'', ''/lib32/initng/'', ''/lib64/initng/''])"

text \<open>Run the initialisation of a module; a result that is not positive closes it again.\<close>

definition init_module :: "env \<Rightarrow> nat \<Rightarrow> sys \<Rightarrow> (bool \<times> sys) option" where
  "init_module E m s = do {
     f \<leftarrow> mi_init (m_modinfo (g_modules s m));
     (r, s) \<leftarrow> e_mod_init E f s;
     Some (if 0 < r then (True, upd_module m (\<lambda>x. x\<lparr>m_initialized := True\<rparr>) s)
           else (False, initng_module_close_and_free m s)) }"

definition initng_module_load :: "env \<Rightarrow> string \<Rightarrow> string \<Rightarrow> sys \<Rightarrow> (nat option \<times> sys) option" where
  "initng_module_load E dir module s =
     (let module_name = module_name_of module in
      if module_is_loaded module_name s then Some (None, s)
      else case open_first E (module_paths dir module) module_name s of
        (None, s) \<Rightarrow> Some (None, s)
      | (Some new_m, s) \<Rightarrow>
          (if \<not> module_needs_are_loaded (g_modules s new_m) s
           then Some (None, initng_module_close_and_free new_m s)
           else do {
             (r, s) \<leftarrow> init_module E new_m s;
             Some (if r then (Some new_m, s\<lparr>g_module_db := list_add new_m (g_module_db s)\<rparr>)
                   else (None, s)) }))"

text \<open>One name of the module directory.\<close>

definition scan_file :: "env \<Rightarrow> (string \<Rightarrow> string \<Rightarrow> bool) \<Rightarrow> string \<Rightarrow> string \<Rightarrow> int \<times> sys \<Rightarrow> int \<times> sys" where
  "scan_file E fnm path file x =
     (let (success, s) = x in
      if take 3 file \<noteq> ''mod'' then x
      else
        (let module = without_suffix (drop 3 file) in
         if initng_common_service_blacklisted fnm module s \<noteq> FALSE then x
         else case initng_module_open E (path @ ''/'' @ file) module s of
           (None, s) \<Rightarrow> (success, s)
         | (Some current, s) \<Rightarrow> (TRUE, s\<lparr>g_module_db := list_add current (g_module_db s)\<rparr>)))"

definition load_body :: "env \<Rightarrow> nat \<Rightarrow> sys \<Rightarrow> (unit option \<times> sys) option" where
  "load_body E current s =
     (if m_initialized (g_modules s current) then Some (None, s)
      else if \<not> module_needs_are_loaded (g_modules s current) s
      then Some (None, initng_module_close_and_free current s)
      else do { (r, s) \<leftarrow> init_module E current s; Some (None, s) })"

definition initng_module_load_all :: "env \<Rightarrow> (string \<Rightarrow> string \<Rightarrow> bool) \<Rightarrow> string \<Rightarrow> sys \<Rightarrow> (int \<times> sys) option" where
  "initng_module_load_all E fnm path s =
     (case e_readdir E path s of
        None \<Rightarrow> Some (FALSE, s)
      | Some files \<Rightarrow>
          (let (success, s) = fold (scan_file E fnm path) files (FALSE, s) in do {
             (r, s) \<leftarrow> while_list_safe g_module_db (load_body E) (e_fuel E) s;
             Some (success, s) }))"

section \<open>Unloading\<close>

definition unload :: "env \<Rightarrow> nat \<Rightarrow> sys \<Rightarrow> sys option" where
  "unload E m s = do {
     f \<leftarrow> mi_unload (m_modinfo (g_modules s m));
     s \<leftarrow> e_mod_unload E f s;
     Some (initng_module_close_and_free m s) }"

definition initng_module_unload_named :: "string \<Rightarrow> sys \<Rightarrow> int \<times> sys" where
  "initng_module_unload_named name s =
     (if \<not> module_is_loaded name s then (FALSE, s)
      else case find (\<lambda>a. m_name (g_modules s a) = name) (rev (g_module_db s)) of
        Some m \<Rightarrow> (TRUE, (upd_module m (\<lambda>x. x\<lparr>m_remove := True\<rparr>) s)\<lparr>g_modules_to_unload := True\<rparr>)
      | None \<Rightarrow> (FALSE, s))"

definition initng_module_unload_all :: "env \<Rightarrow> sys \<Rightarrow> sys option" where
  "initng_module_unload_all E s = do {
     (r, s) \<leftarrow> while_list_safe g_module_db
       (\<lambda>m s. do { s \<leftarrow> unload E m s; Some (None :: unit option, s) }) (e_fuel E) s;
     Some (s\<lparr>g_module_db := []\<rparr>) }"

definition unload_marked_body :: "env \<Rightarrow> nat \<Rightarrow> sys \<Rightarrow> (unit option \<times> sys) option" where
  "unload_marked_body E m s =
     (if \<not> m_remove (g_modules s m) then Some (None, s)
      else if module_is_needed (m_name (g_modules s m)) s
      then Some (None, upd_module m (\<lambda>x. x\<lparr>m_remove := False\<rparr>) s)
      else do { s \<leftarrow> unload E m s; Some (None, s) })"

definition initng_module_unload_marked :: "env \<Rightarrow> sys \<Rightarrow> sys option" where
  "initng_module_unload_marked E s =
     map_option snd (while_list_safe g_module_db (unload_marked_body E) (e_fuel E) s)"

text \<open>The module interactive unloads itself when it is not asked for.\<close>

definition interactive_module_init :: "sys \<Rightarrow> int \<times> sys" where
  "interactive_module_init s =
     (if list_ex (\<lambda>a. strstr a ''interactive'') (g_argv s)
      then (TRUE, (hook ''initng_interactive.c'' EVENT_STOP_DEP_MET ''interactive_STOP_MARKED''
              (hook ''initng_interactive.c'' EVENT_START_DEP_MET ''interactive_STARTING''
                (add_effects [Eff_print ''Initng is started in interactive mode!''] s)))\<lparr>m_interactive_active := True\<rparr>)
      else (TRUE, snd (initng_module_unload_named ''interactive'' (s\<lparr>m_interactive_active := False\<rparr>))))"

section \<open>Commands\<close>

definition initng_command_register :: "s_command \<Rightarrow> sys \<Rightarrow> int \<times> sys" where
  "initng_command_register cmd s =
     (if list_ex (\<lambda>c. c = cmd \<or> cmd_id c = cmd_id cmd) (rev (g_command_db s)) then (FALSE, s)
      else (TRUE, s\<lparr>g_command_db := list_add cmd (g_command_db s)\<rparr>))"

definition initng_command_unregister :: "s_command \<Rightarrow> sys \<Rightarrow> sys" where
  "initng_command_unregister cmd s = s\<lparr>g_command_db := list_del cmd (g_command_db s)\<rparr>"

definition initng_command_unregister_all :: "sys \<Rightarrow> sys" where
  "initng_command_unregister_all s = fold initng_command_unregister (rev (g_command_db s)) s"

definition initng_command_find_by_command_id :: "char \<Rightarrow> sys \<Rightarrow> s_command option" where
  "initng_command_find_by_command_id cid s = find (\<lambda>c. cmd_id c = cid) (rev (g_command_db s))"

definition initng_command_find_by_command_string :: "string \<Rightarrow> sys \<Rightarrow> s_command option" where
  "initng_command_find_by_command_string name s = find (\<lambda>c. cmd_long_id c = Some name) (rev (g_command_db s))"

definition initng_command_execute_arg :: "env \<Rightarrow> char \<Rightarrow> string option \<Rightarrow> sys \<Rightarrow> (int \<times> sys) option" where
  "initng_command_execute_arg E cid arg s =
     (case initng_command_find_by_command_id cid s of
        None \<Rightarrow> Some (FALSE, s)
      | Some cmd \<Rightarrow>
          (if cmd_com_type cmd \<noteq> INT_COMMAND then Some (FALSE, s)
           else case cmd_call cmd of
             None \<Rightarrow> Some (FALSE, s)
           | Some call \<Rightarrow>
               if arg = None \<and> cmd_opt_type cmd = REQUIRES_OPT then Some (FALSE, s)
               else if arg \<noteq> None \<and> cmd_opt_type cmd = NO_OPT then Some (FALSE, s)
               else e_command E call arg s))"

definition STOP_UNNEEDED :: s_command where
  "STOP_UNNEEDED = \<lparr>cmd_id = CHR ''y'', cmd_long_id = Some ''stop_unneeded'', cmd_com_type = INT_COMMAND,
     cmd_opt_type = NO_OPT, cmd_call = Some ''cmd_stop_unneeded''\<rparr>"

definition unneeded_module_init :: "sys \<Rightarrow> int \<times> sys" where
  "unneeded_module_init s = (TRUE, snd (initng_command_register STOP_UNNEEDED s))"

definition unneeded_module_unload :: "sys \<Rightarrow> sys" where
  "unneeded_module_unload s = initng_command_unregister STOP_UNNEEDED s"

section \<open>Lemmas\<close>

text \<open>Two states with the same module database.\<close>

definition same_modules :: "sys \<Rightarrow> sys \<Rightarrow> bool" where
  "same_modules s t \<longleftrightarrow> g_modules t = g_modules s \<and> g_module_db t = g_module_db s"

definition deps_closed :: "sys \<Rightarrow> bool" where
  "deps_closed s \<longleftrightarrow> (\<forall>a \<in> set (g_module_db s). module_needs_are_loaded (g_modules s a) s)"

lemma upd_module_simps [simp]:
  "g_module_db (upd_module m f s) = g_module_db s"
  "g_modules (upd_module m f s) = (g_modules s)(m := f (g_modules s m))"
  by (simp_all add: upd_module_def)

lemma close_simps [simp]:
  "g_module_db (initng_module_close_and_free m s) = list_del m (g_module_db s)"
  "g_modules (initng_module_close_and_free m s) = g_modules s"
  by (simp_all add: initng_module_close_and_free_def)

text \<open>The checks read the names and the needs of the entries only.\<close>

lemma needs_cong:
  assumes "g_module_db t = g_module_db s" and "\<And>a. m_name (g_modules t a) = m_name (g_modules s a)"
    and "mi_deps (m_modinfo m) = mi_deps (m_modinfo m')"
  shows "module_needs_are_loaded m' t = module_needs_are_loaded m s"
  using assms by (simp add: module_needs_are_loaded_def module_is_loaded_def)

lemma deps_closed_flag:
  assumes "\<And>x. m_name (f x) = m_name x \<and> m_modinfo (f x) = m_modinfo x"
  shows "deps_closed (upd_module m f s) = deps_closed s"
proof -
  have n: "m_name (g_modules (upd_module m f s) a) = m_name (g_modules s a)"
    and i: "mi_deps (m_modinfo (g_modules s a)) = mi_deps (m_modinfo (g_modules (upd_module m f s) a))" for a
    using assms by simp_all
  have "module_needs_are_loaded (g_modules (upd_module m f s) a) (upd_module m f s)
      = module_needs_are_loaded (g_modules s a) s" for a
    by (rule needs_cong) (use n i in auto)
  then show ?thesis by (simp add: deps_closed_def)
qed

lemma deps_closed_close:
  assumes "deps_closed s" and "\<not> module_is_needed (m_name (g_modules s m)) s"
  shows "deps_closed (initng_module_close_and_free m s)"
proof -
  have "module_is_loaded n (initng_module_close_and_free m s)"
    if a: "a \<in> set (g_module_db s)" and n: "n \<in> set (mi_deps (m_modinfo (g_modules s a)))" for a n
  proof -
    from assms(1) a n obtain b where b: "b \<in> set (g_module_db s)" "m_name (g_modules s b) = n"
      by (auto simp: deps_closed_def module_needs_are_loaded_def module_is_loaded_def list_ex_iff list_all_iff)
    moreover from assms(2) a n b have "b \<noteq> m" by (auto simp: module_is_needed_def list_ex_iff)
    ultimately show ?thesis by (auto simp: module_is_loaded_def list_ex_iff list_del_def)
  qed
  then show ?thesis
    using notin_set_remove1
    by (force simp: deps_closed_def module_needs_are_loaded_def list_all_iff list_del_def)
qed

text \<open>The initialisation of one module, when the initialisation succeeds and leaves the database
  alone.\<close>

lemma load_body_inits:
  assumes init: "\<And>f u. \<exists>u'. e_mod_init E f u = Some (1, u') \<and> same_modules u u'"
    and a: "mi_init (m_modinfo (g_modules s a)) \<noteq> None" "module_needs_are_loaded (g_modules s a) s"
  shows "\<exists>u. load_body E a s = Some (None, u) \<and> g_module_db u = g_module_db s
    \<and> g_modules u = (g_modules s)(a := (g_modules s a)\<lparr>m_initialized := True\<rparr>)"
proof -
  from a(1) obtain f where f: "mi_init (m_modinfo (g_modules s a)) = Some f" by blast
  from init [of f s] obtain u' where u': "e_mod_init E f s = Some (1, u')" "same_modules s u'" by blast
  have [simp]: "(g_modules s)(a := (g_modules s a)\<lparr>m_initialized := True\<rparr>) = g_modules s"
    if "m_initialized (g_modules s a)"
    using that by (cases "g_modules s a") (simp add: fun_upd_idem)
  show ?thesis
    using f u' a(2) by (cases "m_initialized (g_modules s a)")
      (simp_all add: load_body_def init_module_def same_modules_def)
qed

lemma load_body_list:
  assumes "\<And>f u r u'. e_mod_init E f u = Some (r, u') \<Longrightarrow> same_modules u u'"
    and "load_body E a s = Some (r, t)"
  shows "g_module_db t = g_module_db s \<or> g_module_db t = list_del a (g_module_db s)"
  using assms
  by (auto simp: load_body_def init_module_def same_modules_def split: if_splits bind_splits)

text \<open>A database in which every entry can be initialised.\<close>

definition loadable :: "sys \<Rightarrow> bool" where
  "loadable s \<longleftrightarrow> deps_closed s \<and> (\<forall>a \<in> set (g_module_db s). mi_init (m_modinfo (g_modules s a)) \<noteq> None)"

lemma each_load:
  assumes init: "\<And>f u. \<exists>u'. e_mod_init E f u = Some (1, u') \<and> same_modules u u'"
  shows "set as \<subseteq> set (g_module_db s) \<Longrightarrow> loadable s \<Longrightarrow>
    \<exists>u. each (load_body E) as s = Some (None, u) \<and> g_module_db u = g_module_db s \<and> loadable u
      \<and> (\<forall>a. m_initialized (g_modules u a) \<longleftrightarrow> m_initialized (g_modules s a) \<or> a \<in> set as)"
proof (induction as arbitrary: s)
  case (Cons a as)
  then have a: "mi_init (m_modinfo (g_modules s a)) \<noteq> None" "module_needs_are_loaded (g_modules s a) s"
    by (auto simp: loadable_def deps_closed_def)
  from load_body_inits [OF init a] obtain u where
    u: "load_body E a s = Some (None, u)" "g_module_db u = g_module_db s"
      "g_modules u = (g_modules s)(a := (g_modules s a)\<lparr>m_initialized := True\<rparr>)" by blast
  have "deps_closed u = deps_closed (upd_module a (\<lambda>x. x\<lparr>m_initialized := True\<rparr>) s)"
    using u by (simp add: deps_closed_def module_needs_are_loaded_def module_is_loaded_def)
  then have "loadable u"
    using Cons.prems(2) u deps_closed_flag [of "\<lambda>x. x\<lparr>m_initialized := True\<rparr>" a s]
    by (simp add: loadable_def)
  with Cons.IH [of u] Cons.prems(1) u show ?case by auto
qed simp

section \<open>Properties\<close>



text \<open>C40: unloading the marked modules never leaves a module without one that it needs, when the
  unload functions do not touch the module database.\<close>

theorem unload_marked_keeps_needs:
  assumes keep: "\<And>f u u'. e_mod_unload E f u = Some u' \<Longrightarrow> same_modules u u'"
    and "deps_closed s" and "initng_module_unload_marked E s = Some t"
  shows "deps_closed t"
proof -
  have "deps_closed u'" if b: "unload_marked_body E m u = Some (r, u')" and u: "deps_closed u" for m u r u'
  proof (cases "m_remove (g_modules u m) \<and> \<not> module_is_needed (m_name (g_modules u m)) u")
    case True
    with b obtain f v where "e_mod_unload E f u = Some v" "u' = initng_module_close_and_free m v"
      by (auto simp: unload_marked_body_def unload_def split: bind_splits)
    moreover from this keep have "same_modules u v" by blast
    moreover from this u True have "deps_closed (initng_module_close_and_free m v)"
      by (intro deps_closed_close) (simp_all add: same_modules_def deps_closed_def module_is_needed_def
          module_needs_are_loaded_def module_is_loaded_def)
    ultimately show ?thesis by simp
  next
    case False
    with b u deps_closed_flag [of "\<lambda>x. x\<lparr>m_remove := False\<rparr>" m u] show ?thesis
      by (auto simp: unload_marked_body_def split: if_splits)
  qed
  from while_list_safe_invariant [where P = deps_closed, OF this] assms(2,3) show ?thesis
    by (auto simp: initng_module_unload_marked_def)
qed

theorem unload_marked_keeps_needs_witness:
  "let E = (bare_env 9)\<lparr>e_mod_unload := (\<lambda>_ s. Some s)\<rparr>;
     info = (\<lambda>ds. \<lparr>mi_api_version = 19, mi_init = Some ''init'', mi_unload = Some ''unload'', mi_deps = ds\<rparr>);
     a = \<lparr>m_name = ''a'', m_path = ''a.so'', m_modinfo = info [], m_initialized = True, m_remove = True\<rparr>;
     b = \<lparr>m_name = ''b'', m_path = ''b.so'', m_modinfo = info [''a''], m_initialized = True, m_remove = False\<rparr>;
     s = (global_zero [] \<lparr>tv_sec = 0, tv_usec = 0\<rparr>)\<lparr>g_module_db := [Suc 0, 0],
           g_modules := (\<lambda>i. if i = 0 then a else b)\<rparr>
   in \<exists>t. initng_module_unload_marked E s = Some t \<and> deps_closed t"
proof -
  let ?E = "(bare_env 9)\<lparr>e_mod_unload := (\<lambda>_ s. Some s)\<rparr>"
  let ?info = "\<lambda>ds. \<lparr>mi_api_version = 19, mi_init = Some ''init'', mi_unload = Some ''unload'', mi_deps = ds\<rparr>"
  let ?a = "\<lparr>m_name = ''a'', m_path = ''a.so'', m_modinfo = ?info [], m_initialized = True, m_remove = True\<rparr>"
  let ?b = "\<lparr>m_name = ''b'', m_path = ''b.so'', m_modinfo = ?info [''a''], m_initialized = True, m_remove = False\<rparr>"
  let ?s = "(global_zero [] \<lparr>tv_sec = 0, tv_usec = 0\<rparr>)\<lparr>g_module_db := [Suc 0, 0],
           g_modules := (\<lambda>i. if i = 0 then ?a else ?b)\<rparr>"
  have e: "each (unload_marked_body ?E) [0, Suc 0] ?s \<noteq> None"
    by (simp add: unload_marked_body_def unload_def module_is_needed_def)
  have "while_list_safe g_module_db (unload_marked_body ?E) 9 ?s
      = each (unload_marked_body ?E) (rev (g_module_db ?s)) ?s"
    by (rule while_list_safe_each)
      (auto simp: unload_marked_body_def unload_def split: if_splits bind_splits)
  with e have "initng_module_unload_marked ?E ?s \<noteq> None"
    by (simp add: initng_module_unload_marked_def bare_env_def)
  then obtain t where t: "initng_module_unload_marked ?E ?s = Some t" by blast
  have "deps_closed t"
    by (rule unload_marked_keeps_needs [OF _ _ t]) (simp_all add: same_modules_def deps_closed_def
        module_needs_are_loaded_def module_is_loaded_def)
  with t show ?thesis by simp
qed

end
