(* ===== verification/Launcher.thy ===== *)
theory Launcher
  imports C_String Module_DB
begin

text \<open>
  Starting a program: src/main/fork, the module simple_launcher and the environment of
  src/main/env. The model follows the parent process; what the child executes is an entry of the
  trace of effects. Where the C code uses memory it has freed the model has no value.
\<close>

section \<open>fork\<close>

text \<open>The loop around fork gives up when the counter has passed thirty.\<close>

function fork_loop :: "env \<Rightarrow> nat \<Rightarrow> sys \<Rightarrow> int" where
  "fork_loop E try_count s =
     (let pid_fork = e_fork E try_count s in
      if pid_fork \<noteq> -1 then pid_fork
      else if 30 < try_count then pid_fork
      else fork_loop E (try_count + 1) s)"
  by pat_completeness auto
termination by (relation "measure (\<lambda>(E, n, s). 32 - n)") auto

declare fork_loop.simps [simp del]

definition pipes_create :: "env \<Rightarrow> sys \<Rightarrow> pipe_h list \<Rightarrow> pipe_h list" where
  "pipes_create E s qs =
     map (\<lambda>(n, q). case e_pipe E n s of Some fds \<Rightarrow> q\<lparr>pipe_fd := fds\<rparr> | None \<Rightarrow> q) (enumerate 0 qs)"

definition close_remote :: "pipe_h \<Rightarrow> pipe_h" where
  "close_remote q =
     (if pipe_dir q \<in> {OUT_PIPE, BUFFERED_OUT_PIPE} then q\<lparr>pipe_fd := (fst (pipe_fd q), -1)\<rparr>
      else if pipe_dir q \<in> {IN_PIPE, IN_AND_OUT_PIPE} then q\<lparr>pipe_fd := (-1, snd (pipe_fd q))\<rparr>
      else q)"

definition remote_closes :: "pipe_h \<Rightarrow> effect list" where
  "remote_closes q =
     (if pipe_dir q \<in> {OUT_PIPE, BUFFERED_OUT_PIPE} \<and> 0 < snd (pipe_fd q) then [Eff_close (snd (pipe_fd q))]
      else if pipe_dir q \<in> {IN_PIPE, IN_AND_OUT_PIPE} \<and> 0 < fst (pipe_fd q) then [Eff_close (fst (pipe_fd q))]
      else [])"

definition pipes_close_remote_side :: "sid \<Rightarrow> nat \<Rightarrow> sys \<Rightarrow> sys option" where
  "pipes_close_remote_side i pa s = do {
     p \<leftarrow> process_at i pa s;
     Some (add_effects (concat (map remote_closes (rev (p_pipes p))))
       (upd_process i pa (\<lambda>p. p\<lparr>p_pipes := map close_remote (p_pipes p)\<rparr>) s)) }"

text \<open>The result zero of fork belongs to the child.\<close>

definition initng_fork :: "env \<Rightarrow> sid \<Rightarrow> nat \<Rightarrow> sys \<Rightarrow> (int \<times> sys) option" where
  "initng_fork E service pa s = do {
     p \<leftarrow> process_at service pa s;
     (let s = upd_process service pa (\<lambda>p. p\<lparr>p_pipes := pipes_create E s (p_pipes p)\<rparr>) s;
          pid_fork = fork_loop E 0 s
      in if pid_fork = -1 then Some (pid_fork, s)
         else if pid_fork = 0 then None
         else do {
           s \<leftarrow> pipes_close_remote_side service pa s;
           Some (pid_fork, if 0 < pid_fork then upd_process service pa (\<lambda>p. p\<lparr>p_pid := pid_fork\<rparr>) s else s) }) }"

section \<open>simple_launcher\<close>

definition EXEC :: s_entry where "EXEC = S_Entry ''exec'' VARIABLE_STRING None"

definition EXECS :: s_entry where "EXECS = S_Entry ''exec_path'' VARIABLE_STRINGS None"

definition EXEC_ARGS :: s_entry where "EXEC_ARGS = S_Entry ''exec_args'' VARIABLE_STRING None"

definition WHITESPACE :: string where "WHITESPACE = [CHR '' '', CHR 0x09, CHR 0x0A, CHR 0x0D, CHR 0x0B]"

text \<open>The bits of the mode that make a file one to execute.\<close>

definition exec_bits :: "32 word" where "exec_bits = 36425"

definition default_path :: string where
  "default_path = ''/bin:/sbin:/usr/bin:/usr/sbin:/usr/local/bin:/usr/local/sbin''"

definition path_file :: "string \<Rightarrow> string \<Rightarrow> string" where
  "path_file dir exec = (if last dir \<noteq> CHR ''/'' then dir @ ''/'' @ exec else dir @ exec)"

definition executable :: "env \<Rightarrow> sys \<Rightarrow> string \<Rightarrow> bool" where
  "executable E s filename = (case e_stat E filename s of
     None \<Rightarrow> False | Some mode \<Rightarrow> and mode exec_bits \<noteq> 0)"

definition expand_exec :: "env \<Rightarrow> string \<Rightarrow> sys \<Rightarrow> string option option" where
  "expand_exec E exec s =
     (if exec \<noteq> [] \<and> hd exec = CHR ''/'' then Some None
      else do {
        (path_argv, argc) \<leftarrow> initng_string_split_delim
          (case e_getenv E ''PATH'' of Some PATH \<Rightarrow> PATH | None \<Rightarrow> default_path) '':'';
        Some (find (executable E s) (map (\<lambda>dir. path_file dir exec) path_argv)) })"

definition simple_exec_fork :: "env \<Rightarrow> nat \<Rightarrow> sid \<Rightarrow> string list \<Rightarrow> sys \<Rightarrow> (int \<times> sys) option" where
  "simple_exec_fork E pa i argv s = do {
     (pid_fork, s) \<leftarrow> initng_fork E i pa s;
     (if 0 < pid_fork then Some (TRUE, add_effects [Eff_exec (hd argv) argv] s)
      else Some (FALSE, upd_process i pa (\<lambda>p. p\<lparr>p_pid := 0\<rparr>) s)) }"

text \<open>The entry \<open>get_string_var\<close> reads, if it holds a string.\<close>

definition string_entry :: "s_entry \<Rightarrow> string \<Rightarrow> sid \<Rightarrow> sys \<Rightarrow> s_data option" where
  "string_entry ty vn i s =
     (case initng_data_get_next_var (Some ty) (Some vn) (a_data (svc s i)) None of
        Some c \<Rightarrow> if val_s (d_t c) = None then None else Some c
      | None \<Rightarrow> None)"

text \<open>The escapes are resolved in the variable itself.\<close>

definition fix_variable :: "s_data \<Rightarrow> sid \<Rightarrow> sys \<Rightarrow> (string \<times> sys) option" where
  "fix_variable c i s = do {
     str \<leftarrow> val_s (d_t c);
     buf \<leftarrow> initng_string_fix_escapes str;
     Some (c_str buf, upd_data i (data_update (d_addr c) (\<lambda>c. c\<lparr>d_t := U_s (c_str buf)\<rparr>)) s) }"

text \<open>
  The first token of the arguments is replaced by the program, and freeing the array frees its
  first element, which is the string of the variable.
\<close>

definition simple_exec_try :: "env \<Rightarrow> s_data \<Rightarrow> sid \<Rightarrow> nat \<Rightarrow> sys \<Rightarrow> (int \<times> sys) option" where
  "simple_exec_try E c i pa s = do {
     exec \<leftarrow> val_s (d_t c);
     p \<leftarrow> process_at i pa s;
     (case string_entry EXEC_ARGS (pt_name (p_pt p)) i s of
        None \<Rightarrow> do {
          (ret, s) \<leftarrow> simple_exec_fork E pa i [exec] s;
          Some (ret, add_effects [Eff_free (d_addr c)] s) }
      | Some args \<Rightarrow> do {
          (exec_args, s) \<leftarrow> fix_variable args i s;
          (toks, argc) \<leftarrow> initng_string_split_delim (tl exec_args) WHITESPACE;
          (if exec_args = [] then None
           else if toks = [] then Some (FALSE, s)
           else do {
             (ret, s) \<leftarrow> simple_exec_fork E pa i (exec # tl toks) s;
             Some (ret, add_effects [Eff_free (d_addr c)] s) }) }) }"

fun simple_exec_loop :: "env \<Rightarrow> nat \<Rightarrow> sid \<Rightarrow> nat \<Rightarrow> string \<Rightarrow> nat option \<Rightarrow> sys \<Rightarrow> (int \<times> sys) option" where
  "simple_exec_loop E 0 i pa pt itt s = None"
| "simple_exec_loop E (Suc k) i pa pt itt s =
     (case initng_data_get_next_var (Some EXECS) (Some pt) (a_data (svc s i)) itt of
        None \<Rightarrow> Some (FALSE, s)
      | Some c \<Rightarrow>
          (case val_s (d_t c) of
             None \<Rightarrow> Some (FALSE, s)
           | Some exec \<Rightarrow>
               if e_stat E exec s = None then simple_exec_loop E k i pa pt (Some (d_addr c)) s
               else do {
                 (res, s) \<leftarrow> simple_exec_try E c i pa s;
                 (if res = TRUE then Some (TRUE, s)
                  else simple_exec_loop E k i pa pt (Some (d_addr c)) s) }))"

definition simple_exec :: "env \<Rightarrow> sid \<Rightarrow> nat \<Rightarrow> sys \<Rightarrow> (int \<times> sys) option" where
  "simple_exec E i pa s = do {
     p \<leftarrow> process_at i pa s;
     simple_exec_loop E (e_fuel E) i pa (pt_name (p_pt p)) None s }"

text \<open>
  A program found through the search path replaces the first element of the array after the
  memory block that holds the array has been freed.
\<close>

definition simple_run :: "env \<Rightarrow> sid \<Rightarrow> nat \<Rightarrow> sys \<Rightarrow> (int \<times> sys) option" where
  "simple_run E i pa s = do {
     p \<leftarrow> process_at i pa s;
     (case string_entry EXEC (pt_name (p_pt p)) i s of
        None \<Rightarrow> Some (FALSE, s)
      | Some c \<Rightarrow> do {
          (exec, s) \<leftarrow> fix_variable c i s;
          (argv, argc) \<leftarrow> initng_string_split_delim exec WHITESPACE;
          (case argv of
             [] \<Rightarrow> Some (FALSE, s)
           | argv0 # rest \<Rightarrow>
               (if hd argv0 \<noteq> CHR ''/'' then do {
                  found \<leftarrow> expand_exec E argv0 s;
                  (case found of None \<Rightarrow> Some (FALSE, s) | Some _ \<Rightarrow> None) }
                else simple_exec_fork E pa i argv s)) }) }"

definition initng_s_launch :: "env \<Rightarrow> s_event \<Rightarrow> sys \<Rightarrow> (s_event \<times> sys) option" where
  "initng_s_launch E ev s =
     (case ev_data ev of
        ED_launch i pa exec_name \<Rightarrow>
          (if ev_type ev \<noteq> EVENT_LAUNCH then None
           else do {
             (r, s) \<leftarrow> (if initng_data_is_var (Some EXECS) (Some exec_name) (a_data (svc s i))
                       then simple_exec E i pa s else Some (FALSE, s));
             (if r \<noteq> FALSE then Some (ev\<lparr>ev_status := HANDLED\<rparr>, s)
              else if initng_data_is_var (Some EXEC) (Some exec_name) (a_data (svc s i)) then do {
                (r, s) \<leftarrow> simple_run E i pa s;
                Some (if r \<noteq> FALSE then ev\<lparr>ev_status := HANDLED\<rparr> else ev, s) }
              else Some (ev, s)) })
      | _ \<Rightarrow> None)"

definition simple_launcher_module_init :: "sys \<Rightarrow> int \<times> sys" where
  "simple_launcher_module_init s =
     (TRUE, register_entries [EXEC, EXECS, EXEC_ARGS]
        (hook ''initng_simple_launcher.c'' EVENT_LAUNCH ''initng_s_launch'' s))"

definition simple_launcher_module_unload :: "sys \<Rightarrow> sys" where
  "simple_launcher_module_unload s =
     initng_event_hook_unregister EVENT_LAUNCH ''initng_s_launch'' (unregister_entries [EXEC, EXECS, EXEC_ARGS] s)"

end
