(* ===== verification/Main_Loop.thy ===== *)
theory Main_Loop
  imports Launcher
begin

text \<open>
  The program as a whole: the options (src/main/frontend/options.c, src/main/config/opt.c), the
  wait for input (src/main/io/poll.c), the end of the program (src/main/main) and the main
  function with its loop (src/main/frontend/main.c). A call that does not come back, because it
  replaces the program, exits or idles for ever, ends the run.
\<close>

datatype run = Continue sys | Ended sys

section \<open>Options\<close>

definition opts :: "(string \<times> int) list" where
  "opts = [(''console'', 1), (''runlevel'', 2), (''hot_reload'', 4), (''no_circular'', 5), (''help'', 0), (''version'', 8)]"

text \<open>The string is cut at the first equals sign, else at the first colon.\<close>

definition cut_at :: "char \<Rightarrow> string \<Rightarrow> (string \<times> string) option" where
  "cut_at c str = (if c \<in> set str
     then Some (takeWhile (\<lambda>x. x \<noteq> c) str, tl (dropWhile (\<lambda>x. x \<noteq> c) str)) else None)"

definition initng_config_opt_get :: "(string \<times> int) list \<Rightarrow> string \<Rightarrow> int \<times> string option" where
  "initng_config_opt_get os str =
     (let (name, val) = (case cut_at (CHR ''='') str of
            Some (n, v) \<Rightarrow> (n, Some v)
          | None \<Rightarrow> (case cut_at (CHR '':'') str of Some (n, v) \<Rightarrow> (n, Some v) | None \<Rightarrow> (str, None)))
      in (case find (\<lambda>opt. fst opt = name) os of Some opt \<Rightarrow> snd opt | None \<Rightarrow> -1, val))"

definition handle_it :: "string \<Rightarrow> sys \<Rightarrow> run" where
  "handle_it str s =
     (let (opt, val) = initng_config_opt_get opts str in
      if opt = 1 then Continue (case val of Some v \<Rightarrow> s\<lparr>g_dev_console := Some v\<rparr> | None \<Rightarrow> s)
      else if opt = 2 then Continue (case val of Some v \<Rightarrow> s\<lparr>g_runlevel := Some v\<rparr> | None \<Rightarrow> s)
      else if opt = 5 then Continue (s\<lparr>g_no_circular := True\<rparr>)
      else if opt = 4 then Continue (s\<lparr>g_hot_reload := True\<rparr>)
      else if opt = 0 \<or> opt = 8 then Ended (add_effects [Eff_exit 0] s)
      else Continue s)"

fun options_parse_args :: "string list \<Rightarrow> sys \<Rightarrow> run" where
  "options_parse_args [] s = Continue s"
| "options_parse_args (opt # argv) s =
     (let next = (\<lambda>str. case handle_it str s of Continue s \<Rightarrow> options_parse_args argv s | Ended s \<Rightarrow> Ended s) in
      if opt \<noteq> [] \<and> hd opt = CHR ''+'' then options_parse_args argv s
      else if opt \<noteq> [] \<and> hd opt = CHR ''-'' then
        (if take 1 (drop 1 opt) \<noteq> ''-'' then options_parse_args argv s else next (drop 2 opt))
      else next opt)"

section \<open>Waiting for input\<close>

text \<open>The descriptor of a pipe that is watched, and for writing or for reading.\<close>

definition watched :: "pipe_h \<Rightarrow> (bool \<times> int) option" where
  "watched q =
     (if pipe_dir q \<in> {OUT_PIPE, BUFFERED_OUT_PIPE} \<and> 2 < fst (pipe_fd q) then Some (False, fst (pipe_fd q))
      else if pipe_dir q = IN_AND_OUT_PIPE \<and> 2 < snd (pipe_fd q) then Some (False, snd (pipe_fd q))
      else if pipe_dir q = IN_PIPE \<and> 2 < snd (pipe_fd q) then Some (True, snd (pipe_fd q))
      else None)"

definition drop_fd :: "pipe_h \<Rightarrow> pipe_h" where
  "drop_fd q = (if pipe_dir q \<in> {OUT_PIPE, BUFFERED_OUT_PIPE} then q\<lparr>pipe_fd := (-1, snd (pipe_fd q))\<rparr>
     else q\<lparr>pipe_fd := (fst (pipe_fd q), -1)\<rparr>)"

text \<open>All pipes, in the order of the three nested loops.\<close>

definition all_pipes :: "sys \<Rightarrow> (sid \<times> nat \<times> nat) list" where
  "all_pipes s = concat (map (\<lambda>i. concat (map (\<lambda>p. map (\<lambda>n. (i, p_addr p, n)) (rev [0..<length (p_pipes p)]))
     (rev (a_processes (svc s i))))) (rev (g_active_db s)))"

definition watch_pipe :: "env \<Rightarrow> sid \<times> nat \<times> nat \<Rightarrow> int \<times> int list \<times> int list \<times> sys \<Rightarrow>
    int \<times> int list \<times> int list \<times> sys" where
  "watch_pipe E x y =
     (let (i, pa, n) = x; (added, readset, writeset, s) = y in
      case pipe_at i pa n s of
        None \<Rightarrow> y
      | Some q \<Rightarrow>
          (case watched q of
             None \<Rightarrow> y
           | Some (wr, fd) \<Rightarrow>
               if \<not> e_still_open E fd s then (added, readset, writeset, upd_pipe i pa n drop_fd s)
               else if wr then (added + 1, readset, fd # writeset, s)
               else (added + 1, fd # readset, writeset, s)))"

text \<open>One pipe after select; the loops end when every ready descriptor has been served.\<close>

definition serve_pipe :: "env \<Rightarrow> int list \<Rightarrow> int list \<Rightarrow> sid \<Rightarrow> nat \<Rightarrow> nat \<Rightarrow> int \<times> sys \<Rightarrow>
    (unit option \<times> (int \<times> sys)) option" where
  "serve_pipe E readset writeset i pa n x =
     (let (retval, s) = x in do {
        q \<leftarrow> pipe_at i pa n s;
        (case watched q of
           None \<Rightarrow> Some (None, x)
         | Some (wr, fd) \<Rightarrow>
             if fd \<notin> set (if wr then writeset else readset) then Some (None, x)
             else do {
               s \<leftarrow> (if pipe_dir q = BUFFERED_OUT_PIPE then initng_io_process_read_input E i pa n s
                     else map_option snd (initng_io_pipe E i pa n s));
               Some (if retval - 1 = 0 then Some () else None, (retval - 1, s)) }) })"

definition serve_service :: "env \<Rightarrow> int list \<Rightarrow> int list \<Rightarrow> sid \<Rightarrow> int \<times> sys \<Rightarrow> (unit option \<times> (int \<times> sys)) option" where
  "serve_service E readset writeset i x =
     while_list_safe (\<lambda>x. map p_addr (a_processes (svc (snd x) i)))
       (\<lambda>pa x. do {
          p \<leftarrow> process_at i pa (snd x);
          each (serve_pipe E readset writeset i pa) (rev [0..<length (p_pipes p)]) x }) (e_fuel E) x"

definition initng_io_module_poll :: "env \<Rightarrow> int \<Rightarrow> sys \<Rightarrow> sys option" where
  "initng_io_module_poll E timeout s = do {
     (ev, s) \<leftarrow> initng_event_send E (event EVENT_IO_WATCHER (ED_io_watch False 0 [] [])) s;
     (case ev_data ev of
        ED_io_watch _ added rs ws \<Rightarrow>
          (let (added, rs, ws, s) = fold (watch_pipe E) (all_pipes s) (added, rs, ws, s) in
           if added \<le> 0 then Some s
           else
             (let (retval, readset, writeset) = e_select E rs ws s in
              if retval \<le> 0 then Some s
              else do {
                (ev, s) \<leftarrow> initng_event_send E (event EVENT_IO_WATCHER (ED_io_watch True retval readset writeset)) s;
                (case ev_data ev of
                   ED_io_watch _ retval readset writeset \<Rightarrow>
                     (if retval = 0 then Some s
                      else map_option (snd \<circ> snd)
                        (while_list_safe (\<lambda>x. g_active_db (snd x)) (serve_service E readset writeset) (e_fuel E) (retval, s)))
                 | _ \<Rightarrow> None) }))
      | _ \<Rightarrow> None) }"

section \<open>The end of the program\<close>

text \<open>\<open>initng_main_segfault\<close> replaces the program or loops for ever.\<close>

definition initng_main_segfault :: "sys \<Rightarrow> sys" where
  "initng_main_segfault s = add_effects [Eff_segfault] s"

definition initng_main_su_login :: "env \<Rightarrow> sys \<Rightarrow> sys" where
  "initng_main_su_login E s =
     initng_main_segfault (if 0 < e_fork E 0 s then add_effects [Eff_exec ''/sbin/sulogin'' [''/sbin/sulogin'']] s else s)"

definition initng_config_global_free :: "sys \<Rightarrow> sys option" where
  "initng_config_global_free s = do {
     s \<leftarrow> initng_active_db_free_all s;
     Some (initng_command_unregister_all (initng_event_type_unregister_all (initng_service_data_type_unregister_all s))) }"

definition initng_main_exit :: "env \<Rightarrow> int \<Rightarrow> sys \<Rightarrow> sys option" where
  "initng_main_exit E i s = do {
     s \<leftarrow> initng_main_set_sys_state E STATE_EXIT s;
     s \<leftarrow> initng_config_global_free s;
     s \<leftarrow> initng_module_unload_all E s;
     Some (add_effects [Eff_exit i] s) }"

text \<open>A call of execve that replaces the program ends the run.\<close>

definition exec_self :: "env \<Rightarrow> string \<Rightarrow> string list \<Rightarrow> sys \<Rightarrow> run" where
  "exec_self E path argv s = (if e_execve E path s then Ended (add_effects [Eff_exec path argv] s) else Continue s)"

definition initng_main_restart :: "env \<Rightarrow> sys \<Rightarrow> run option" where
  "initng_main_restart E s = do {
     s \<leftarrow> initng_main_set_sys_state E STATE_RESTART s;
     runlevel \<leftarrow> g_runlevel s;
     Some (exec_self E ''/sbin/initng'' [''runlevel='' @ runlevel] s) }"

definition initng_main_new_init :: "env \<Rightarrow> sys \<Rightarrow> run option" where
  "initng_main_new_init E s = do {
     s \<leftarrow> initng_main_set_sys_state E STATE_EXECVE s;
     (case g_new_init s of
        Some (path # argv) \<Rightarrow> Some (exec_self E path (path # argv) s)
      | _ \<Rightarrow> Some (Continue s)) }"

fun then_state :: "h_then \<Rightarrow> h_sys_state option" where
  "then_state THEN_REBOOT = Some STATE_REBOOT"
| "then_state THEN_HALT = Some STATE_HALT"
| "then_state THEN_POWEROFF = Some STATE_POWEROFF"
| "then_state _ = None"

definition hard :: "env \<Rightarrow> h_then \<Rightarrow> sys \<Rightarrow> run option" where
  "hard E t s =
     (case then_state t of
        None \<Rightarrow> Some (Continue s)
      | Some st \<Rightarrow> do {
          s \<leftarrow> initng_main_set_sys_state E st s;
          (let s = add_effects [Eff_sync] s in
           if e_getuid E \<noteq> 0 then Some (Continue s)
           else do {
             s \<leftarrow> initng_module_unload_all E s;
             Some (Ended (add_effects [Eff_sync, Eff_reboot t] s)) }) })"

definition initng_main_when_out :: "env \<Rightarrow> sys \<Rightarrow> run option" where
  "initng_main_when_out E s =
     (let failing = filter (\<lambda>i. GET_STATE s i = IS_FAILED) (rev (g_active_db s));
          s = add_effects (map (\<lambda>i. Eff_print (a_name (svc s i))) failing) s
      in if e_getpid E \<noteq> 1 then Some (Continue s)
         else
           (let s = add_effects [Eff_sync] s in do {
              r \<leftarrow> (case g_when_out s of
                     THEN_QUIT \<Rightarrow> map_option Ended (initng_main_exit E 0 s)
                   | THEN_RESTART \<Rightarrow> initng_main_restart E s
                   | THEN_NEW_INIT \<Rightarrow> initng_main_new_init E s
                   | THEN_REBOOT \<Rightarrow> hard E THEN_REBOOT s
                   | THEN_HALT \<Rightarrow> hard E THEN_HALT s
                   | THEN_POWEROFF \<Rightarrow> hard E THEN_POWEROFF s
                   | _ \<Rightarrow> Some (Continue s));
              Some (case r of Ended s \<Rightarrow> Ended s | Continue s \<Rightarrow> Ended (initng_main_su_login E s)) }))"

section \<open>The main function\<close>

definition RUNLEVEL_DEFAULT :: string where "RUNLEVEL_DEFAULT = ''runlevel/default''"

definition TIMEOUT :: int where "TIMEOUT = 60000"

definition then_run :: "(sys \<Rightarrow> run option) \<Rightarrow> run \<Rightarrow> run option" where
  "then_run f r = (case r of Continue s \<Rightarrow> f s | Ended s \<Rightarrow> Some (Ended s))"

definition main_start :: "env \<Rightarrow> (string \<Rightarrow> string \<Rightarrow> bool) \<Rightarrow> string \<Rightarrow> string list \<Rightarrow> timeval \<Rightarrow> run option" where
  "main_start E fnm dir argv clock = then_run (\<lambda>s. do {
     let s = s\<lparr>g_when_out := THEN_SULOGIN\<rparr>;
     s \<leftarrow> (if g_runlevel s = None then initng_main_set_runlevel E RUNLEVEL_DEFAULT s else Some s);
     (r, s) \<leftarrow> initng_module_load_all E fnm dir s;
     (if r = FALSE then Some (Ended (initng_main_su_login E s))
      else if g_hot_reload s then do {
        (retval, s) \<leftarrow> initng_module_callers_active_db_reload E s;
        (if retval \<noteq> TRUE then Some (Ended (initng_main_su_login E s))
         else do {
           s \<leftarrow> initng_main_set_sys_state E STATE_UP s;
           Some (Continue (initng_signal_enable s)) }) }
      else do {
        s \<leftarrow> initng_main_set_sys_state E STATE_STARTING (initng_signal_enable s);
        s \<leftarrow> initng_main_start_extra_services E s;
        runlevel \<leftarrow> g_runlevel s;
        (new, s) \<leftarrow> initng_handler_start_new_service_named E runlevel s;
        Some (case new of Some _ \<Rightarrow> Continue s | None \<Rightarrow> Ended (initng_main_su_login E s)) }) })
     (options_parse_args argv (initng_config_global_new argv clock))"

text \<open>The clock of the computer is read at the start of a round; a jump moves the times that
  are kept.\<close>

definition clock_skew :: "env \<Rightarrow> timeval \<Rightarrow> sys \<Rightarrow> sys option" where
  "clock_skew E lst s =
     (let d = tv_sec (g_now s) - tv_sec lst in
      if 3600 \<le> d \<or> d < 0 then initng_module_callers_compensate_time E d (initng_active_db_compensate_time d s)
      else Some s)"

definition closest_timeout :: "sys \<Rightarrow> int" where
  "closest_timeout s =
     (let t = (if g_sleep_seconds s \<noteq> 0 \<and> g_sleep_seconds s < TIMEOUT then g_sleep_seconds s else TIMEOUT)
      in if g_next_alarm s \<noteq> 0 \<and> tv_sec (g_now s) < g_next_alarm s
            \<and> g_next_alarm s - tv_sec (g_now s) < t
         then g_next_alarm s - tv_sec (g_now s) else t)"

text \<open>The end of a round: the program waits for input if it has nothing else to do.\<close>

definition main_wait :: "env \<Rightarrow> int \<Rightarrow> sys \<Rightarrow> run option" where
  "main_wait E interrupt s = do {
     s \<leftarrow> (if 0 < closest_timeout s \<and> interrupt = FALSE
           then initng_io_module_poll E (closest_timeout s) s else Some s);
     Some (Continue s) }"

definition main_round :: "env \<Rightarrow> timeval \<Rightarrow> sys \<Rightarrow> run option" where
  "main_round E lst s = do {
     let s = s\<lparr>g_now := g_clock s\<rparr>;
     s \<leftarrow> clock_skew E lst s;
     let s = s\<lparr>g_sleep_seconds := 0\<rparr>;
     s \<leftarrow> (if g_next_alarm s \<noteq> 0 \<and> g_next_alarm s \<le> tv_sec (g_now s) then initng_handler_run_alarm E s else Some s);
     s \<leftarrow> initng_signal_dispatch E s;
     s \<leftarrow> (if g_modules_to_unload s then initng_module_unload_marked E (s\<lparr>g_modules_to_unload := False\<rparr>) else Some s);
     (ev, s) \<leftarrow> initng_event_send E (event EVENT_MAIN ED_none) s;
     (if initng_main_ready_to_quit s = TRUE then do {
        s \<leftarrow> initng_main_set_sys_state E STATE_ASE s;
        initng_main_when_out E s }
      else do {
        s \<leftarrow> initng_active_db_clean_down s;
        (interrupt, s) \<leftarrow> initng_interrupt E s;
        main_wait E interrupt s }) }"

end
