(* ===== verification/Safety.thy ===== *)
theory Safety
  imports Main_Loop
begin

text \<open>
  The program never works on a service that has been freed. The theory carries an invariant of
  the service memory through every function of the core: the database is well formed and every
  variable and process structure has an address that was handed out. The functions behind the
  function pointers have to keep it; that is the contract of the locale.
\<close>

section \<open>The invariant\<close>

definition addr_wf :: "sys \<Rightarrow> bool" where
  "addr_wf s \<longleftrightarrow> (\<forall>i. a_allocated (svc s i) \<longrightarrow>
     (\<forall>p \<in> set (a_processes (svc s i)). p_addr p < g_next_addr s)
     \<and> (\<forall>c \<in> set (visible (a_data (svc s i))). d_addr c < g_next_addr s))"

definition prog_wf :: "sys \<Rightarrow> bool" where
  "prog_wf s \<longleftrightarrow> db_wf s \<and> addr_wf s"

abbreviation alive :: "sys \<Rightarrow> sid \<Rightarrow> bool" where
  "alive s i \<equiv> a_allocated (svc s i)"

text \<open>A state that keeps the invariant and every service of an earlier state.\<close>

definition later :: "sys \<Rightarrow> sys \<Rightarrow> bool" where
  "later s t \<longleftrightarrow> prog_wf t \<and> (\<forall>i. alive s i \<longrightarrow> alive t i)"

text \<open>A computation that, if it returns, returns such a state.\<close>

definition okay :: "('r \<Rightarrow> sys) \<Rightarrow> sys \<Rightarrow> 'r option \<Rightarrow> bool" where
  "okay pr s m \<longleftrightarrow> (\<forall>x. m = Some x \<longrightarrow> later s (pr x))"

named_theorems okay_rules \<open>functions that keep the invariant\<close>

section \<open>Composition\<close>

lemma later_refl: "prog_wf s \<Longrightarrow> later s s"
  by (simp add: later_def)

lemma later_trans: "later s t \<Longrightarrow> later t u \<Longrightarrow> later s u"
  by (simp add: later_def)

lemma later_wf: "later s t \<Longrightarrow> prog_wf t"
  by (simp add: later_def)

lemma later_alive: "later s t \<Longrightarrow> alive s i \<Longrightarrow> alive t i"
  by (simp add: later_def)

lemma okay_Some [okay_rules]: "later s (pr x) \<Longrightarrow> okay pr s (Some x)"
  by (simp add: okay_def)

lemma okay_None [okay_rules]: "okay pr s None"
  by (simp add: okay_def)

lemma okay_start:
  assumes "later s0 s" and "later s s \<Longrightarrow> okay pr s m"
  shows "okay pr s0 m"
  unfolding okay_def
proof (intro allI impI)
  fix x
  assume "m = Some x"
  with assms(2) [OF later_refl [OF later_wf [OF assms(1)]]] have "later s (pr x)" by (simp add: okay_def)
  with assms(1) show "later s0 (pr x)" by (rule later_trans)
qed

lemma okay_bind:
  assumes "okay pr' s m" and "\<And>x. m = Some x \<Longrightarrow> later s (pr' x) \<Longrightarrow> okay pr s (f x)"
  shows "okay pr s (m \<bind> f)"
  using assms by (auto simp: okay_def split: bind_splits)

lemma okay_pure: "(\<And>x. m = Some x \<Longrightarrow> okay pr s (f x)) \<Longrightarrow> okay pr s (m \<bind> f)"
  by (auto simp: okay_def split: bind_splits)

text \<open>One rule for each shape of a result.\<close>

lemma okay_bind_sys [okay_rules]:
  "okay id s m \<Longrightarrow> (\<And>t. later s t \<Longrightarrow> okay pr s (f t)) \<Longrightarrow> okay pr s (m \<bind> f)"
  by (rule okay_bind [where pr' = id]) auto

lemma okay_bind_pair [okay_rules]:
  fixes m :: "('a \<times> sys) option"
  shows "okay snd s m \<Longrightarrow> (\<And>r t. later s t \<Longrightarrow> m = Some (r, t) \<Longrightarrow> okay pr s (f (r, t))) \<Longrightarrow> okay pr s (m \<bind> f)"
  by (rule okay_bind [where pr' = snd]) auto

lemma okay_bind_triple [okay_rules]:
  fixes m :: "('a \<times> 'b \<times> sys) option"
  shows "okay (\<lambda>x. snd (snd x)) s m \<Longrightarrow>
    (\<And>q r t. later s t \<Longrightarrow> okay pr s (f (q, r, t))) \<Longrightarrow> okay pr s (m \<bind> f)"
  by (rule okay_bind [where pr' = "\<lambda>x. snd (snd x)"]) auto

text \<open>Lookups that do not change the state.\<close>

lemma okay_lookup [okay_rules]:
  fixes p :: "process_h option" and q :: "pipe_h option" and b :: "(int \<times> string \<times> nat) option"
    and n :: "nat option" and str :: "string option" and toks :: "(string list \<times> nat) option"
    and found :: "string option option" and flag :: "bool option" and num :: "int option"
  shows "(\<And>x. p = Some x \<Longrightarrow> okay pr s (f1 x)) \<Longrightarrow> okay pr s (p \<bind> f1)"
    "(\<And>x. q = Some x \<Longrightarrow> okay pr s (f2 x)) \<Longrightarrow> okay pr s (q \<bind> f2)"
    "(\<And>x. b = Some x \<Longrightarrow> okay pr s (f3 x)) \<Longrightarrow> okay pr s (b \<bind> f3)"
    "(\<And>x. n = Some x \<Longrightarrow> okay pr s (f4 x)) \<Longrightarrow> okay pr s (n \<bind> f4)"
    "(\<And>x. str = Some x \<Longrightarrow> okay pr s (f5 x)) \<Longrightarrow> okay pr s (str \<bind> f5)"
    "(\<And>x. toks = Some x \<Longrightarrow> okay pr s (f6 x)) \<Longrightarrow> okay pr s (toks \<bind> f6)"
    "(\<And>x. found = Some x \<Longrightarrow> okay pr s (f7 x)) \<Longrightarrow> okay pr s (found \<bind> f7)"
    "(\<And>x. flag = Some x \<Longrightarrow> okay pr s (f8 x)) \<Longrightarrow> okay pr s (flag \<bind> f8)"
    "(\<And>x. num = Some x \<Longrightarrow> okay pr s (f9 x)) \<Longrightarrow> okay pr s (num \<bind> f9)"
  by (rule okay_pure; assumption)+

lemma okay_map_snd: "okay snd s m \<Longrightarrow> okay id s (map_option snd m)"
  by (auto simp: okay_def)

lemma db_wf_alive: "later s t \<Longrightarrow> i \<in> set (g_active_db t) \<Longrightarrow> alive t i"
  by (simp add: later_def prog_wf_def db_wf_def)

lemma interrupt_alive: "later s t \<Longrightarrow> i \<in> set (g_interrupt t) \<Longrightarrow> alive t i"
  by (simp add: later_def prog_wf_def db_wf_def)

lemma find_by_name_alive: "later s t \<Longrightarrow> initng_active_db_find_by_name n t = Some i \<Longrightarrow> alive t i"
  using find_by_name_Some db_wf_alive by blast

section \<open>Primitive changes\<close>

lemma addr_wf_upd:
  assumes "addr_wf s" and "\<And>a. a_allocated (f a) = a_allocated a"
    and "\<And>a. visible (a_data (f a)) = visible (a_data a)"
    and "\<And>a. p_addr ` set (a_processes (f a)) = p_addr ` set (a_processes a)"
  shows "addr_wf (upd_svc i f s)"
proof -
  have p: "(\<forall>p \<in> set (a_processes (f a)). p_addr p < n) \<longleftrightarrow> (\<forall>p \<in> set (a_processes a). p_addr p < n)" for a n
  proof -
    have "(\<forall>x \<in> p_addr ` set (a_processes (f a)). x < n) \<longleftrightarrow> (\<forall>x \<in> p_addr ` set (a_processes a). x < n)"
      by (simp only: assms(4))
    then show ?thesis by simp
  qed
  have "addr_wf s" by (rule assms(1))
  then show ?thesis by (simp add: addr_wf_def assms(2,3) p)
qed

lemma later_upd:
  assumes s: "later s0 s"
    and f: "\<And>a. a_name (f a) = a_name a" "\<And>a. a_name_hash (f a) = a_name_hash a"
      "\<And>a. a_allocated (f a) = a_allocated a" "\<And>a. a_data (f a) = a_data a"
      "\<And>a. map p_addr (a_processes (f a)) = map p_addr (a_processes a)"
  shows "later s0 (upd_svc i f s)"
proof -
  have "db_wf (upd_svc i f s)"
    by (rule db_wf_upd) (use s in \<open>simp_all add: later_def prog_wf_def svc_wf_def f\<close>)
  moreover have "p_addr ` set (a_processes (f a)) = p_addr ` set (a_processes a)" for a
    using f(5) [of a] by (metis image_set)
  then have "addr_wf (upd_svc i f s)"
    by (intro addr_wf_upd) (use s in \<open>simp_all add: later_def prog_wf_def f\<close>)
  ultimately show ?thesis using s by (simp add: later_def prog_wf_def f)
qed

lemma later_globals:
  assumes "later s0 s" and "svc t = svc s" "g_active_db t = g_active_db s" "g_interrupt t = g_interrupt s"
    "g_next_sid t = g_next_sid s" "g_next_addr s \<le> g_next_addr t"
  shows "later s0 t"
proof -
  have "addr_wf t" using assms unfolding later_def prog_wf_def addr_wf_def
    by (metis order_less_le_trans)
  with assms show ?thesis by (simp add: later_def prog_wf_def db_wf_def)
qed

lemma later_fields [okay_rules]:
  assumes "later s0 s"
  shows "later s0 (s\<lparr>g_now := x1\<rparr>)" "later s0 (s\<lparr>g_sleep_seconds := x2\<rparr>)" "later s0 (s\<lparr>g_next_alarm := x3\<rparr>)"
    "later s0 (s\<lparr>g_sys_state := x4\<rparr>)" "later s0 (s\<lparr>g_runlevel := x5\<rparr>)" "later s0 (s\<lparr>g_old_runlevel := x6\<rparr>)"
    "later s0 (s\<lparr>g_when_out := x7\<rparr>)" "later s0 (s\<lparr>g_signals_got := x8\<rparr>)" "later s0 (s\<lparr>g_modules := x9\<rparr>)"
    "later s0 (s\<lparr>g_module_db := x10\<rparr>)" "later s0 (s\<lparr>g_modules_to_unload := x11\<rparr>)"
    "later s0 (s\<lparr>g_command_db := x12\<rparr>)" "later s0 (s\<lparr>g_hooks := x13\<rparr>)" "later s0 (s\<lparr>g_states := x14\<rparr>)"
    "later s0 (s\<lparr>g_stypes := x15\<rparr>)" "later s0 (s\<lparr>g_ptypes := x16\<rparr>)" "later s0 (s\<lparr>g_option_db := x17\<rparr>)"
    "later s0 (s\<lparr>g_event_db := x18\<rparr>)" "later s0 (s\<lparr>m_TYPE_PROVIDED := x19\<rparr>)"
    "later s0 (s\<lparr>m_synchron_check := x20\<rparr>)" "later s0 (s\<lparr>m_interactive_active := x21\<rparr>)"
    "later s0 (s\<lparr>m_save_file := x23\<rparr>)" "later s0 (s\<lparr>m_save_file_v13 := x24\<rparr>)"
    "later s0 (s\<lparr>m_history_db := x25\<rparr>)" "later s0 (s\<lparr>m_history_records := x26\<rparr>)" "later s0 (s\<lparr>m_devs := x27\<rparr>)"
    "later s0 (s\<lparr>m_initctl_fd := x28\<rparr>)" "later s0 (s\<lparr>m_utmp_stored := x29\<rparr>)" "later s0 (s\<lparr>m_idle := x30\<rparr>)"
    "later s0 (s\<lparr>g_new_init := x31\<rparr>)"
    "later s0 (s\<lparr>g_effects := x22\<rparr>)" "later s0 (bump_addr s)" "later s0 (add_effects es s)"
  by (auto intro: later_globals [OF assms] simp: bump_addr_def add_effects_def)

lemma later_mark [okay_rules]:
  assumes "later s0 s" and "alive s i"
  shows "later s0 (snd (initng_common_mark_service i st s))"
proof -
  let ?t = "snd (initng_common_mark_service i st s)"
  have "g_next_addr ?t = g_next_addr s"
    by (auto simp: initng_common_mark_service_def initng_common_state_unlock_def Let_def split: option.splits)
  with assms show ?thesis using db_wf_mark [of s i st] by (simp add: later_def prog_wf_def addr_wf_def)
qed

lemma later_mark' [okay_rules]: "later s0 s \<Longrightarrow> alive s i \<Longrightarrow> later s0 (mark i st s)"
  by (simp add: mark_def later_mark)

lemma later_lock [okay_rules]: "later s0 s \<Longrightarrow> later s0 (initng_common_state_lock i s)"
  unfolding initng_common_state_lock_def by (rule later_upd) auto

lemma later_unlock [okay_rules]:
  assumes "later s0 s" and "alive s i"
  shows "later s0 (snd (initng_common_state_unlock i s))"
proof -
  let ?t = "snd (initng_common_state_unlock i s)"
  have "g_next_addr ?t = g_next_addr s" "a_processes (svc ?t j) = a_processes (svc s j)"
    "a_allocated (svc ?t j) = a_allocated (svc s j)" for j
    by (auto simp: initng_common_state_unlock_def state_commit_def Let_def split: option.splits)
  with assms show ?thesis using db_wf_unlock [of s i] by (simp add: later_def prog_wf_def addr_wf_def)
qed

lemma later_alarm [okay_rules]: "later s0 s \<Longrightarrow> later s0 (initng_handler_set_alarm i n s)"
  by (simp add: initng_handler_set_alarm_def Let_def later_upd later_fields)

lemma later_sleep [okay_rules]: "later s0 s \<Longrightarrow> later s0 (initng_global_set_sleep n s)"
  by (simp add: initng_global_set_sleep_def later_fields)

lemma later_no_alarm [okay_rules]: "later s0 s \<Longrightarrow> later s0 (upd_svc i (\<lambda>a. a\<lparr>a_alarm := n\<rparr>) s)"
  by (rule later_upd) auto

lemma later_cache [okay_rules]: "later s0 s \<Longrightarrow> later s0 (set_depend_cache i n s)"
  unfolding set_depend_cache_def by (rule later_upd) auto

lemma later_upd_process [okay_rules]:
  assumes "later s0 s" and "\<And>p. p_addr (f p) = p_addr p"
  shows "later s0 (upd_process i pa f s)"
  unfolding upd_process_def by (rule later_upd) (use assms in \<open>auto simp: comp_def\<close>)

lemma later_process_free [okay_rules]: "later s0 s \<Longrightarrow> later s0 (initng_process_db_free i pa s)"
  unfolding initng_process_db_free_def by (rule later_upd_process) auto

lemma later_upd_pipe [okay_rules]: "later s0 s \<Longrightarrow> later s0 (upd_pipe i pa n f s)"
  unfolding upd_pipe_def by (rule later_upd_process) auto

lemma later_module [okay_rules]: "later s0 s \<Longrightarrow> later s0 (upd_module m f s)"
  by (simp add: upd_module_def later_fields)

text \<open>Writes to the variables.\<close>

lemma visible_add_addrs:
  "d_addr ` set (visible (data_list_add e d)) \<subseteq> insert (d_addr e) (d_addr ` set (visible d))"
  by (cases d) (auto split: option.splits)

lemma update_addrs:
  assumes "\<And>c. d_addr (f c) = d_addr c"
  shows "d_addr ` set (visible (data_update a f d)) = d_addr ` set (visible d)"
proof -
  have "map d_addr (visible (data_update a f d)) = map d_addr (visible d)" using assms by simp
  then show ?thesis by (metis list.set_map)
qed

lemma store_addrs: "d_addr ` set (visible (store_value a ty vn t d)) \<subseteq> insert a (d_addr ` set (visible d))"
proof (cases "initng_data_get_next_var (Some ty) vn d None")
  case None
  with visible_add_addrs [of "new_entry a ty vn t" d] show ?thesis by (simp add: store_value_def new_entry_def)
next
  case (Some c)
  with update_addrs [of "\<lambda>c. c\<lparr>d_t := t\<rparr>" "d_addr c" d] show ?thesis by (auto simp: store_value_def)
qed

lemma setter_addrs:
  "d_addr ` set (visible (initng_data_set_int_var a ty vn d v)) \<subseteq> insert a (d_addr ` set (visible d))"
  "d_addr ` set (visible (initng_data_set_var a ty vn d)) \<subseteq> insert a (d_addr ` set (visible d))"
  using store_addrs visible_add_addrs [of "new_entry a ty' vn U_zero" d for ty']
  by (auto simp: initng_data_set_int_var_def initng_data_set_var_def new_entry_def split: option.splits)

lemma later_upd_data:
  assumes s: "later s0 s"
    and g: "\<And>d. data_wf d \<Longrightarrow> addr_fresh (g_next_addr s) d \<Longrightarrow> data_wf (g d)"
      "\<And>d. data_wf d \<Longrightarrow> d_addr ` set (visible (g d)) \<subseteq> insert (g_next_addr s) (d_addr ` set (visible d))"
  shows "later s0 (bump_addr (upd_data i g s))"
proof -
  let ?t = "upd_data i g s"
  have w: "data_wf (a_data (svc s j))" "\<forall>c \<in> set (visible (a_data (svc s j))). d_addr c < g_next_addr s"
    if "alive s j" for j
    using s that by (simp_all add: later_def prog_wf_def db_wf_def svc_wf_def addr_wf_def)
  then have fresh: "addr_fresh (g_next_addr s) (a_data (svc s j))" if "alive s j" for j
    using that by (fastforce simp: addr_fresh_def)
  have "db_wf ?t"
    unfolding upd_data_def
    by (rule db_wf_upd) (use s w g(1) fresh in \<open>auto simp: later_def prog_wf_def svc_wf_def\<close>)
  moreover have "d_addr c < g_next_addr s + 1" if "alive s j" "c \<in> set (visible (a_data (svc ?t j)))" for j c
    using w [OF that(1)] g(2) [of "a_data (svc s j)"] that
    by (force simp: upd_data_def split: if_splits)
  moreover have "p_addr p < g_next_addr s + 1" if "alive s j" "p \<in> set (a_processes (svc ?t j))" for j p
    using s that by (force simp: upd_data_def later_def prog_wf_def addr_wf_def split: if_splits)
  ultimately show ?thesis
    using s by (auto simp: later_def prog_wf_def addr_wf_def db_wf_def bump_addr_def upd_data_def)
qed

lemma later_set [okay_rules]: "later s0 s \<Longrightarrow> later s0 (svc_set ty i s)"
  unfolding svc_set_def by (rule later_upd_data) (simp_all add: wf_set_var setter_addrs)

lemma later_set_int [okay_rules]: "later s0 s \<Longrightarrow> later s0 (svc_set_int ty i v s)"
  unfolding svc_set_int_def by (rule later_upd_data) (simp_all add: wf_set_int setter_addrs)

lemma later_upd_data_in_place:
  assumes s: "later s0 s"
    and g: "\<And>d. data_wf d \<Longrightarrow> data_wf (g d)" "\<And>d. data_wf d \<Longrightarrow> d_addr ` set (visible (g d)) \<subseteq> d_addr ` set (visible d)"
  shows "later s0 (upd_data i g s)"
proof -
  let ?t = "upd_data i g s"
  have w: "data_wf (a_data (svc s j))" "\<forall>c \<in> set (visible (a_data (svc s j))). d_addr c < g_next_addr s"
    if "alive s j" for j
    using s that by (simp_all add: later_def prog_wf_def db_wf_def svc_wf_def addr_wf_def)
  have "db_wf ?t"
    unfolding upd_data_def
    by (rule db_wf_upd) (use s w g(1) in \<open>auto simp: later_def prog_wf_def svc_wf_def\<close>)
  moreover have "d_addr c < g_next_addr s" if "alive s j" "c \<in> set (visible (a_data (svc ?t j)))" for j c
    using w [OF that(1)] g(2) [of "a_data (svc s j)"] that
    by (force simp: upd_data_def split: if_splits)
  moreover have "p_addr p < g_next_addr s" if "alive s j" "p \<in> set (a_processes (svc ?t j))" for j p
    using s that by (force simp: upd_data_def later_def prog_wf_def addr_wf_def split: if_splits)
  ultimately show ?thesis
    using s by (auto simp: later_def prog_wf_def addr_wf_def upd_data_def)
qed

lemma later_remove [okay_rules]: "later s0 s \<Longrightarrow> later s0 (svc_remove ty i s)"
  unfolding svc_remove_def by (rule later_upd_data_in_place) (auto simp: visible_remove_var)

text \<open>New services and new processes.\<close>

lemma later_new [okay_rules]:
  assumes s: "later s0 s"
  shows "later s0 (snd (initng_active_db_new n s))"
proof -
  let ?t = "snd (initng_active_db_new n s)"
  have wf: "db_wf s" "addr_wf s" using s by (simp_all add: later_def prog_wf_def)
  have "svc ?t i = svc s i" if "alive s i" for i
    using that wf(1) by (intro new_simps(5)) (auto simp: db_wf_def)
  moreover have "a_processes (svc ?t (g_next_sid s)) = []" "visible (a_data (svc ?t (g_next_sid s))) = []"
    "g_next_addr ?t = g_next_addr s"
    by (simp_all add: initng_active_db_new_def Let_def calloc_service_def DATA_HEAD_INIT_def)
  then have "addr_wf ?t"
    using wf(2) unfolding addr_wf_def by (metis new_simps(5) empty_iff empty_set)
  ultimately show ?thesis using db_wf_new [OF wf(1)] s by (simp add: later_def prog_wf_def)
qed

lemma alive_new [okay_rules]: "alive (snd (initng_active_db_new n s)) (fst (initng_active_db_new n s))"
  by (simp add: new_simps)

lemma later_register [okay_rules]:
  assumes "later s0 s" and "alive s i"
  shows "later s0 (snd (initng_active_db_register i s))"
proof -
  have "svc (snd (initng_active_db_register i s)) = svc s"
    "g_next_addr (snd (initng_active_db_register i s)) = g_next_addr s"
    by (simp_all add: initng_active_db_register_def split: option.splits)
  with assms db_wf_register [of s i] show ?thesis by (simp add: later_def prog_wf_def addr_wf_def)
qed

lemma alive_register [okay_rules]: "alive s j \<Longrightarrow> alive (snd (initng_active_db_register i s)) j"
  by (simp add: initng_active_db_register_def split: option.splits)

lemma later_add_process [okay_rules]:
  assumes s: "later s0 s" and p: "p_addr p = g_next_addr s"
  shows "later s0 (add_process p i (bump_addr s))"
proof -
  let ?t = "bump_addr s"
  have t: "later s0 ?t" "g_next_addr ?t = g_next_addr s + 1" "svc ?t = svc s"
    using later_globals [OF s, of "bump_addr s"] by (simp_all add: bump_addr_def)
  have fresh: "p_addr p \<notin> p_addr ` set (a_processes (svc s j))" if "alive s j" for j
    using s that by (force simp: p later_def prog_wf_def addr_wf_def)
  have "db_wf (add_process p i ?t)"
    unfolding add_process_def by (rule db_wf_upd)
      (use t fresh in \<open>auto simp: later_def prog_wf_def svc_wf_def list_add_def\<close>)
  moreover have "addr_wf (add_process p i ?t)"
    using t s by (auto simp: p add_process_def addr_wf_def later_def prog_wf_def list_add_def split: if_splits)
  ultimately show ?thesis using t(1) by (simp add: later_def prog_wf_def add_process_def)
qed

lemma alive_simps [simp]:
  "alive (mark i st s) j = alive s j"
  "alive (initng_common_state_lock i s) j = alive s j"
  "alive (snd (initng_common_state_unlock i s)) j = alive s j"
  "alive (initng_handler_set_alarm i n s) j = alive s j"
  "alive (initng_global_set_sleep k s) j = alive s j"
  "alive (set_depend_cache i n s) j = alive s j"
  "alive (upd_process i pa f s) j = alive s j"
  "alive (initng_process_db_free i pa s) j = alive s j"
  "alive (upd_pipe i pa m g s) j = alive s j"
  "alive (add_effects es s) j = alive s j"
  "alive (svc_set ty i s) j = alive s j"
  "alive (svc_set_int ty i v s) j = alive s j"
  "alive (svc_remove ty i s) j = alive s j"
  "alive (upd_data i d s) j = alive s j"
  "alive (bump_addr s) j = alive s j"
  "alive (add_process p i s) j = alive s j"
  using unlock_frame [of s i]
  by (auto simp: mark_def initng_common_state_lock_def initng_handler_set_alarm_def initng_global_set_sleep_def
      set_depend_cache_def upd_process_def initng_process_db_free_def upd_pipe_def add_effects_def svc_set_def
      svc_set_int_def svc_remove_def upd_data_def bump_addr_def add_process_def same_frame_def Let_def)

section \<open>Loops\<close>

lemma okay_keeps:
  assumes "okay pr t m" and "m = Some x" and "later s0 t"
  shows "later s0 (pr x) \<and> (\<forall>q. alive t q \<longrightarrow> alive (pr x) q)"
  using assms later_trans by (auto simp: okay_def later_def)

lemma okay_loops:
  assumes s: "later s0 s" and mem: "\<And>t p. later s0 t \<Longrightarrow> p \<in> set (L t) \<Longrightarrow> alive t p"
    and body: "\<And>p t. later s0 t \<Longrightarrow> later t t \<Longrightarrow> alive t p \<Longrightarrow> okay snd t (body p t)"
  shows "okay snd s0 (while_list L body k s)" "okay snd s0 (while_list_safe L body k s)"
proof -
  have b: "later s0 t' \<and> (\<forall>q. alive t q \<longrightarrow> alive t' q)"
    if "later s0 t" "alive t p" "body p t = Some (r, t')" for p t r t'
    using okay_keeps [OF body [OF that(1) later_refl [OF later_wf [OF that(1)]] that(2)] that(3,1)] by simp
  show "okay snd s0 (while_list L body k s)"
    unfolding okay_def
    using while_list_members [where P = "later s0" and A = "\<lambda>p t. alive t p", OF b mem] s by auto
  show "okay snd s0 (while_list_safe L body k s)"
    unfolding okay_def
    using while_list_safe_members [where P = "later s0" and A = "\<lambda>p t. alive t p", OF b mem] s by auto
qed

lemma okay_active_loops [okay_rules]:
  assumes "later s0 s" and "\<And>p t. later s0 t \<Longrightarrow> later t t \<Longrightarrow> alive t p \<Longrightarrow> okay snd t (body p t)"
  shows "okay snd s0 (while_list g_active_db body k s)" "okay snd s0 (while_list_safe g_active_db body k s)"
  by (rule okay_loops; (rule assms | rule db_wf_alive); assumption)+

text \<open>The same with a local variable beside the program state.\<close>

lemma okay_pair_loops:
  assumes s: "later s0 (snd x)" and mem: "\<And>t p. later s0 t \<Longrightarrow> p \<in> set (L t) \<Longrightarrow> alive t p"
    and body: "\<And>p c t. later s0 t \<Longrightarrow> later t t \<Longrightarrow> alive t p \<Longrightarrow> okay (\<lambda>x. snd (snd x)) t (body p (c, t))"
  shows "okay (\<lambda>x. snd (snd x)) s0 (while_list (\<lambda>x. L (snd x)) body k x)"
    "okay (\<lambda>x. snd (snd x)) s0 (while_list_safe (\<lambda>x. L (snd x)) body k x)"
proof -
  have b: "later s0 (snd y') \<and> (\<forall>q. alive (snd y) q \<longrightarrow> alive (snd y') q)"
    if "later s0 (snd y)" "alive (snd y) p" "body p y = Some (r, y')" for p y r y'
    using okay_keeps [OF body [OF that(1) later_refl [OF later_wf [OF that(1)]] that(2), of "fst y"] _ that(1)] that(3)
    by simp
  show "okay (\<lambda>x. snd (snd x)) s0 (while_list (\<lambda>x. L (snd x)) body k x)"
    unfolding okay_def
  proof (intro allI impI)
    fix y
    assume "while_list (\<lambda>x. L (snd x)) body k x = Some y"
    then have y: "while_list (\<lambda>x. L (snd x)) body k x = Some (fst y, snd y)" by simp
    show "later s0 (snd (snd y))"
      by (rule while_list_members [where P = "\<lambda>y. later s0 (snd y)" and A = "\<lambda>p y. alive (snd y) p", OF b mem y s])
  qed
  show "okay (\<lambda>x. snd (snd x)) s0 (while_list_safe (\<lambda>x. L (snd x)) body k x)"
    unfolding okay_def
  proof (intro allI impI)
    fix y
    assume "while_list_safe (\<lambda>x. L (snd x)) body k x = Some y"
    then have y: "while_list_safe (\<lambda>x. L (snd x)) body k x = Some (fst y, snd y)" by simp
    show "later s0 (snd (snd y))"
      by (rule while_list_safe_members [where P = "\<lambda>y. later s0 (snd y)" and A = "\<lambda>p y. alive (snd y) p", OF b mem y s])
  qed
qed

lemma okay_pair_active_loops [okay_rules]:
  assumes "later s0 (snd x)"
    and "\<And>p c t. later s0 t \<Longrightarrow> later t t \<Longrightarrow> alive t p \<Longrightarrow> okay (\<lambda>x. snd (snd x)) t (body p (c, t))"
  shows "okay (\<lambda>x. snd (snd x)) s0 (while_list (\<lambda>x. g_active_db (snd x)) body k x)"
    "okay (\<lambda>x. snd (snd x)) s0 (while_list_safe (\<lambda>x. g_active_db (snd x)) body k x)"
  by (rule okay_pair_loops; (rule assms | rule db_wf_alive); assumption)+

lemma okay_interrupt_loops [okay_rules]:
  assumes "later s0 (snd x)"
    and "\<And>p c t. later s0 t \<Longrightarrow> later t t \<Longrightarrow> alive t p \<Longrightarrow> okay (\<lambda>x. snd (snd x)) t (body p (c, t))"
  shows "okay (\<lambda>x. snd (snd x)) s0 (while_list_safe (\<lambda>x. g_interrupt (snd x)) body k x)"
  by (rule okay_pair_loops; (rule assms | rule interrupt_alive); assumption)

lemma okay_each [okay_rules]:
  assumes "later s0 s" and body: "\<And>p t. p \<in> set xs \<Longrightarrow> later s0 t \<Longrightarrow> later t t \<Longrightarrow> okay snd t (body p t)"
  shows "okay snd s0 (each body xs s)"
  unfolding okay_def
proof (intro allI impI)
  fix y
  assume "each body xs s = Some y"
  then have e: "each body xs s = Some (fst y, snd y)" by simp
  have "later s0 t'" if "p \<in> set xs" "body p t = Some (r, t')" "later s0 t" for p t r t'
    using okay_keeps [OF body [OF that(1,3) later_refl [OF later_wf [OF that(3)]]] that(2,3)] by simp
  from each_invariant [where P = "later s0", OF this e assms(1)] show "later s0 (snd y)" .
qed

lemma okay_get_next [okay_rules]:
  assumes body: "\<And>c t. later s0 t \<Longrightarrow> later t t \<Longrightarrow> okay snd t (body c t)"
  shows "later s0 s \<Longrightarrow> okay snd s0 (while_get_next type D body k cur s)"
proof (induction k arbitrary: cur s)
  case (Suc k)
  show ?case
  proof (cases "initng_data_get_next_var type None (D s) cur")
    case (Some c)
    have "okay snd s0 (body c s)" by (rule okay_start [OF Suc.prems]) (rule body [OF Suc.prems])
    then show ?thesis
      using Some by (auto intro!: okay_bind_pair okay_Some Suc.IH split: option.split)
  qed (use Suc.prems in \<open>simp add: okay_Some\<close>)
qed (simp add: okay_None)

lemma okay_pair_get_next [okay_rules]:
  assumes body: "\<And>c n t. later s0 t \<Longrightarrow> later t t \<Longrightarrow> okay (\<lambda>x. snd (snd x)) t (body c (n, t))"
  shows "later s0 (snd x) \<Longrightarrow> okay (\<lambda>x. snd (snd x)) s0 (while_get_next type D body k cur x)"
proof (induction k arbitrary: cur x)
  case (Suc k)
  show ?case
  proof (cases "initng_data_get_next_var type None (D x) cur")
    case (Some c)
    have "okay (\<lambda>x. snd (snd x)) s0 (body c (fst x, snd x))"
      by (rule okay_start [OF Suc.prems]) (rule body [OF Suc.prems])
    then show ?thesis
      using Some by (auto intro!: okay_bind_triple okay_Some Suc.IH split: option.split)
  qed (use Suc.prems in \<open>simp add: okay_Some\<close>)
qed (simp add: okay_None)

lemma okay_next_string [okay_rules]:
  assumes body: "\<And>c t. later s0 t \<Longrightarrow> later t t \<Longrightarrow> okay snd t (body c t)"
  shows "later s0 s \<Longrightarrow> okay snd s0 (while_next_string type D body k cur s)"
proof (induction k arbitrary: cur s)
  case (Suc k)
  show ?case
  proof (cases "initng_data_get_next_string_var (Some type) None (D s) cur")
    case (Pair str itt)
    have "okay snd s0 (body c s)" for c by (rule okay_start [OF Suc.prems]) (rule body [OF Suc.prems])
    then show ?thesis
      using Pair Suc.prems by (cases str) (auto intro!: okay_bind_pair okay_Some Suc.IH split: option.split)
  qed
qed (simp add: okay_None)

section \<open>The contract of the function pointers\<close>

fun data_alive :: "sys \<Rightarrow> event_data \<Rightarrow> bool" where
  "data_alive s (ED_service i) = alive s i"
| "data_alive s (ED_dep_on i j) = (alive s i \<and> alive s j)"
| "data_alive s (ED_process i pa) = alive s i"
| "data_alive s (ED_launch i pa n) = alive s i"
| "data_alive s (ED_pipe i pa n) = alive s i"
| "data_alive s (ED_buffer i pa n str) = alive s i"
| "data_alive s _ = True"

definition ev_alive :: "sys \<Rightarrow> s_event \<Rightarrow> bool" where
  "ev_alive s ev \<longleftrightarrow> data_alive s (ev_data ev)
     \<and> (ev_type ev \<noteq> EVENT_IO_WATCHER \<longrightarrow> (\<forall>i. ev_ret ev = Some i \<longrightarrow> alive s i))"

lemma data_alive_later: "later s t \<Longrightarrow> data_alive s d \<Longrightarrow> data_alive t d"
  by (cases d) (simp_all add: later_alive)

lemma ev_alive_later: "later s t \<Longrightarrow> ev_alive s ev \<Longrightarrow> ev_alive t ev"
  by (simp add: ev_alive_def data_alive_later later_alive)

lemma ev_alive_event [simp]: "ev_alive s (event t d) = data_alive s d"
  by (simp add: ev_alive_def event_def)

lemma ev_alive_status [simp]: "ev_alive s (ev\<lparr>ev_status := v\<rparr>) = ev_alive s ev"
  by (simp add: ev_alive_def)

locale safe_callbacks =
  fixes E :: env
  assumes hook_safe: "prog_wf s \<Longrightarrow> ev_alive s ev \<Longrightarrow> e_hook E f ev s = Some (ev', s') \<Longrightarrow>
      prog_wf s' \<and> ev_alive s' ev' \<and> ev_type ev' = ev_type ev \<and> (ev_type ev \<noteq> EVENT_IO_WATCHER \<longrightarrow> later s s')"
    and state_safe: "prog_wf s \<Longrightarrow> alive s i \<Longrightarrow> okay id s (e_state_fn E f i s)"
    and type_safe: "prog_wf s \<Longrightarrow> alive s i \<Longrightarrow> okay snd s (e_type_fn E f i s)"
    and kill_safe: "prog_wf s \<Longrightarrow> alive s i \<Longrightarrow> okay id s (e_kill_fn E f i pa s)"
    and mod_init_safe: "prog_wf s \<Longrightarrow> okay snd s (e_mod_init E f s)"
    and mod_unload_safe: "prog_wf s \<Longrightarrow> okay id s (e_mod_unload E f s)"
    and command_safe: "prog_wf s \<Longrightarrow> e_command E f arg s = Some (r, s') \<Longrightarrow> prog_wf s'"
begin

lemma callbacks_okay:
  assumes "later s0 s"
  shows "alive s i \<Longrightarrow> okay id s0 (e_state_fn E f i s)" "alive s i \<Longrightarrow> okay snd s0 (e_type_fn E f i s)"
    "alive s i \<Longrightarrow> okay id s0 (e_kill_fn E f i pa s)" "okay snd s0 (e_mod_init E f s)"
    "okay id s0 (e_mod_unload E f s)"
  by (rule okay_start [OF assms], rule state_safe [OF later_wf [OF assms]]; assumption
      | rule okay_start [OF assms], rule type_safe [OF later_wf [OF assms]]; assumption
      | rule okay_start [OF assms], rule kill_safe [OF later_wf [OF assms]]; assumption
      | rule okay_start [OF assms], rule mod_init_safe [OF later_wf [OF assms]]
      | rule okay_start [OF assms], rule mod_unload_safe [OF later_wf [OF assms]])+

lemma send_wf:
  assumes s: "prog_wf s" "ev_alive s ev" and send: "initng_event_send E ev s = Some (ev', s')"
  shows "prog_wf s' \<and> ev_alive s' ev' \<and> ev_type ev' = ev_type ev \<and> (ev_type ev \<noteq> EVENT_IO_WATCHER \<longrightarrow> later s s')"
proof -
  let ?P = "\<lambda>es. prog_wf (snd es) \<and> ev_alive (snd es) (fst es) \<and> ev_type (fst es) = ev_type ev
    \<and> (ev_type ev \<noteq> EVENT_IO_WATCHER \<longrightarrow> later s (snd es))"
  have "?P es'" if "send_hook E c es = Some (r, es')" "?P es" for c es r es'
  proof -
    from that(1) have "e_hook E (c_pointer c) (fst es) (snd es) = Some (fst es', snd es')"
      by (auto simp: send_hook_def split: bind_splits if_splits)
    with hook_safe [of "snd es" "fst es"] that(2) later_trans show ?thesis by metis
  qed
  moreover from send obtain r es' where w: "while_list (\<lambda>es. g_hooks (snd es) (ev_type ev)) (send_hook E)
      (e_fuel E) (ev\<lparr>ev_status := WAITING\<rparr>, s) = Some (r, es')"
      "s' = snd es'" "ev' = fst es' \<or> ev' = (fst es')\<lparr>ev_status := UNKNOWN\<rparr>"
    by (auto simp: initng_event_send_def split: bind_splits option.splits)
  ultimately have "?P es'"
    using while_list_invariant [where P = ?P, OF _ w(1)] s later_refl [OF s(1)] by (auto simp del: split_paired_All)
  with w(2,3) show ?thesis by auto
qed

lemma send_later:
  assumes "later s0 s" "ev_alive s ev" "ev_type ev \<noteq> EVENT_IO_WATCHER" "initng_event_send E ev s = Some (ev', s')"
  shows "later s0 s' \<and> ev_alive s' ev'"
  using send_wf [OF later_wf [OF assms(1)] assms(2,4)] assms(1,3) later_trans by blast

lemma send_okay:
  "later s0 s \<Longrightarrow> data_alive s d \<Longrightarrow> t \<noteq> EVENT_IO_WATCHER \<Longrightarrow> okay snd s0 (initng_event_send E (event t d) s)"
  using send_later [of s0 s "event t d"] by (auto simp: okay_def)

lemma module_callers_okay:
  assumes "later s0 s"
  shows "okay snd s0 (initng_module_callers_active_db_dump E s)" "okay snd s0 (initng_module_callers_active_db_reload E s)"
    "okay id s0 (initng_module_callers_compensate_time E n s)"
    "alive s i \<Longrightarrow> okay snd s0 (initng_module_callers_handle_killed E i pa s)"
    "okay snd s0 (initng_module_active_new E str s)" "okay id s0 (initng_module_callers_signal E sig s)"
    "okay id s0 (initng_module_callers_system_changed E st s)"
  using assms
  by (auto intro!: okay_rules send_okay
      simp: initng_module_callers_active_db_dump_def initng_module_callers_active_db_reload_def
        initng_module_callers_compensate_time_def initng_module_callers_handle_killed_def
        initng_module_active_new_def initng_module_callers_signal_def initng_module_callers_system_changed_def)

end

section \<open>Dependencies\<close>

context safe_callbacks
begin

lemmas pointers_okay [okay_rules] = callbacks_okay send_okay module_callers_okay

lemma depend_okay [okay_rules]:
  "later s0 s \<Longrightarrow> alive s i \<Longrightarrow> alive s j \<Longrightarrow> okay snd s0 (initng_depend E i j s)"
  by (auto simp: initng_depend_def intro!: okay_rules)

lemma depend_deep2_okay:
  "later s0 s \<Longrightarrow> alive s i \<Longrightarrow> alive s j \<Longrightarrow>
    okay (\<lambda>x. snd (snd x)) s0 (initng_depend_deep2 E k i j n s)"
proof (induction k arbitrary: i n s s0)
  case (Suc k)
  show ?case
    by (rule okay_start [OF Suc.prems(1)])
      (use Suc.prems(2,3) in \<open>auto intro!: okay_rules Suc.IH split: prod.split; meson later_alive\<close>)
qed (simp add: okay_None)

lemma depend_deep_okay [okay_rules]:
  "later s0 s \<Longrightarrow> alive s i \<Longrightarrow> alive s j \<Longrightarrow> okay snd s0 (initng_depend_deep E i j s)"
  by (auto simp: initng_depend_deep_def intro!: okay_rules depend_deep2_okay)

lemma any_depends_on_okay [okay_rules]:
  assumes "later s0 s" "alive s i"
  shows "okay snd s0 (initng_depend_any_depends_on E i s)"
  by (rule okay_start [OF assms(1)])
    (use assms(2) in \<open>auto simp: initng_depend_any_depends_on_def intro!: okay_rules; meson later_alive\<close>)

lemma up_check_okay [okay_rules]:
  "later s0 s \<Longrightarrow> alive s i \<Longrightarrow> okay snd s0 (initng_depend_up_check E i s)"
  by (auto simp: initng_depend_up_check_def intro!: okay_rules)

lemma stop_dep_met_okay [okay_rules]:
  assumes "later s0 s" "alive s i"
  shows "okay snd s0 (initng_depend_stop_dep_met E i s)"
  by (rule okay_start [OF assms(1)])
    (use assms(2) in \<open>auto simp: initng_depend_stop_dep_met_def stop_dep_body_def Let_def
      intro!: okay_rules split: option.split prod.split; meson later_alive\<close>)

lemma start_dep_met_okay:
  assumes start: "\<And>s0 s j. later s0 s \<Longrightarrow> alive s j \<Longrightarrow> okay snd s0 (start j s)"
    and "later s0 s" "alive s i"
  shows "okay snd s0 (initng_depend_start_dep_met E start i s)"
  by (rule okay_start [OF assms(2)])
    (use assms(3) in \<open>auto simp: initng_depend_start_dep_met_def start_dep_body_def Let_def
      intro!: okay_rules start split: option.split prod.split e_is.split; meson later_alive find_by_name_alive\<close>)

lemma start_deps_okay:
  assumes start: "\<And>s0 s j. later s0 s \<Longrightarrow> alive s j \<Longrightarrow> okay snd s0 (start j s)"
    and new: "\<And>s0 s n. later s0 s \<Longrightarrow> okay snd s0 (start_new n s)"
    and "later s0 s" "alive s i"
  shows "okay snd s0 (initng_depend_start_deps E start start_new i s)"
  by (rule okay_start [OF assms(3)])
    (use assms(4) in \<open>auto simp: initng_depend_start_deps_def start_deps_body_def
      intro!: okay_rules start new split: option.split; meson later_alive find_by_name_alive\<close>)

lemma dependents_okay:
  assumes act: "\<And>s0 s j. later s0 s \<Longrightarrow> alive s j \<Longrightarrow> okay snd s0 (act j s)"
    and "later s0 s" "alive s i"
  shows "okay snd s0 (initng_depend_stop_deps E act i s)" "okay snd s0 (initng_depend_restart_deps E act i s)"
  unfolding initng_depend_stop_deps_def initng_depend_restart_deps_def dependents_body_def
  by (rule okay_start [OF assms(2)],
      use assms(3) in \<open>auto intro!: okay_rules act; meson later_alive\<close>)+

end

section \<open>Handlers\<close>

context safe_callbacks
begin

lemma set_sys_state_okay [okay_rules]:
  "later s0 s \<Longrightarrow> okay id s0 (initng_main_set_sys_state E st s)"
  by (auto simp: initng_main_set_sys_state_def intro!: okay_rules)

lemma set_runlevel_okay [okay_rules]: "later s0 s \<Longrightarrow> okay id s0 (initng_main_set_runlevel E r s)"
  by (auto simp: initng_main_set_runlevel_def Let_def intro!: okay_rules)

lemma start_new_okay:
  assumes "\<And>s0 s j. later s0 s \<Longrightarrow> alive s j \<Longrightarrow> okay snd s0 (start j s)" and "later s0 s"
  shows "okay snd s0 (start_new_service_named E start n s)"
  by (rule okay_start [OF assms(2)])
    (auto simp: start_new_service_named_def intro!: okay_rules assms(1) split: option.split; meson find_by_name_alive)

lemma call_start_okay [okay_rules]: "later s0 s \<Longrightarrow> alive s i \<Longrightarrow> okay snd s0 (call_start E i s)"
  by (auto simp: call_start_def intro!: okay_rules split: option.split)

lemma start_fuel_okay: "later s0 s \<Longrightarrow> alive s i \<Longrightarrow> okay snd s0 (initng_handler_start_service E k i s)"
proof (induction k arbitrary: s0 s i)
  case (Suc k)
  have new: "later s0 s \<Longrightarrow> okay snd s0 (start_new_service_named E (initng_handler_start_service E k) n s)" for s0 s n
    by (rule start_new_okay) (rule Suc.IH)
  show ?case
    by (rule okay_start [OF Suc.prems(1)])
      (use Suc.prems(2) in \<open>auto intro!: okay_rules start_deps_okay Suc.IH new split: e_is.split; meson later_alive\<close>)
qed (simp add: okay_None)

lemma start_service_okay [okay_rules]:
  "later s0 s \<Longrightarrow> alive s i \<Longrightarrow> okay snd s0 (start_service E i s)"
  by (simp add: start_service_def start_fuel_okay)

lemma start_new_service_okay [okay_rules]:
  "later s0 s \<Longrightarrow> okay snd s0 (initng_handler_start_new_service_named E n s)"
  unfolding initng_handler_start_new_service_named_def by (rule start_new_okay) (rule start_service_okay)

lemmas start_calls_okay [okay_rules] =
  start_deps_okay [where start = "start_service E" and start_new = "initng_handler_start_new_service_named E",
    OF start_service_okay start_new_service_okay]
  start_dep_met_okay [where start = "start_service E", OF start_service_okay]

lemma start_extra_okay [okay_rules]: "later s0 s \<Longrightarrow> okay id s0 (start_extra E ps s)"
  by (induction ps arbitrary: s) (auto intro!: okay_rules)

lemma start_extra_services_okay [okay_rules]:
  "later s0 s \<Longrightarrow> okay id s0 (initng_main_start_extra_services E s)"
  by (auto simp: initng_main_start_extra_services_def intro!: okay_rules)

lemma stop_service_okay [okay_rules]:
  "later s0 s \<Longrightarrow> alive s i \<Longrightarrow> okay snd s0 (initng_handler_stop_service E i s)"
  by (auto simp: initng_handler_stop_service_def intro!: okay_rules split: option.split e_is.split)

lemmas stop_calls_okay [okay_rules] =
  dependents_okay [where act = "initng_handler_stop_service E", OF stop_service_okay]

lemma restart_okay:
  "later s0 s \<Longrightarrow> alive s i \<Longrightarrow> okay snd s0 (initng_handler_restart_service E k i s)"
proof (induction k arbitrary: s0 s i)
  case (Suc k)
  show ?case
    by (rule okay_start [OF Suc.prems(1)])
      (use Suc.prems(2) in \<open>auto intro!: okay_rules dependents_okay Suc.IH split: option.split; meson later_alive\<close>)
qed (simp add: okay_None)

lemma restart_restarting_okay [okay_rules]:
  "later s0 s \<Longrightarrow> okay id s0 (initng_handler_restart_restarting E s)"
  by (auto simp: initng_handler_restart_restarting_def restart_body_def intro!: okay_rules okay_map_snd)

lemma stop_all_okay [okay_rules]: "later s0 s \<Longrightarrow> okay snd s0 (initng_handler_stop_all E s)"
  by (auto simp: initng_handler_stop_all_def stop_all_body_def intro!: okay_rules)

lemma run_alarm_okay [okay_rules]: "later s0 s \<Longrightarrow> okay id s0 (initng_handler_run_alarm E s)"
  by (auto simp: initng_handler_run_alarm_def run_alarm_body_def Let_def intro!: okay_rules okay_map_snd split: option.split)

end

section \<open>Interrupts, processes and signals\<close>

lemma later_interrupt_del [okay_rules]:
  assumes "later s0 s"
  shows "later s0 (s\<lparr>g_interrupt := list_del i (g_interrupt s)\<rparr>)"
proof -
  have "set (list_del i (g_interrupt s)) \<subseteq> set (g_interrupt s)" by (simp add: list_del_def set_remove1_subset)
  with assms show ?thesis
    by (auto simp: later_def prog_wf_def db_wf_def addr_wf_def list_del_def)
qed

context safe_callbacks
begin

lemma check_sys_state_okay [okay_rules]: "later s0 s \<Longrightarrow> okay id s0 (check_sys_state_up E s)"
  by (auto simp: check_sys_state_up_def intro!: okay_rules)

lemma send_locked_okay [okay_rules]:
  assumes "later s0 s" "alive s i" "t \<noteq> EVENT_IO_WATCHER"
  shows "okay snd s0 (send_locked E t i s)"
  by (rule okay_start [OF assms(1)])
    (use assms(2,3) in \<open>auto simp: send_locked_def intro!: okay_rules; meson later_alive\<close>)

lemma is_changed_okay [okay_rules]: "later s0 s \<Longrightarrow> okay id s0 (is_changed E i s)"
  by (auto simp: is_changed_def dep_failed_to_start_def intro!: okay_rules split: e_is.split)

lemma run_init_okay [okay_rules]: "later s0 s \<Longrightarrow> alive s i \<Longrightarrow> okay id s0 (run_init E i s)"
  by (auto simp: run_init_def intro!: okay_rules split: option.split)

lemma handle_okay [okay_rules]:
  assumes "later s0 s" "alive s i"
  shows "okay id s0 (handle E i s)"
  by (rule okay_start [OF assms(1)])
    (use assms(2) in \<open>auto simp: handle_def Let_def intro!: okay_rules; meson later_alive\<close>)

lemma run_handlers_okay [okay_rules]: "later s0 s \<Longrightarrow> okay id s0 (run_interrupt_handlers E s)"
  by (auto simp: run_interrupt_handlers_def run_handlers_body_def intro!: okay_rules okay_map_snd split: option.split)

lemma interrupt_okay [okay_rules]: "later s0 s \<Longrightarrow> okay snd s0 (initng_interrupt E s)"
  by (auto simp: initng_interrupt_def interrupt_body_def Let_def intro!: okay_rules)

lemma readpipe_okay [okay_rules]:
  "later s0 s \<Longrightarrow> alive s i \<Longrightarrow> okay id s0 (initng_io_module_readpipe E i pa n str s)"
  by (auto simp: initng_io_module_readpipe_def intro!: okay_rules)

lemma io_pipe_okay [okay_rules]: "later s0 s \<Longrightarrow> alive s i \<Longrightarrow> okay snd s0 (initng_io_pipe E i pa n s)"
  by (auto simp: initng_io_pipe_def intro!: okay_rules)

lemma read_input_okay [okay_rules]:
  "later s0 s \<Longrightarrow> alive s i \<Longrightarrow> okay id s0 (initng_io_process_read_input E i pa n s)"
  by (auto simp: initng_io_process_read_input_def Let_def intro!: okay_rules split: prod.split)

lemma launch_okay [okay_rules]:
  assumes "later s0 s" "alive s i"
  shows "okay snd s0 (initng_execute_launch E i ty n s)"
  using assms by (auto simp: initng_execute_launch_def Let_def initng_process_db_new_def intro!: okay_rules)

lemma close_pipe_okay [okay_rules]:
  "later s0 s \<Longrightarrow> alive s i \<Longrightarrow> okay snd s0 (close_pipe_body E i pa n s)"
  by (auto simp: close_pipe_body_def intro!: okay_rules)

lemma find_by_pid_alive: "later s t \<Longrightarrow> initng_active_db_find_by_pid pid t = Some i \<Longrightarrow> alive t i"
  using db_wf_alive find_hit by (fastforce simp: initng_active_db_find_by_pid_def)

lemma killed_by_pid_okay [okay_rules]:
  assumes "later s0 s"
  shows "okay id s0 (initng_kill_handler_killed_by_pid E pid r s)"
proof (rule okay_start [OF assms])
  assume s: "later s s"
  show "okay id s (initng_kill_handler_killed_by_pid E pid r s)"
  proof (cases "initng_active_db_find_by_pid pid s")
    case None
    with s show ?thesis by (auto simp: initng_kill_handler_killed_by_pid_def intro!: okay_rules)
  next
    case (Some i)
    with s find_by_pid_alive have i: "alive s i" by blast
    with s Some show ?thesis
      by (auto simp: initng_kill_handler_killed_by_pid_def Let_def intro!: okay_rules split: option.split;
          meson later_alive)
  qed
qed

lemma sigchild_okay [okay_rules]: "later s0 s \<Longrightarrow> okay id s0 (initng_signal_handle_sigchild E s)"
proof -
  have "later s0 s \<Longrightarrow> okay id s0 (sigchild_loop E xs s)" for xs s
    by (induction xs arbitrary: s) (auto intro!: okay_rules)
  then show "later s0 s \<Longrightarrow> okay id s0 (initng_signal_handle_sigchild E s)"
    by (simp add: initng_signal_handle_sigchild_def)
qed

lemma dispatch_okay [okay_rules]: "later s0 s \<Longrightarrow> okay id s0 (initng_signal_dispatch E s)"
proof -
  have slot: "later s0 s \<Longrightarrow> okay id s0 (dispatch_slot E i s)" for i s
    by (auto simp: dispatch_slot_def Let_def intro!: okay_rules)
  have "later s0 s \<Longrightarrow> okay id s0 (dispatch_from E is s)" for "is" s
    by (induction "is" arbitrary: s) (auto intro!: okay_rules slot)
  then show "later s0 s \<Longrightarrow> okay id s0 (initng_signal_dispatch E s)"
    by (simp add: initng_signal_dispatch_def)
qed

end

section \<open>Freeing services\<close>

text \<open>A state in which services may be gone and the others hold fewer processes.\<close>

definition shrinks :: "sys \<Rightarrow> sys \<Rightarrow> bool" where
  "shrinks s t \<longleftrightarrow> g_next_addr t = g_next_addr s
     \<and> (\<forall>j. alive t j \<longrightarrow> alive s j \<and> set (a_processes (svc t j)) \<subseteq> set (a_processes (svc s j))
          \<and> visible (a_data (svc t j)) = visible (a_data (svc s j)))"

lemma shrinks_refl: "shrinks s s"
  by (simp add: shrinks_def)

lemma shrinks_trans: "shrinks s t \<Longrightarrow> shrinks t u \<Longrightarrow> shrinks s u"
  by (auto simp: shrinks_def; blast)

lemma shrinks_addr_wf: "shrinks s t \<Longrightarrow> addr_wf s \<Longrightarrow> addr_wf t"
  unfolding shrinks_def addr_wf_def by (metis subsetD)

lemma shrinks_real_free: "shrinks s (initng_process_db_real_free i p s)"
  by (auto simp: shrinks_def initng_process_db_real_free_def upd_svc_def list_del_def Let_def
      dest: subsetD [OF set_remove1_subset])

lemma shrinks_free_processes: "shrinks s (free_processes i ps s)"
  by (induction ps arbitrary: s) (auto intro: shrinks_refl shrinks_trans shrinks_real_free)

lemma shrinks_mark: "shrinks s (snd (initng_common_mark_service i st s))"
  by (auto simp: shrinks_def initng_common_mark_service_def initng_common_state_unlock_def state_commit_def Let_def
      split: option.splits if_splits)

lemma shrinks_free: "shrinks s (initng_active_db_free i s)"
proof -
  define t where "t = snd (initng_common_mark_service i FREEING s)"
  define u where "u = t\<lparr>g_active_db := list_del i (g_active_db t), g_interrupt := list_del i (g_interrupt t)\<rparr>"
  define v where "v = free_processes i (rev (a_processes (svc u i))) u"
  have "shrinks s t" by (simp add: t_def shrinks_mark)
  moreover have "shrinks t u" by (simp add: u_def shrinks_def)
  moreover have "shrinks u v" by (simp add: v_def shrinks_free_processes)
  moreover have "initng_active_db_free i s =
      upd_svc i (\<lambda>a. a\<lparr>a_data := initng_data_remove_all (a_data a), a_allocated := False\<rparr>) v"
    by (simp add: initng_active_db_free_def Let_def t_def u_def v_def)
  then have "shrinks v (initng_active_db_free i s)" by (auto simp: shrinks_def upd_svc_def)
  ultimately show ?thesis by (blast intro: shrinks_trans)
qed

lemma shrinks_clear_freed:
  assumes "initng_process_db_clear_freed i s = Some t"
  shows "shrinks s t"
proof -
  from assms obtain r where w: "while_list_safe (\<lambda>s. a_processes (svc s i)) (clear_freed_body i)
      (Suc (length (a_processes (svc s i)))) s = Some (r, t)"
    by (auto simp: initng_process_db_clear_freed_def)
  have "shrinks s u'" if "clear_freed_body i p u = Some (r, u')" "shrinks s u" for p u r u'
    using that shrinks_trans [OF that(2) shrinks_real_free]
    by (auto simp: clear_freed_body_def split: if_splits)
  from while_list_safe_invariant [where P = "shrinks s", OF this w shrinks_refl] show ?thesis .
qed

lemma shrinks_clean_down:
  assumes "initng_active_db_clean_down s = Some t"
  shows "shrinks s t"
proof -
  from assms obtain r where w: "while_list_safe g_active_db clean_down_body
      (Suc (length (g_active_db s))) s = Some (r, t)"
    by (auto simp: initng_active_db_clean_down_def)
  have "shrinks s u'" if b: "clean_down_body i u = Some (r, u')" and u: "shrinks s u" for i u r u'
  proof -
    from b consider "u' = u" | v where "initng_process_db_clear_freed i u = Some v" "u' = v \<or> u' = initng_active_db_free i v"
      by (auto simp: clean_down_body_def split: if_splits bind_splits)
    then show ?thesis
      using u shrinks_clear_freed shrinks_free shrinks_trans by cases blast+
  qed
  from while_list_safe_invariant [where P = "shrinks s", OF this w shrinks_refl] show ?thesis .
qed

lemma clean_down_wf:
  assumes "prog_wf s"
  shows "\<exists>t. initng_active_db_clean_down s = Some t \<and> prog_wf t"
proof -
  from assms clean_down_result [of s] obtain t where t: "initng_active_db_clean_down s = Some t" "db_wf t"
    by (auto simp: prog_wf_def)
  with assms shrinks_addr_wf [OF shrinks_clean_down [OF t(1)]] show ?thesis by (simp add: prog_wf_def)
qed

lemma free_wf: "prog_wf s \<Longrightarrow> prog_wf (initng_active_db_free i s)"
  using db_wf_free shrinks_addr_wf [OF shrinks_free] by (simp add: prog_wf_def)

lemma later_free:
  assumes "later s0 s" and "\<not> alive s0 i"
  shows "later s0 (initng_active_db_free i s)"
  unfolding later_def
proof (intro conjI allI impI)
  show "prog_wf (initng_active_db_free i s)" using assms(1) free_wf later_wf by blast
  fix j
  assume "alive s0 j"
  with assms show "alive (initng_active_db_free i s) j" by (cases "j = i") (auto simp: later_def)
qed

end
