(* ===== verification/Module_Safety.thy ===== *)
theory Module_Safety
  imports Safety
begin

text \<open>
  The functions of the modules that describe services and follow them keep the invariant of the
  service memory: the service types, the hooks of Hook_Modules, the launcher, and the registration
  of all of them.
\<close>

section \<open>The functions of the modules keep the invariant\<close>

context safe_callbacks
begin

lemma service_type_okay [okay_rules]:
  assumes "later s0 s" "alive s i"
  shows "okay snd s0 (start_SERVICE i s)" "okay snd s0 (stop_SERVICE i s)"
  using assms by (auto simp: start_SERVICE_def stop_SERVICE_def Let_def case_prod_unfold intro!: okay_rules)

lemma service_marked_okay [okay_rules]:
  assumes "later s0 s" "alive s i"
  shows "okay id s0 (init_SERVICE_START_MARKED E i s)" "okay id s0 (init_SERVICE_STOP_MARKED E i s)"
    "okay id s0 (handle_SERVICE_WAITING_FOR_START_DEP E i s)" "okay id s0 (handle_SERVICE_WAITING_FOR_STOP_DEP E i s)"
  unfolding init_SERVICE_START_MARKED_def init_SERVICE_STOP_MARKED_def
    handle_SERVICE_WAITING_FOR_START_DEP_def handle_SERVICE_WAITING_FOR_STOP_DEP_def
  by (rule okay_start [OF assms(1)], use assms(2) in \<open>auto intro!: okay_rules; meson later_alive\<close>)+

lemma service_run_okay [okay_rules]:
  assumes "later s0 s" "alive s i"
  shows "okay id s0 (init_SERVICE_START_DEPS_MET E i s)" "okay id s0 (init_SERVICE_STOP_DEPS_MET E i s)"
    "okay id s0 (service_handle_killed_start E i pa s)" "okay id s0 (service_handle_killed_stop E i pa s)"
  unfolding init_SERVICE_START_DEPS_MET_def init_SERVICE_STOP_DEPS_MET_def
    service_handle_killed_start_def service_handle_killed_stop_def Let_def case_prod_unfold
  by (rule okay_start [OF assms(1)], use assms(2) in \<open>auto intro!: okay_rules; meson later_alive\<close>)+

lemma service_timeout_okay [okay_rules]:
  assumes "later s0 s" "alive s i"
  shows "later s0 (init_SERVICE_START_RUN i s)" "later s0 (init_SERVICE_STOP_RUN i s)"
    "okay id s0 (timeout_SERVICE_START_RUN E i s)" "okay id s0 (timeout_SERVICE_STOP_RUN E i s)"
  using assms
  by (auto simp: init_SERVICE_START_RUN_def init_SERVICE_STOP_RUN_def timeout_SERVICE_START_RUN_def
      timeout_SERVICE_STOP_RUN_def Let_def intro!: okay_rules split: option.split)

lemma daemon_type_okay [okay_rules]:
  assumes "later s0 s" "alive s i"
  shows "okay snd s0 (start_DAEMON i s)" "okay snd s0 (stop_DAEMON i s)"
  using assms by (auto simp: start_DAEMON_def stop_DAEMON_def Let_def case_prod_unfold intro!: okay_rules)

lemma daemon_marked_okay [okay_rules]:
  assumes "later s0 s" "alive s i"
  shows "okay id s0 (init_DAEMON_START_MARKED E i s)" "okay id s0 (init_DAEMON_STOP_MARKED E i s)"
    "okay id s0 (handle_DAEMON_WAITING_FOR_START_DEP E i s)" "okay id s0 (handle_DAEMON_WAITING_FOR_STOP_DEP E i s)"
  unfolding init_DAEMON_START_MARKED_def init_DAEMON_STOP_MARKED_def
    handle_DAEMON_WAITING_FOR_START_DEP_def handle_DAEMON_WAITING_FOR_STOP_DEP_def
  by (rule okay_start [OF assms(1)], use assms(2) in \<open>auto intro!: okay_rules; meson later_alive\<close>)+

lemma daemon_pid_okay [okay_rules]:
  assumes "later s0 s" "alive s i"
  shows "okay snd s0 (try_get_pid E i s)" "okay id s0 (clear_pidfile E i s)" "later s0 (kill_daemon E i sig s)"
    "okay id s0 (daemon_launched E i s)"
  subgoal
    unfolding try_get_pid_def Let_def
    by (rule okay_start [OF assms(1)],
        use assms(2) in \<open>auto intro!: okay_rules split: option.split; meson later_alive\<close>)
  subgoal
    using assms unfolding clear_pidfile_def clear_pidfile_body_def by (auto intro!: okay_rules okay_map_snd)
  subgoal
    using assms by (auto simp: kill_daemon_def intro!: okay_rules split: option.split)
  subgoal
    unfolding daemon_launched_def
    by (rule okay_start [OF assms(1)], use assms(2) in \<open>auto intro!: okay_rules; meson later_alive\<close>)
  done

lemma kill_daemon_alive [simp]: "alive (kill_daemon E i sig s) j = alive s j"
  by (simp add: kill_daemon_def split: option.split)

lemma daemon_run_okay [okay_rules]:
  assumes "later s0 s" "alive s i"
  shows "okay id s0 (init_DAEMON_START_DEPS_MET E i s)" "okay id s0 (init_DAEMON_STOP_DEPS_MET E i s)"
    "okay id s0 (timeout_DAEMON_WAIT_FOR_PID_FILE E i s)" "okay id s0 (timeout_DAEMON_WAIT_RESP_TOUT E i s)"
  unfolding init_DAEMON_START_DEPS_MET_def init_DAEMON_STOP_DEPS_MET_def timeout_DAEMON_WAIT_FOR_PID_FILE_def
    timeout_DAEMON_WAIT_RESP_TOUT_def initng_process_db_new_def Let_def case_prod_unfold
  by (rule okay_start [OF assms(1)],
      use assms(2) in \<open>auto intro!: okay_rules split: option.split; meson later_alive\<close>)+

lemma daemon_alarm_okay [okay_rules]:
  assumes "later s0 s" "alive s i"
  shows "later s0 (init_DAEMON_WAIT_FOR_PID_FILE i s)" "later s0 (init_DAEMON_WAIT_RESP_TOUT i s)"
    "later s0 (init_DAEMON_TERM i s)" "later s0 (timeout_DAEMON_TERM E i s)"
    "later s0 (init_DAEMON_KILL i s)" "later s0 (timeout_DAEMON_KILL E i s)"
  using assms
  by (auto simp: init_DAEMON_WAIT_FOR_PID_FILE_def init_DAEMON_WAIT_RESP_TOUT_def init_DAEMON_TERM_def
      timeout_DAEMON_TERM_def init_DAEMON_KILL_def timeout_DAEMON_KILL_def Let_def intro!: okay_rules)

lemma check_respawn_okay [okay_rules]: "later s0 s \<Longrightarrow> alive s i \<Longrightarrow> later s0 (snd (check_respawn i s))"
  by (auto simp: check_respawn_def Let_def intro!: okay_rules)

lemma check_respawn_alive [simp]: "alive (snd (check_respawn i s)) j = alive s j"
  by (auto simp: check_respawn_def Let_def)

lemma killed_daemon_okay [okay_rules]:
  assumes "later s0 s" "alive s i"
  shows "okay id s0 (handle_killed_daemon E i pa s)"
  unfolding handle_killed_daemon_def Let_def case_prod_unfold
  by (rule okay_start [OF assms(1)], use assms(2) in \<open>auto intro!: okay_rules; meson later_alive\<close>)

lemma runlevel_type_okay [okay_rules]:
  assumes "later s0 s" "alive s i"
  shows "okay snd s0 (start_RUNLEVEL i s)" "okay snd s0 (stop_RUNLEVEL i s)" "okay snd s0 (start_task i s)"
    "later s0 (handle_task_leave i pa s)"
  using assms by (auto simp: start_RUNLEVEL_def stop_RUNLEVEL_def start_task_def handle_task_leave_def Let_def
      case_prod_unfold intro!: okay_rules)

lemma find_old_alive: "later s t \<Longrightarrow> runlevel_find_old i t = Some j \<Longrightarrow> alive t j"
  using db_wf_alive find_hit by (fastforce simp: runlevel_find_old_def)

lemma stop_unneeded_okay [okay_rules]:
  assumes "later s0 s"
  shows "okay id s0 (runlevel_stop_unneeded E i j s)"
  unfolding runlevel_stop_unneeded_def stop_unneeded_body_def
  by (rule okay_start [OF assms], auto intro!: okay_rules okay_map_snd split: option.split; meson find_by_name_alive)

lemma replace_runlevel_okay:
  assumes s: "later s0 s"
  shows "okay id s0 (case runlevel_find_old i s of
       None \<Rightarrow> Some s
     | Some old \<Rightarrow> do {
         s \<leftarrow> runlevel_stop_unneeded E old i s;
         (r, s) \<leftarrow> initng_handler_stop_service E old s;
         Some s })"
proof (rule okay_start [OF s])
  assume "later s s"
  with find_old_alive [of s s i] show "okay id s (case runlevel_find_old i s of
       None \<Rightarrow> Some s
     | Some old \<Rightarrow> do {
         s \<leftarrow> runlevel_stop_unneeded E old i s;
         (r, s) \<leftarrow> initng_handler_stop_service E old s;
         Some s })"
    by (auto intro!: okay_rules split: option.split; meson later_alive)
qed

lemma runlevel_start_okay [okay_rules]:
  assumes "later s0 s" "alive s i"
  shows "okay id s0 (init_RUNLEVEL_START_MARKED E i s)"
  unfolding init_RUNLEVEL_START_MARKED_def
  by (rule okay_start [OF assms(1)], use assms(2) in
      \<open>auto intro!: okay_rules replace_runlevel_okay; meson later_alive\<close>)

lemma runlevel_okay [okay_rules]:
  assumes "later s0 s" "alive s i"
  shows "okay id s0 (init_RUNLEVEL_STOP_MARKED E i s)"
    "okay id s0 (handle_RUNLEVEL_WAITING_FOR_START_DEP E i s)" "okay id s0 (handle_RUNLEVEL_WAITING_FOR_STOP_DEP E i s)"
    "okay id s0 (task_run_marked E i s)" "okay id s0 (handle_deps E i s)" "okay id s0 (task_deps_met E i s)"
  unfolding init_RUNLEVEL_STOP_MARKED_def handle_RUNLEVEL_WAITING_FOR_START_DEP_def
    handle_RUNLEVEL_WAITING_FOR_STOP_DEP_def task_run_marked_def handle_deps_def task_deps_met_def
  by (rule okay_start [OF assms(1)], use assms(2) in
      \<open>auto intro!: okay_rules split: option.split; meson later_alive\<close>)+

end

section \<open>Registration of the modules\<close>

lemma later_fold [okay_rules]:
  assumes "\<And>x s. later s0 s \<Longrightarrow> later s0 (f x s)"
  shows "later s0 s \<Longrightarrow> later s0 (fold f xs s)"
  by (induction xs arbitrary: s) (simp_all add: assms)

lemma later_registry [okay_rules]:
  assumes "later s0 s"
  shows "later s0 (initng_service_data_type_register ent s)" "later s0 (initng_service_data_type_unregister ent s)"
    "later s0 (snd (initng_active_state_register st s))" "later s0 (initng_active_state_unregister st s)"
    "later s0 (hook file t f s)" "later s0 (initng_event_hook_unregister t f s)"
    "later s0 (initng_service_type_register ty s)" "later s0 (initng_service_type_unregister ty s)"
    "later s0 (initng_process_db_ptype_register pt s)" "later s0 (initng_process_db_ptype_unregister pt s)"
    "later s0 (snd (initng_command_register cmd s))" "later s0 (initng_command_unregister cmd s)"
    "later s0 (snd (initng_module_unload_named name s))" "later s0 (initng_module_close_and_free m s)"
  using assms
  by (auto simp: initng_service_data_type_register_def initng_service_data_type_unregister_def
      initng_active_state_register_def initng_active_state_unregister_def hook_def initng_event_hook_register_def
      initng_event_hook_unregister_def initng_service_type_register_def initng_service_type_unregister_def
      initng_process_db_ptype_register_def initng_process_db_ptype_unregister_def initng_command_register_def
      initng_command_unregister_def initng_module_unload_named_def initng_module_close_and_free_def Let_def
      intro!: okay_rules split: option.split)

lemma later_registries [okay_rules]:
  assumes "later s0 s"
  shows "later s0 (register_entries es s)" "later s0 (unregister_entries es s)"
    "later s0 (register_states sts s)" "later s0 (unregister_states sts s)"
  using assms
  by (auto simp: register_entries_def unregister_entries_def register_states_def unregister_states_def intro!: okay_rules)

lemma later_module_init [okay_rules]:
  assumes "later s0 s"
  shows "later s0 (snd (service_module_init s))" "later s0 (snd (daemon_module_init s))"
    "later s0 (snd (runlevel_module_init s))" "later s0 (snd (task_module_init s))"
    "later s0 (snd (also_module_init s))" "later s0 (snd (conflict_module_init s))"
    "later s0 (snd (lockfile_module_init s))" "later s0 (snd (last_module_init s))"
    "later s0 (snd (synchron_module_init s))" "later s0 (snd (fstat_module_init s))"
    "later s0 (snd (interactive_module_init s))" "later s0 (snd (daemon_clean_module_init s))"
    "later s0 (snd (ctrlaltdel_module_init s))" "later s0 (snd (unneeded_module_init s))"
    "later s0 (snd (provide_module_init s))" "later s0 (snd (simple_launcher_module_init s))"
  using assms
  by (auto simp: service_module_init_def daemon_module_init_def runlevel_module_init_def task_module_init_def
      also_module_init_def conflict_module_init_def lockfile_module_init_def last_module_init_def
      synchron_module_init_def fstat_module_init_def interactive_module_init_def daemon_clean_module_init_def
      ctrlaltdel_module_init_def unneeded_module_init_def provide_module_init_def simple_launcher_module_init_def Let_def
      intro!: okay_rules)

lemma later_module_unload [okay_rules]:
  assumes "later s0 s"
  shows "later s0 (service_module_unload s)" "later s0 (daemon_module_unload s)"
    "later s0 (runlevel_module_unload s)" "later s0 (task_module_unload s)"
    "later s0 (also_module_unload s)" "later s0 (conflict_module_unload s)"
    "later s0 (lockfile_module_unload s)" "later s0 (last_module_unload s)"
    "later s0 (synchron_module_unload s)" "later s0 (fstat_module_unload s)"
    "later s0 (interactive_module_unload s)" "later s0 (daemon_clean_module_unload s)"
    "later s0 (ctrlaltdel_module_unload s)" "later s0 (unneeded_module_unload s)"
    "later s0 (provide_module_unload s)" "later s0 (simple_launcher_module_unload s)"
  using assms
  by (auto simp: service_module_unload_def daemon_module_unload_def runlevel_module_unload_def task_module_unload_def
      also_module_unload_def conflict_module_unload_def lockfile_module_unload_def last_module_unload_def
      synchron_module_unload_def fstat_module_unload_def interactive_module_unload_def interactive_off_def
      daemon_clean_module_unload_def ctrlaltdel_module_unload_def unneeded_module_unload_def
      provide_module_unload_def simple_launcher_module_unload_def Let_def
      intro!: okay_rules)

section \<open>Hooks\<close>

lemma event_service_alive: "ev_alive s ev \<Longrightarrow> event_service t ev = Some i \<Longrightarrow> alive s i"
  by (auto simp: event_service_def ev_alive_def split: event_data.splits if_splits)

text \<open>A new service whose name is free is always registered.\<close>

lemma register_new:
  assumes "db_wf s" "initng_active_db_find_by_name n s = None"
  shows "fst (initng_active_db_register (g_next_sid s)
    (upd_svc (g_next_sid s) (\<lambda>a. a\<lparr>a_type := ty\<rparr>) (snd (initng_active_db_new n s)))) = TRUE"
proof -
  let ?t = "upd_svc (g_next_sid s) (\<lambda>a. a\<lparr>a_type := ty\<rparr>) (snd (initng_active_db_new n s))"
  have "a_name (svc ?t (g_next_sid s)) = n" "g_active_db ?t = g_active_db s"
    by (simp_all add: initng_active_db_new_def Let_def)
  moreover have "svc ?t i = svc s i" if "i \<in> set (g_active_db s)" for i
    using assms(1) that by (force simp: initng_active_db_new_def Let_def db_wf_def)
  then have "find_by_name_walk h n ?t xs = find_by_name_walk h n s xs" if "set xs \<subseteq> set (g_active_db s)" for xs h
    using that by (induction xs) auto
  then have "find_by_name_walk h n ?t (rev (g_active_db s)) = find_by_name_walk h n s (rev (g_active_db s))" for h
    by simp
  ultimately show ?thesis
    using assms(2) by (simp add: initng_active_db_register_def initng_active_db_find_by_name_def)
qed

lemma later_virtual [okay_rules]:
  assumes s: "later s0 s"
  shows "later s0 (snd (virtual_service_set_up n s))" "later s0 (remove_virtual_service n s)"
    "later s0 (snd (add_virtual_service n s))"
proof -
  have a: "initng_active_db_find_by_name n s = Some v \<Longrightarrow> alive s v" for v
    using s by (rule find_by_name_alive)
  from s show "later s0 (snd (virtual_service_set_up n s))" "later s0 (remove_virtual_service n s)"
    by (auto simp: virtual_service_set_up_def remove_virtual_service_def Let_def a intro!: okay_rules split: option.split prod.split)
  show "later s0 (snd (add_virtual_service n s))"
  proof (cases "initng_active_db_find_by_name n s")
    case (Some v)
    with s a [OF Some] show ?thesis by (auto simp: add_virtual_service_def Let_def intro!: okay_rules)
  next
    case None
    let ?t = "upd_svc (g_next_sid s) (\<lambda>a. a\<lparr>a_type := Some PROVIDED\<rparr>) (snd (initng_active_db_new n s))"
    have t: "later s0 ?t" by (rule later_upd) (use s in \<open>auto intro!: okay_rules\<close>)
    have i: "alive ?t (g_next_sid s)" by (simp add: initng_active_db_new_def Let_def)
    from None register_new [of s n "Some PROVIDED"] s
    have "snd (add_virtual_service n s) = svc_set_int PCOUNT (g_next_sid s) 1
        (mark (g_next_sid s) SOON_PROVIDED (snd (initng_active_db_register (g_next_sid s) ?t)))"
      by (simp add: add_virtual_service_def later_def prog_wf_def initng_active_db_new_def Let_def case_prod_unfold)
    with t i show ?thesis by (auto intro!: okay_rules)
  qed
qed

context safe_callbacks
begin

lemma also_bodies_okay [okay_rules]:
  assumes "later s0 s"
  shows "alive s i \<Longrightarrow> okay snd s0 (also_start_body E i n s)" "okay snd s0 (also_stop_body E n s)"
  unfolding also_start_body_def also_stop_body_def
  by (rule okay_start [OF assms],
      auto intro!: okay_rules split: option.split; meson later_alive find_by_name_alive)+

lemma conflict_body_okay [okay_rules]:
  "later s0 s \<Longrightarrow> alive s i \<Longrightarrow> okay snd s0 (conflict_body i n s)"
  by (auto simp: conflict_body_def intro!: okay_rules split: option.split)

lemma file_bodies_okay [okay_rules]:
  assumes "later s0 s"
  shows "okay snd s0 (wait_file_body E file s)" "alive s i \<Longrightarrow> okay snd s0 (require_file_body E i st file s)"
  using assms by (auto simp: wait_file_body_def require_file_body_def intro!: okay_rules)

lemma last_body_okay [okay_rules]:
  "later s0 s \<Longrightarrow> alive s i \<Longrightarrow> alive s j \<Longrightarrow> okay snd s0 (last_body E i j s)"
  by (auto simp: last_body_def intro!: okay_rules)

lemma unneeded_okay [okay_rules]:
  assumes "later s0 s"
  shows "okay snd s0 (cmd_stop_unneeded E s)"
proof -
  have "okay snd s0 (stop_unneeded_service E ty i s)" if "later s0 s" "alive s i" for s0 s i ty
    by (rule okay_start [OF that(1)])
      (use that(2) in \<open>auto simp: stop_unneeded_service_def needed_body_def intro!: okay_rules; meson later_alive\<close>)
  with assms show ?thesis by (auto simp: cmd_stop_unneeded_def intro!: okay_rules)
qed

lemma state_hooks_okay:
  assumes "later s0 s" "ev_alive s ev"
  shows "okay snd s0 (also_service_state E ev s)" "okay snd s0 (check_conflict E ev s)"
    "okay snd s0 (status_change ev s)" "okay snd s0 (provide_service_state E ev s)"
  unfolding also_service_state_def check_conflict_def status_change_def provide_service_state_def Let_def
  by (rule okay_start [OF assms(1)],
      use event_service_alive [OF assms(2)] in
      \<open>auto intro!: okay_rules split: e_is.split; meson later_alive\<close>)+

lemma dependency_hooks_okay:
  assumes "later s0 s" "ev_alive s ev"
  shows "okay snd s0 (check_last E ev s)" "okay snd s0 (check_syncronicly_service ev s)"
    "okay snd s0 (check_syncronicly ev s)" "okay snd s0 (check_files_to_exist E ev s)"
    "okay snd s0 (check_files_to_exist_after E ev s)" "okay snd s0 (interactive_ask E verb t ev s)"
  unfolding check_last_def check_syncronicly_service_def check_syncronicly_def check_files_to_exist_def
    check_files_to_exist_after_def interactive_ask_def interactive_off_def Let_def
  by (rule okay_start [OF assms(1)],
      use event_service_alive [OF assms(2)] in
      \<open>auto intro!: okay_rules split: option.split; meson later_alive\<close>)+

lemma other_hooks_okay:
  assumes "later s0 s" "ev_alive s ev"
  shows "okay snd s0 (on_kill E ev s)" "okay snd s0 (ctrlaltdel E ev s)"
  using assms by (auto simp: on_kill_def ctrlaltdel_def ev_alive_def intro!: okay_rules split: event_data.split)

end

section \<open>Launching\<close>

lemma later_pids [okay_rules]:
  assumes "later s0 s"
  shows "later s0 (upd_process i pa (\<lambda>p. p\<lparr>p_pid := n\<rparr>) s)"
    "later s0 (upd_process i pa (\<lambda>p. p\<lparr>p_pipes := g (p_pipes p)\<rparr>) s)"
  using assms by (auto intro!: later_upd_process)

lemma fix_variable_okay:
  assumes s: "later s0 s" and c: "string_entry ty vn i s = Some c" "ent_type ty = VARIABLE_STRING" "ent_alias ty = None"
  shows "okay snd s0 (fix_variable c i s)"
proof -
  have ty: "alias_walk ty = ty" using c(3) by (cases ty) simp
  have "later s0 (upd_data i (data_update (d_addr c) (\<lambda>c. c\<lparr>d_t := U_s t\<rparr>)) s)" for t
  proof -
    let ?g = "data_update (d_addr c) (\<lambda>c. c\<lparr>d_t := U_s t\<rparr>)"
    let ?h = "\<lambda>d. if d = a_data (svc s i) then ?g d else d"
    from c(1) have "initng_data_get_next_var (Some ty) (Some vn) (a_data (svc s i)) None = Some c"
      by (auto simp: string_entry_def split: option.splits if_splits)
    with wf_set_found ty c(2) have "data_wf (a_data (svc s i)) \<Longrightarrow> data_wf (?g (a_data (svc s i)))"
      by (fastforce simp: payload_ok_def IT_def)
    then have "later s0 (upd_data i ?h s)"
      by (intro later_upd_data_in_place [OF s]) (auto, metis imageI)
    moreover have "upd_data i ?h s = upd_data i ?g s" by (simp add: upd_data_def upd_svc_def)
    ultimately show ?thesis by simp
  qed
  then show ?thesis by (auto simp: fix_variable_def s intro!: okay_rules)
qed

lemma close_remote_okay [okay_rules]: "later s0 s \<Longrightarrow> okay id s0 (pipes_close_remote_side i pa s)"
  by (auto simp: pipes_close_remote_side_def intro!: okay_rules)

lemma fork_okay [okay_rules]: "later s0 s \<Longrightarrow> okay snd s0 (initng_fork E i pa s)"
  by (auto simp: initng_fork_def Let_def intro!: okay_rules)

lemma exec_fork_okay [okay_rules]: "later s0 s \<Longrightarrow> okay snd s0 (simple_exec_fork E pa i argv s)"
  by (auto simp: simple_exec_fork_def intro!: okay_rules)

lemma exec_types:
  "ent_type EXEC = VARIABLE_STRING" "ent_alias EXEC = None"
  "ent_type EXEC_ARGS = VARIABLE_STRING" "ent_alias EXEC_ARGS = None"
  by (simp_all add: EXEC_def EXEC_ARGS_def)

lemmas fix_exec_okay =
  fix_variable_okay [where ty = EXEC, OF _ _ exec_types(1,2)]
  fix_variable_okay [where ty = EXEC_ARGS, OF _ _ exec_types(3,4)]

lemma exec_okay [okay_rules]:
  assumes "later s0 s"
  shows "okay snd s0 (simple_exec E i pa s)" "okay snd s0 (simple_run E i pa s)"
proof -
  have tried: "okay snd s0 (simple_exec_try E c i pa s)" if "later s0 s" for c s
    using that by (auto simp: simple_exec_try_def intro!: okay_rules fix_exec_okay(2) split: option.split)
  have "okay snd s0 (simple_exec_loop E k i pa pt itt s)" if "later s0 s" for k pt itt s
    using that by (induction k arbitrary: itt s) (auto intro!: okay_rules tried split: option.split)
  with assms show "okay snd s0 (simple_exec E i pa s)"
    by (auto simp: simple_exec_def intro!: okay_rules)
  show "okay snd s0 (simple_run E i pa s)"
    using assms by (auto simp: simple_run_def intro!: okay_rules fix_exec_okay(1) split: option.split list.split)
qed

lemma launch_hook_okay: "later s0 s \<Longrightarrow> okay snd s0 (initng_s_launch E ev s)"
  by (auto simp: initng_s_launch_def intro!: okay_rules split: event_data.split)

end
