(* ===== verification/Service_File.thy ===== *)
theory Service_File
  imports Launcher
begin

text \<open>
  The module service_file, which reads the files of /etc/initng. A request for a service that is
  not loaded starts the file as a child process with a socket on descriptor 3; the child describes
  the service in requests over that socket, the module answers them. The strings of a request are
  terminated by the sender. The parts of the file under GLOBAL_SOCKET, which no header defines, are
  not compiled and not modelled.
\<close>

section \<open>States and types\<close>

definition PARSING :: a_state_h where "PARSING = plain_state ''PARSING'' IS_NEW"

definition PARSING_FOR_START :: a_state_h where "PARSING_FOR_START = plain_state ''PARSING_FOR_START'' IS_NEW"

definition NOT_RUNNING :: a_state_h where "NOT_RUNNING = plain_state ''NOT_RUNNING'' IS_DOWN"

definition REDY_FOR_START :: a_state_h where "REDY_FOR_START = plain_state ''REDY_TO_START'' IS_DOWN"

definition PARSE_FAIL :: a_state_h where "PARSE_FAIL = plain_state ''PARSE_FAIL'' IS_FAILED"

definition parse :: ptype_h where
  "parse = \<lparr>pt_name = ''parse-process'', pt_kill_handler = Some ''service_file_handle_killed''\<rparr>"

definition unset :: stype_h where
  "unset = \<lparr>sty_name = ''unset'', sty_hidden = False, sty_start = None, sty_stop = None, sty_restart = None\<rparr>"

lemmas parse_states = PARSING_def PARSING_FOR_START_def NOT_RUNNING_def REDY_FOR_START_def PARSE_FAIL_def

definition in_parsing :: "sys \<Rightarrow> sid \<Rightarrow> bool" where
  "in_parsing s i \<longleftrightarrow> IS_MARK s i PARSING \<or> IS_MARK s i PARSING_FOR_START"

section \<open>Writing variables\<close>

text \<open>A setter of src/main/data on the variables of a service; a new entry gets the next free
  address.\<close>

definition svc_setter :: "(nat \<Rightarrow> data_head \<Rightarrow> data_head) \<Rightarrow> sid \<Rightarrow> sys \<Rightarrow> sys" where
  "svc_setter f i s = bump_addr (upd_data i (f (g_next_addr s)) s)"

definition svc_set_string_var :: "s_entry \<Rightarrow> string option \<Rightarrow> string \<Rightarrow> sid \<Rightarrow> sys \<Rightarrow> sys" where
  "svc_set_string_var ty vn v = svc_setter (\<lambda>a d. initng_data_set_string_var a (Some ty) vn d v)"

definition svc_set_another_string_var :: "s_entry \<Rightarrow> string option \<Rightarrow> string \<Rightarrow> sid \<Rightarrow> sys \<Rightarrow> sys" where
  "svc_set_another_string_var ty vn v = svc_setter (\<lambda>a d. initng_data_set_another_string_var a (Some ty) vn d v)"

definition svc_set_var :: "s_entry \<Rightarrow> string option \<Rightarrow> sid \<Rightarrow> sys \<Rightarrow> sys" where
  "svc_set_var ty vn = svc_setter (\<lambda>a. initng_data_set_var a (Some ty) vn)"

definition svc_set_int_var :: "s_entry \<Rightarrow> string option \<Rightarrow> int \<Rightarrow> sid \<Rightarrow> sys \<Rightarrow> sys" where
  "svc_set_int_var ty vn v = svc_setter (\<lambda>a d. initng_data_set_int_var a (Some ty) vn d v)"

section \<open>Requests\<close>

text \<open>The reply: its success flag and its message, zero and empty before the request is handled.\<close>

record bp_rep =
  rep_success :: int
  rep_message :: string

definition no_reply :: bp_rep where "no_reply = \<lparr>rep_success = 0, rep_message = []\<rparr>"

definition refuse :: "string \<Rightarrow> bp_rep" where "refuse msg = \<lparr>rep_success = FALSE, rep_message = msg\<rparr>"

definition accept :: bp_rep where "accept = \<lparr>rep_success = TRUE, rep_message = []\<rparr>"

definition BP_REP_MAXLEN :: nat where "BP_REP_MAXLEN = 1024"

definition bp_new_active :: "string \<Rightarrow> string \<Rightarrow> string \<Rightarrow> sys \<Rightarrow> bp_rep \<times> sys" where
  "bp_new_active type service from_file s =
     (case initng_service_type_get_by_name type s of
        None \<Rightarrow> (refuse (''Unable to find service type '' @ [CHR 0x22] @ take 500 type @ [CHR 0x22] @ '' .''), s)
      | Some stype \<Rightarrow>
          (case initng_active_db_find_by_name service s of
             Some i \<Rightarrow>
               (if \<not> IS_MARK s i PARSING_FOR_START then (refuse ''Duplet found.'', s)
                else (accept, upd_svc i (\<lambda>a. a\<lparr>a_type := Some stype\<rparr>) (svc_set_string_var FROM_FILE None from_file i s)))
           | None \<Rightarrow>
               (let (i, s) = initng_active_db_new service s;
                    s = upd_svc i (\<lambda>a. a\<lparr>a_current_state := PARSING\<rparr>) s;
                    (r, s) = initng_active_db_register i s
                in if r = FALSE then (no_reply, initng_active_db_free i s)
                   else (accept, upd_svc i (\<lambda>a. a\<lparr>a_type := Some stype\<rparr>)
                           (svc_set_string_var FROM_FILE None from_file i s)))))"

text \<open>The loop over the words of a value.\<close>

lemma dup_next_word_shorter:
  assumes "initng_string_dup_next_word v = (Some w, r)"
  shows "length r < length v"
proof -
  have j: "length (jump_spaces v) \<le> length v"
    by (simp add: jump_spaces_def length_dropWhile_le)
  have u: "length r \<le> length s" if "dup_until q s = (Some w, r)" for q s
    using that by (auto simp: dup_until_def Let_def split: if_splits)
  have p: "length r < length s" if "dup_plain q s = (Some w, r)" for q s
    using that by (cases s) (auto simp: dup_plain_def Let_def strcspn_def split: if_splits)
  show ?thesis
  proof (cases "jump_spaces v")
    case Nil
    with assms show ?thesis by (simp add: initng_string_dup_next_word_def)
  next
    case (Cons c cs)
    with assms j u [of _ cs] p [of _ "c # cs"] show ?thesis
      by (auto simp: initng_string_dup_next_word_def Let_def split: if_splits; fastforce)
  qed
qed

function words_of :: "string \<Rightarrow> string list" where
  "words_of v = (case initng_string_dup_next_word v of (None, _) \<Rightarrow> [] | (Some w, r) \<Rightarrow> w # words_of r)"
  by pat_completeness auto
termination by (relation "measure length") (auto intro: dup_next_word_shorter [OF sym])

declare words_of.simps [simp del]

definition bp_set_variable :: "string \<Rightarrow> string \<Rightarrow> string \<Rightarrow> string \<Rightarrow> sys \<Rightarrow> bp_rep \<times> sys" where
  "bp_set_variable service vartype varname value s =
     (let vn = (if varname = [] then None else Some varname) in
      if service = [] then (refuse ''Service missing.'', s)
      else if vartype = [] then (refuse ''Vartype missing.'', s)
      else case initng_active_db_find_by_name service s of
        None \<Rightarrow> (refuse (take 1023 (service @ '': service not found'')), s)
      | Some i \<Rightarrow>
          (if \<not> in_parsing s i then (refuse ''Please dont edit finished services.'', s)
           else case initng_service_data_type_find vartype s of
             None \<Rightarrow> (refuse (take 1023 (vartype @ '': variable entry not found'')), s)
           | Some ty \<Rightarrow>
               (if value = [] \<and> ent_type ty \<noteq> SET \<and> ent_type ty \<noteq> VARIABLE_SET then (refuse ''Value missing.'', s)
                else if ent_type ty \<in> {STRING, VARIABLE_STRING} then (accept, svc_set_string_var ty vn value i s)
                else if ent_type ty \<in> {STRINGS, VARIABLE_STRINGS} then
                  (accept, fold (\<lambda>w. svc_set_another_string_var ty vn w i) (words_of value) s)
                else if ent_type ty \<in> {SET, VARIABLE_SET} then (accept, svc_set_var ty vn i s)
                else if ent_type ty \<in> {INT_T, VARIABLE_INT} then (accept, svc_set_int_var ty vn (atoi value) i s)
                else (refuse ''Unknown data type.'', s))))"

text \<open>
  The loop over the strings of a variable: each string is copied to the place \<open>p\<close>, which moves on by
  one blank a round and not by the length of the string, and the loop ends when exactly the length
  of the buffer has been counted. A missing string is read through NULL. Every round but the last
  makes \<open>rem\<close> smaller, so the length of the buffer bounds the rounds.
\<close>

definition overlay :: "nat \<Rightarrow> string \<Rightarrow> string \<Rightarrow> string" where
  "overlay p w buf = take p buf @ w @ drop (p + length w) buf"

fun get_strings :: "nat \<Rightarrow> s_entry \<Rightarrow> string option \<Rightarrow> data_head \<Rightarrow> nat option \<Rightarrow> nat \<Rightarrow> nat \<Rightarrow> string \<Rightarrow> string option" where
  "get_strings 0 ty vn d itt p rem buf = None"
| "get_strings (Suc k) ty vn d itt p rem buf =
     (case initng_data_get_next_string_var (Some ty) vn d itt of
        (None, _) \<Rightarrow> None
      | (Some tmp, itt) \<Rightarrow>
          (let len = min (length tmp) rem;
               buf = overlay p (take len tmp) buf
           in if rem - len = 0 then Some buf
              else get_strings k ty vn d itt (p + 1) (rem - len - 1) (overlay p '' '' buf)))"

fun digits_of :: "nat \<Rightarrow> nat \<Rightarrow> string" where
  "digits_of 0 n = []"
| "digits_of (Suc k) n = (if n < 10 then [] else digits_of k (n div 10)) @ [char_of (48 + n mod 10)]"

definition show_int :: "int \<Rightarrow> string" where
  "show_int v = (if v < 0 then CHR ''-'' # digits_of 11 (nat (- v)) else digits_of 11 (nat v))"

definition bp_get_variable :: "string \<Rightarrow> string \<Rightarrow> string \<Rightarrow> sys \<Rightarrow> bp_rep option" where
  "bp_get_variable service vartype varname s =
     (let vn = (if varname = [] then None else Some varname) in
      if service = [] \<or> vartype = [] then Some (refuse ''Variables missing.'')
      else case initng_active_db_find_by_name service s of
        None \<Rightarrow> Some (refuse (take 1023 (service @ '': service not found'')))
      | Some i \<Rightarrow>
          (case initng_service_data_type_find vartype s of
             None \<Rightarrow> Some (refuse ''Variable entry not found.'')
           | Some ty \<Rightarrow>
               (let d = a_data (svc s i) in
                if ent_type ty \<in> {STRING, VARIABLE_STRING} then do {
                  v \<leftarrow> initng_data_get_string_var (Some ty) vn d;
                  Some (accept\<lparr>rep_message := take 1024 v\<rparr>) }
                else if ent_type ty \<in> {STRINGS, VARIABLE_STRINGS} then do {
                  msg \<leftarrow> get_strings (BP_REP_MAXLEN + 1) ty vn d None 0 BP_REP_MAXLEN [];
                  Some (accept\<lparr>rep_message := msg\<rparr>) }
                else if ent_type ty \<in> {SET, VARIABLE_SET} then
                  Some (if initng_data_is_var (Some ty) vn d then accept else refuse [])
                else if ent_type ty \<in> {INT_T, VARIABLE_INT} then
                  Some (accept\<lparr>rep_message := show_int (initng_data_get_int_var (Some ty) vn d)\<rparr>)
                else Some (refuse ''Unknown data type.''))))"

definition bp_done :: "env \<Rightarrow> string \<Rightarrow> sys \<Rightarrow> (bp_rep \<times> sys) option" where
  "bp_done E service s =
     (let not_parsing = ''Service is not in PARSING state, can not start.'' in
      case initng_active_db_find_by_name service s of
        None \<Rightarrow> Some (refuse ''Service not found.'', s)
      | Some i \<Rightarrow>
          (if a_type (svc s i) = None \<or> a_type (svc s i) = Some unset
           then Some (refuse (''Type not set, please run iregister type service'' @ [CHR 0x0A]), s)
           else if IS_MARK s i PARSING_FOR_START then
             (let (r, s) = initng_common_mark_service i REDY_FOR_START s in
              if r \<noteq> FALSE then do {
                (r, s) \<leftarrow> start_service E i s;
                Some (no_reply\<lparr>rep_success := r\<rparr>, s) }
              else Some (refuse not_parsing, s))
           else if IS_MARK s i PARSING then
             (let (r, s) = initng_common_mark_service i NOT_RUNNING s in Some (no_reply\<lparr>rep_success := r\<rparr>, s))
           else Some (refuse not_parsing, s)))"

definition bp_abort :: "string \<Rightarrow> sys \<Rightarrow> bp_rep" where
  "bp_abort service s =
     (case initng_active_db_find_by_name service s of
        None \<Rightarrow> refuse ''Service not found.''
      | Some i \<Rightarrow> if \<not> in_parsing s i then refuse ''Service is not in PARSING state, cant start.'' else accept)"

definition SERVICE_FILE_VERSION :: int where "SERVICE_FILE_VERSION = 1"

text \<open>The reply to a request of the right version.\<close>

definition bp_answer :: "env \<Rightarrow> bp_req \<Rightarrow> sys \<Rightarrow> (bp_rep \<times> sys) option" where
  "bp_answer E req s =
     (case bp_request req of
        NEW_ACTIVE type from_file \<Rightarrow> Some (bp_new_active type (bp_service req) from_file s)
      | SET_VARIABLE vartype varname value \<Rightarrow> Some (bp_set_variable (bp_service req) vartype varname value s)
      | GET_VARIABLE vartype varname \<Rightarrow> do { rep \<leftarrow> bp_get_variable (bp_service req) vartype varname s; Some (rep, s) }
      | DONE \<Rightarrow> bp_done E (bp_service req) s
      | ABORT \<Rightarrow> Some (bp_abort (bp_service req) s, s)
      | UNSET_INVALID \<Rightarrow> Some (no_reply, s))"

definition bp_send :: "int \<Rightarrow> bp_rep \<Rightarrow> sys \<Rightarrow> sys" where
  "bp_send fd rep s = add_effects [Eff_send fd (rep_success rep) (rep_message rep)] s"

definition bp_handle_client :: "env \<Rightarrow> int \<Rightarrow> sys \<Rightarrow> sys option" where
  "bp_handle_client E fd s =
     (case e_recv E fd s of
        Recv_closed \<Rightarrow> Some (add_effects [Eff_close fd] s)
      | Recv_short \<Rightarrow> Some (bp_send fd (refuse ''Unable to read request'') s)
      | Recv_req req \<Rightarrow>
          (if bp_version req \<noteq> SERVICE_FILE_VERSION then Some (bp_send fd (refuse ''Bad protocol version'') s)
           else do { (rep, s) \<leftarrow> bp_answer E req s; Some (bp_send fd rep s) }))"

section \<open>The child process\<close>

definition service_file_handle_killed :: "env \<Rightarrow> sid \<Rightarrow> nat \<Rightarrow> sys \<Rightarrow> sys option" where
  "service_file_handle_killed E i pa s = do {
     p \<leftarrow> process_at i pa s;
     (if WEXITSTATUS (p_r_code p) \<noteq> 0 \<or> a_type (svc s i) = Some unset
      then Some (initng_process_db_free i pa (mark i PARSE_FAIL s))
      else do {
        (r, s) \<leftarrow> start_service E i (initng_process_db_free i pa s);
        Some s }) }"

definition S_ISREG :: "32 word \<Rightarrow> bool" where "S_ISREG mode \<longleftrightarrow> and mode 61440 = 32768"

definition S_IXUSR :: "32 word" where "S_IXUSR = 64"

text \<open>The name of the service comes with the event; the result tells whether the file was one to
  run, and which service stands for it.\<close>

definition parse_new_service_file :: "env \<Rightarrow> string \<Rightarrow> string \<Rightarrow> sys \<Rightarrow> (sid option \<times> sys) option" where
  "parse_new_service_file E name path s =
     (case e_stat E path s of
        None \<Rightarrow> Some (None, s)
      | Some mode \<Rightarrow>
          (if \<not> S_ISREG mode \<or> and mode S_IXUSR = 0 then Some (None, s)
           else
             (let (i, s) = initng_active_db_new name s;
                  s = upd_svc i (\<lambda>a. a\<lparr>a_current_state := PARSING_FOR_START, a_type := Some unset\<rparr>) s;
                  (r, s) = initng_active_db_register i s
              in if r = FALSE then Some (None, initng_active_db_free i s)
                 else
                   (let (process, s) = initng_process_db_new parse s;
                        pipe = (initng_process_db_pipe_new IN_AND_OUT_PIPE)\<lparr>pipe_targets := [3]\<rparr>;
                        s = add_process (process\<lparr>p_pipes := list_add pipe (p_pipes process)\<rparr>) i s in do {
                      (pid, s) \<leftarrow> initng_fork E i (p_addr process) s;
                      Some (Some i, if 0 < pid then add_effects [Eff_exec path [path, ''internal_setup'']] s else s) }))))"

definition INITNG_ROOT :: string where "INITNG_ROOT = ''/etc/initng''"

text \<open>The three files that may describe a service, in the order they are tried.\<close>

definition service_paths :: "string \<Rightarrow> string list" where
  "service_paths name =
     (let path = INITNG_ROOT @ ''/'' @ name
      in [path, path @ ''/this'', initng_string_dirname path @ ''/any''])"

fun parse_first :: "env \<Rightarrow> string \<Rightarrow> string list \<Rightarrow> sys \<Rightarrow> (sid option \<times> sys) option" where
  "parse_first E name [] s = Some (None, s)"
| "parse_first E name (path # paths) s = do {
     (found, s) \<leftarrow> parse_new_service_file E name path s;
     (if found \<noteq> None then Some (found, s) else parse_first E name paths s) }"

definition create_new_active :: "env \<Rightarrow> s_event \<Rightarrow> sys \<Rightarrow> (s_event \<times> sys) option" where
  "create_new_active E ev s =
     (case ev_data ev of
        ED_name name \<Rightarrow>
          (if ev_type ev \<noteq> EVENT_NEW_ACTIVE then None
           else if initng_string_basename name = ''this'' \<or> initng_string_basename name = ''any'' then Some (ev, s)
           else do {
             (found, s) \<leftarrow> parse_first E name (service_paths name) s;
             Some (if found \<noteq> None then ev\<lparr>ev_ret := found, ev_status := HANDLED\<rparr> else ev, s) })
      | _ \<Rightarrow> None)"

definition get_pipe :: "env \<Rightarrow> s_event \<Rightarrow> sys \<Rightarrow> (s_event \<times> sys) option" where
  "get_pipe E ev s =
     (case ev_data ev of
        ED_pipe i pa n \<Rightarrow>
          (if ev_type ev \<noteq> EVENT_PIPE_WATCHER then None
           else do {
             q \<leftarrow> pipe_at i pa n s;
             (if pipe_dir q \<noteq> IN_AND_OUT_PIPE then Some (ev, s)
              else if take 1 (pipe_targets q) \<noteq> [3] then Some (ev, s)
              else do {
                s \<leftarrow> bp_handle_client E (snd (pipe_fd q)) s;
                Some (ev\<lparr>ev_status := HANDLED\<rparr>, s) }) })
      | _ \<Rightarrow> None)"

definition service_file_module_init :: "sys \<Rightarrow> int \<times> sys" where
  "service_file_module_init s =
     (TRUE, register_states [REDY_FOR_START, NOT_RUNNING, PARSING, PARSE_FAIL]
        (hook ''initng_service_file.c'' EVENT_PIPE_WATCHER ''get_pipe''
          (hook ''initng_service_file.c'' EVENT_NEW_ACTIVE ''create_new_active''
            (initng_process_db_ptype_register parse s))))"

definition service_file_module_unload :: "sys \<Rightarrow> sys" where
  "service_file_module_unload s =
     unregister_states [REDY_FOR_START, NOT_RUNNING, PARSING, PARSE_FAIL]
       (initng_event_hook_unregister EVENT_PIPE_WATCHER ''get_pipe''
         (initng_event_hook_unregister EVENT_NEW_ACTIVE ''create_new_active''
           (initng_process_db_ptype_unregister parse s)))"

section \<open>Requests and finished services\<close>

text \<open>The requests that describe a service only write to the service they name, and only while it is
  being parsed.\<close>

lemma svc_setter_other: "j \<noteq> i \<Longrightarrow> svc (svc_setter f i s) j = svc s j"
  by (simp add: svc_setter_def bump_addr_def upd_data_def)

lemma svc_setters_other:
  assumes "j \<noteq> i"
  shows "svc (svc_set_string_var ty vn v i s) j = svc s j" "svc (svc_set_var ty vn i s) j = svc s j"
    "svc (svc_set_int_var ty vn n i s) j = svc s j"
    "svc (fold (\<lambda>w. svc_set_another_string_var ty vn w i) ws s) j = svc s j"
proof -
  show "svc (fold (\<lambda>w. svc_set_another_string_var ty vn w i) ws s) j = svc s j"
    by (induction ws arbitrary: s) (simp_all add: svc_set_another_string_var_def svc_setter_other assms)
qed (simp_all add: svc_set_string_var_def svc_set_var_def svc_set_int_var_def svc_setter_other assms)

lemma svc_setters_db [simp]:
  "g_active_db (svc_set_string_var ty vn v i s) = g_active_db s" "g_active_db (svc_set_var ty vn i s) = g_active_db s"
  "g_active_db (svc_set_int_var ty vn n i s) = g_active_db s"
  "g_active_db (fold (\<lambda>w. svc_set_another_string_var ty vn w i) ws s) = g_active_db s"
proof -
  have "g_active_db (svc_setter f i s) = g_active_db s" for f s
    by (simp add: svc_setter_def bump_addr_def upd_data_def)
  note * = this
  show "g_active_db (fold (\<lambda>w. svc_set_another_string_var ty vn w i) ws s) = g_active_db s"
    by (induction ws arbitrary: s) (simp_all add: svc_set_another_string_var_def *)
  show "g_active_db (svc_set_string_var ty vn v i s) = g_active_db s" "g_active_db (svc_set_var ty vn i s) = g_active_db s"
    "g_active_db (svc_set_int_var ty vn n i s) = g_active_db s"
    by (simp_all add: svc_set_string_var_def svc_set_var_def svc_set_int_var_def *)
qed

lemma new_active_other:
  assumes s: "db_wf s" and j: "j \<in> set (g_active_db s)" "\<not> in_parsing s j"
  shows "svc (snd (bp_new_active type n from_file s)) j = svc s j \<and> j \<in> set (g_active_db (snd (bp_new_active type n from_file s)))"
proof (cases "initng_active_db_find_by_name n s")
  case (Some i)
  with j show ?thesis
    by (cases "i = j") (auto simp: bp_new_active_def in_parsing_def svc_setters_other split: option.splits)
next
  case None
  let ?u = "upd_svc (g_next_sid s) (\<lambda>a. a\<lparr>a_current_state := PARSING\<rparr>) (snd (initng_active_db_new n s))"
  have ne: "j \<noteq> g_next_sid s" using s j(1) by (auto simp: db_wf_def)
  have "initng_active_db_find_by_name n ?u = None"
  proof (rule ccontr)
    assume "initng_active_db_find_by_name n ?u \<noteq> None"
    then obtain k where "k \<in> set (g_active_db s)" "a_name (svc ?u k) = n"
      using find_by_name_Some [of n ?u] by (auto simp: initng_active_db_new_def Let_def)
    moreover from this(1) s have "k \<noteq> g_next_sid s" by (auto simp: db_wf_def)
    ultimately show False
      using None find_by_name_None [OF s] by (auto simp: initng_active_db_new_def Let_def)
  qed
  then have "initng_active_db_register (g_next_sid s) ?u = (TRUE, ?u\<lparr>g_active_db := list_add (g_next_sid s) (g_active_db ?u)\<rparr>)"
    by (simp add: initng_active_db_register_def initng_active_db_new_def Let_def)
  moreover have "svc ?u j = svc s j" "g_active_db ?u = g_active_db s" "fst (initng_active_db_new n s) = g_next_sid s"
    using ne by (simp_all add: initng_active_db_new_def Let_def)
  ultimately show ?thesis using None ne j(1)
    by (auto simp: bp_new_active_def case_prod_unfold Let_def svc_setters_other list_add_def split: option.split)
qed

lemma set_variable_other:
  assumes j: "j \<in> set (g_active_db s)" "\<not> in_parsing s j"
  shows "svc (snd (bp_set_variable n vartype varname v s)) j = svc s j
    \<and> j \<in> set (g_active_db (snd (bp_set_variable n vartype varname v s)))"
proof -
  have "j \<noteq> i" if "in_parsing s i" for i using that j(2) by auto
  with j(1) show ?thesis
    by (auto simp: bp_set_variable_def Let_def svc_setters_other split: option.split)
qed

section \<open>Properties\<close>

text \<open>C5: whatever the script of a service file sends, it cannot touch a finished service. Of all the
  requests but the last one, which starts the service, none changes a service of the database that is
  not being parsed, nor takes it out of the database: not its variables, its type, its state or its
  processes. This holds for requests of another version, unknown requests and broken messages too.\<close>

theorem finished_services_untouched:
  assumes "db_wf s" and "\<And>req. e_recv E fd s = Recv_req req \<Longrightarrow> bp_request req \<noteq> DONE"
    and "bp_handle_client E fd s = Some t" and "i \<in> set (g_active_db s)" and "\<not> in_parsing s i"
  shows "svc t i = svc s i \<and> i \<in> set (g_active_db t)"
proof (cases "e_recv E fd s")
  case (Recv_req req)
  then show ?thesis
    using assms(2) [OF Recv_req] assms(3,4) new_active_other [OF assms(1,4,5)] set_variable_other [OF assms(4,5)]
    by (cases "bp_request req")
      (auto simp: bp_handle_client_def bp_answer_def bp_send_def add_effects_def case_prod_unfold split: if_splits bind_splits)
qed (use assms in \<open>auto simp: bp_handle_client_def bp_send_def add_effects_def\<close>)

theorem finished_services_untouched_witness:
  "let s = tiny_sys [tiny_service ''a'' NEW [], tiny_service ''b'' PARSING []];
     E = (bare_env 20)\<lparr>e_recv := (\<lambda>_ _. Recv_req \<lparr>bp_version = 1, bp_request = SET_VARIABLE ''need'' [] ''b'', bp_service = ''a''\<rparr>)\<rparr>
   in \<exists>t. bp_handle_client E 3 s = Some t \<and> svc t 0 = svc s 0"
proof -
  define s where "s = tiny_sys [tiny_service ''a'' NEW [], tiny_service ''b'' PARSING []]"
  define E where "E = (bare_env 20)\<lparr>e_recv := (\<lambda>_ _. Recv_req \<lparr>bp_version = 1, bp_request = SET_VARIABLE ''need'' [] ''b'', bp_service = ''a''\<rparr>)\<rparr>"
  have "\<exists>t. bp_handle_client E 3 s = Some t"
    by (simp add: bp_handle_client_def E_def bp_answer_def case_prod_unfold)
  then obtain t where t: "bp_handle_client E 3 s = Some t" ..
  have "db_wf s"
    using tiny_system_wf [of "[(''a'', NEW, []), (''b'', PARSING, [])]"] by (simp add: s_def)
  moreover have "0 \<in> set (g_active_db s)" "\<not> in_parsing s 0"
    by (simp_all add: s_def in_parsing_def IS_MARK_def tiny_service_def NEW_def parse_states plain_state_def)
  ultimately have "svc t 0 = svc s 0"
    using finished_services_untouched [of s E 3 t 0] t by (simp add: E_def)
  with t show ?thesis unfolding Let_def s_def [symmetric] E_def [symmetric] by blast
qed

end
