(* ===== verification/Stcmd.thy ===== *)
theory Stcmd
  imports Service_File
begin

text \<open>
  The module stcmd: the commands a client can give to the running program. A command gets its
  argument, NULL if the client gave none, and returns a number or a text. The command structures
  and their registration are those of the module; \<open>cmd_signal\<close> is never registered and left out.
\<close>

section \<open>Commands on services\<close>

definition cmd_get_pid_of :: "string option \<Rightarrow> sys \<Rightarrow> int" where
  "cmd_get_pid_of arg s =
     (case arg of
        None \<Rightarrow> -2
      | Some n \<Rightarrow>
          (case initng_active_db_find_by_name n s of
             None \<Rightarrow> -1
           | Some apt \<Rightarrow> (case rev (a_processes (svc s apt)) of [] \<Rightarrow> -3 | p # ps \<Rightarrow> p_pid p)))"

definition cmd_start_on_new :: "env \<Rightarrow> string option \<Rightarrow> sys \<Rightarrow> (int \<times> sys) option" where
  "cmd_start_on_new E arg s =
     (case arg of
        None \<Rightarrow> Some (FALSE, s)
      | Some runlevel \<Rightarrow> do {
          s \<leftarrow> initng_main_set_runlevel E runlevel (s\<lparr>g_when_out := THEN_RESTART\<rparr>);
          (r, s) \<leftarrow> initng_handler_stop_all E s;
          Some (TRUE, s) })"

text \<open>Without a service of that name, every failed service is freed. The loop state is the return
  value and the program state.\<close>

definition zap_body :: "sid \<Rightarrow> int \<times> sys \<Rightarrow> (unit option \<times> (int \<times> sys)) option" where
  "zap_body apt x =
     (if GET_STATE (snd x) apt = IS_FAILED then Some (None, (TRUE, initng_active_db_free apt (snd x)))
      else Some (None, x))"

definition cmd_free_service :: "string option \<Rightarrow> sys \<Rightarrow> (int \<times> sys) option" where
  "cmd_free_service arg s =
     (case (case arg of None \<Rightarrow> None | Some n \<Rightarrow> initng_active_db_find_by_name n s) of
        Some apt \<Rightarrow> Some (TRUE, initng_active_db_free apt s)
      | None \<Rightarrow> map_option snd (while_list_safe (\<lambda>x. g_active_db (snd x)) zap_body
          (Suc (length (g_active_db s))) (FALSE, s)))"

definition cmd_restart :: "env \<Rightarrow> string option \<Rightarrow> sys \<Rightarrow> (int \<times> sys) option" where
  "cmd_restart E arg s =
     (case arg of
        None \<Rightarrow> Some (FALSE, s)
      | Some n \<Rightarrow>
          (case initng_active_db_find_by_name n s of
             None \<Rightarrow> Some (FALSE, s)
           | Some apt \<Rightarrow> initng_handler_restart_service E (e_fuel E) apt s))"

text \<open>The difference of two times in milliseconds, in the arithmetic of int.\<close>

definition ms_of :: "timeval \<Rightarrow> 32 word" where
  "ms_of t = word_of_int (tv_sec t * 1000 + c_div (tv_usec t) 1000)"

definition MS_DIFF :: "timeval \<Rightarrow> timeval \<Rightarrow> int" where
  "MS_DIFF a b = sint (ms_of a - ms_of b)"

definition cmd_print_uptime :: "string option \<Rightarrow> sys \<Rightarrow> string" where
  "cmd_print_uptime arg s =
     (case arg of
        None \<Rightarrow> ''Please tell me what service to get up-time from.''
      | Some n \<Rightarrow>
          (case initng_active_db_find_by_name n s of
             None \<Rightarrow> ''Service '' @ [CHR 0x22] @ n @ [CHR 0x22] @ '' is not found!''
           | Some apt \<Rightarrow>
               ''Up-time is '' @ show_int (MS_DIFF (g_clock s) (a_time_current_state (svc s apt))) @ ''ms.'' @ [CHR 0x0A]))"

section \<open>Commands on the system\<close>

definition stop_then :: "env \<Rightarrow> h_then \<Rightarrow> sys \<Rightarrow> (int \<times> sys) option" where
  "stop_then E t s = do {
     (r, s) \<leftarrow> initng_handler_stop_all E (s\<lparr>g_when_out := t\<rparr>);
     Some (TRUE, s) }"

definition cmd_initng_reboot :: "env \<Rightarrow> sys \<Rightarrow> (int \<times> sys) option" where
  "cmd_initng_reboot E = stop_then E THEN_REBOOT"

definition cmd_initng_halt :: "env \<Rightarrow> sys \<Rightarrow> (int \<times> sys) option" where
  "cmd_initng_halt E = stop_then E THEN_HALT"

definition cmd_initng_poweroff :: "env \<Rightarrow> sys \<Rightarrow> (int \<times> sys) option" where
  "cmd_initng_poweroff E = stop_then E THEN_POWEROFF"

text \<open>
  The list of modules. The block has \<open>string_len\<close> bytes; a line that does not fit with its
  terminating NUL is written behind it, which is the result None. The condition in the new length
  takes the whole sum before the comparison.
\<close>

definition module_line :: "m_h \<Rightarrow> string" where
  "module_line m = ''  * '' @ m_name m @ replicate (30 - length (m_name m)) CHR '' '' @ '' '' @ m_path m @ [CHR 0x0A]"

fun print_modules_walk :: "m_h list \<Rightarrow> nat \<Rightarrow> string \<Rightarrow> string option" where
  "print_modules_walk [] string_len string = Some string"
| "print_modules_walk (m # ms) string_len string =
     (let namelen = length (m_name m);
          new_len = string_len + (if 6 + length (m_path m) + namelen < 30 then 30 else namelen)
      in if new_len < string_len + length (module_line m) + 1 then None
         else print_modules_walk ms new_len (take string_len string @ module_line m))"

definition cmd_print_modules :: "sys \<Rightarrow> string option" where
  "cmd_print_modules s =
     (let string = ''modules: '' @ [CHR 0x0A]
      in print_modules_walk (map (g_modules s) (rev (g_module_db s))) (length string) string)"

definition INITNG_MODULE_DIR :: string where "INITNG_MODULE_DIR = ''/lib/initng''"

definition cmd_load_module :: "env \<Rightarrow> string option \<Rightarrow> sys \<Rightarrow> (int \<times> sys) option" where
  "cmd_load_module E arg s =
     (case arg of
        None \<Rightarrow> Some (FALSE, s)
      | Some module \<Rightarrow> do {
          (m, s) \<leftarrow> initng_module_load E INITNG_MODULE_DIR module s;
          Some (of_cond (m \<noteq> None), s) })"

definition cmd_percent_done :: "sys \<Rightarrow> int" where
  "cmd_percent_done s = initng_active_db_percent_started s"

definition cmd_new_init :: "env \<Rightarrow> string option \<Rightarrow> sys \<Rightarrow> (int \<times> sys) option" where
  "cmd_new_init E arg s =
     (case arg of
        None \<Rightarrow> Some (FALSE, s)
      | Some new_i \<Rightarrow> do {
          (argv, n) \<leftarrow> initng_string_split_delim new_i WHITESPACE;
          (r, s) \<leftarrow> initng_handler_stop_all E (s\<lparr>g_new_init := Some argv, g_when_out := THEN_NEW_INIT\<rparr>);
          Some (TRUE, s) })"

section \<open>Questions about dependencies\<close>

definition dep_line :: "sid \<Rightarrow> sys \<Rightarrow> string" where
  "dep_line current s = ''  '' @ a_name (svc s current) @ [CHR 0x09, CHR 0x09] @ ''['' @ st_name (a_current_state (svc s current))
     @ '']'' @ [CHR 0x0A]"

definition list_body :: "(sid \<Rightarrow> sys \<Rightarrow> (bool \<times> sys) option) \<Rightarrow> sid \<Rightarrow> string \<times> sys \<Rightarrow> (unit option \<times> (string \<times> sys)) option" where
  "list_body test current x = do {
     (b, s) \<leftarrow> test current (snd x);
     Some (None, (if b then fst x @ dep_line current s else fst x, s)) }"

definition list_services :: "env \<Rightarrow> (sid \<Rightarrow> sid \<Rightarrow> sys \<Rightarrow> (bool \<times> sys) option) \<Rightarrow> (string \<Rightarrow> string) \<Rightarrow> string \<Rightarrow> sys \<Rightarrow>
    (string \<times> sys) option" where
  "list_services E test head arg s =
     (case initng_active_db_find_by_name arg s of
        None \<Rightarrow> Some (''Did not find service.'', s)
      | Some on \<Rightarrow> map_option snd (while_list (\<lambda>x. g_active_db (snd x)) (list_body (test on)) (e_fuel E)
          (head (a_name (svc s on)), s)))"

definition quoted :: "string \<Rightarrow> string" where "quoted n = [CHR 0x22] @ n @ [CHR 0x22]"

definition cmd_get_depends_on :: "env \<Rightarrow> string \<Rightarrow> sys \<Rightarrow> (string \<times> sys) option" where
  "cmd_get_depends_on E =
     list_services E (\<lambda>on current. initng_depend E on current) (\<lambda>n. ''The '' @ quoted n @ '' depends on:'' @ [CHR 0x0A])"

definition cmd_get_depends_on_deep :: "env \<Rightarrow> string \<Rightarrow> sys \<Rightarrow> (string \<times> sys) option" where
  "cmd_get_depends_on_deep E =
     list_services E (\<lambda>on current. initng_depend_deep E on current) (\<lambda>n. ''The '' @ quoted n @ '' depends on:'' @ [CHR 0x0A])"

definition cmd_get_depends_off :: "env \<Rightarrow> string \<Rightarrow> sys \<Rightarrow> (string \<times> sys) option" where
  "cmd_get_depends_off E =
     list_services E (\<lambda>on current. initng_depend E current on)
       (\<lambda>n. ''The services that depends on '' @ quoted n @ '':'' @ [CHR 0x0A])"

definition cmd_get_depends_off_deep :: "env \<Rightarrow> string \<Rightarrow> sys \<Rightarrow> (string \<times> sys) option" where
  "cmd_get_depends_off_deep E =
     list_services E (\<lambda>on current. initng_depend_deep E current on)
       (\<lambda>n. ''The the services that depends on '' @ quoted n @ '':'' @ [CHR 0x0A])"

section \<open>Running a program of a service\<close>

definition EXTERN_RUN :: ptype_h where "EXTERN_RUN = \<lparr>pt_name = ''extern_arg'', pt_kill_handler = None\<rparr>"

definition cmd_run :: "env \<Rightarrow> string \<Rightarrow> sys \<Rightarrow> (int \<times> sys) option" where
  "cmd_run E arg s =
     (let serv_name = takeWhile (\<lambda>c. c \<noteq> CHR '':'') arg in
      if CHR '':'' \<notin> set arg \<or> length serv_name < 3 then Some (FALSE, s)
      else case initng_active_db_find_by_name serv_name s of
        None \<Rightarrow> Some (FALSE, s)
      | Some service \<Rightarrow> do {
          (r, s) \<leftarrow> initng_execute_launch E service EXTERN_RUN (Some (drop (length serv_name + 1) arg)) s;
          Some (if r \<noteq> TRUE then FALSE else TRUE, s) })"

section \<open>Registration\<close>

definition command :: "char \<Rightarrow> string \<Rightarrow> e_com_type \<Rightarrow> e_opt_type \<Rightarrow> string \<Rightarrow> s_command" where
  "command c n t opt f = \<lparr>cmd_id = c, cmd_long_id = Some n, cmd_com_type = t, cmd_opt_type = opt, cmd_call = Some f\<rparr>"

definition GET_PID_OF :: s_command where "GET_PID_OF = command (CHR ''g'') ''get_pid_of'' INT_COMMAND REQUIRES_OPT ''cmd_get_pid_of''"
definition START_ON_NEW :: s_command where "START_ON_NEW = command (CHR ''j'') ''restart_from'' INT_COMMAND REQUIRES_OPT ''cmd_start_on_new''"
definition FREE_SERVICE :: s_command where "FREE_SERVICE = command (CHR ''z'') ''zap'' INT_COMMAND USES_OPT ''cmd_free_service''"
definition RESTART_SERVICE :: s_command where "RESTART_SERVICE = command (CHR ''r'') ''restart'' INT_COMMAND REQUIRES_OPT ''cmd_restart''"
definition PRINT_UPTIME :: s_command where "PRINT_UPTIME = command (CHR ''T'') ''time'' STRING_COMMAND REQUIRES_OPT ''cmd_print_uptime''"
definition POWEROFF_INITNG :: s_command where "POWEROFF_INITNG = command (CHR ''0'') ''poweroff'' INT_COMMAND NO_OPT ''cmd_initng_poweroff''"
definition HALT_INITNG :: s_command where "HALT_INITNG = command (CHR ''1'') ''halt'' INT_COMMAND NO_OPT ''cmd_initng_halt''"
definition REBOOT_INITNG :: s_command where "REBOOT_INITNG = command (CHR ''6'') ''reboot'' INT_COMMAND NO_OPT ''cmd_initng_reboot''"
definition PRINT_MODULES :: s_command where "PRINT_MODULES = command (CHR ''m'') ''print_modules'' STRING_COMMAND NO_OPT ''cmd_print_modules''"
definition LOAD_MODULE :: s_command where "LOAD_MODULE = command (CHR ''o'') ''load_module'' INT_COMMAND REQUIRES_OPT ''cmd_load_module''"
definition PERCENT_DONE :: s_command where "PERCENT_DONE = command (CHR ''n'') ''done'' INT_COMMAND NO_OPT ''cmd_percent_done''"
definition DEPENDS_ON :: s_command where "DEPENDS_ON = command (CHR ''a'') ''service_dep_on'' STRING_COMMAND REQUIRES_OPT ''cmd_get_depends_on''"
definition DEPENDS_ON_DEEP :: s_command where "DEPENDS_ON_DEEP = command (CHR ''A'') ''service_dep_on_deep'' STRING_COMMAND REQUIRES_OPT ''cmd_get_depends_on_deep''"
definition DEPENDS_OFF :: s_command where "DEPENDS_OFF = command (CHR ''b'') ''service_dep_on_me'' STRING_COMMAND REQUIRES_OPT ''cmd_get_depends_off''"
definition DEPENDS_OFF_DEEP :: s_command where "DEPENDS_OFF_DEEP = command (CHR ''B'') ''service_dep_on_me_deep'' STRING_COMMAND REQUIRES_OPT ''cmd_get_depends_off_deep''"
definition NEW_INIT :: s_command where "NEW_INIT = command (CHR ''E'') ''new_init'' INT_COMMAND REQUIRES_OPT ''cmd_new_init''"
definition RUN :: s_command where "RUN = command (CHR ''U'') ''run'' INT_COMMAND REQUIRES_OPT ''cmd_run''"

definition stcmd_commands :: "s_command list" where
  "stcmd_commands = [GET_PID_OF, START_ON_NEW, FREE_SERVICE, RESTART_SERVICE, PRINT_UPTIME, REBOOT_INITNG,
     POWEROFF_INITNG, HALT_INITNG, PRINT_MODULES, LOAD_MODULE, PERCENT_DONE, DEPENDS_ON, DEPENDS_ON_DEEP,
     DEPENDS_OFF, DEPENDS_OFF_DEEP, NEW_INIT, RUN]"

definition stcmd_module_init :: "sys \<Rightarrow> int \<times> sys" where
  "stcmd_module_init s = (TRUE, fold (\<lambda>c s. snd (initng_command_register c s)) stcmd_commands s)"

definition stcmd_module_unload :: "sys \<Rightarrow> sys" where
  "stcmd_module_unload s = fold initng_command_unregister stcmd_commands s"

end
