(* ===== verification/History.thy ===== *)
theory History
  imports Stcmd
begin

text \<open>
  The module history: a bounded list of the state changes of all services and of what their
  processes have written, newest first, and the two commands that print it. An entry points to its
  service until it has a name of its own; reading through the pointer to a service that has been
  freed is the result None.
\<close>

section \<open>The list\<close>

definition HISTORY :: int where "HISTORY = 800"

text \<open>The new entry comes to the front, and the oldest one is freed when there are too many.\<close>

definition add_hist :: "history_h \<Rightarrow> sys \<Rightarrow> sys" where
  "add_hist hist s =
     (let s = s\<lparr>m_history_db := hist # m_history_db s, m_history_records := m_history_records s + 1\<rparr>
      in if HISTORY < m_history_records s
         then s\<lparr>m_history_db := butlast (m_history_db s), m_history_records := m_history_records s - 1\<rparr> else s)"

text \<open>Only the first entry that points to the service is cleared.\<close>

fun clear_service_walk :: "sid \<Rightarrow> string \<Rightarrow> history_h list \<Rightarrow> history_h list" where
  "clear_service_walk i n [] = []"
| "clear_service_walk i n (h # hs) =
     (if h_service h = Some i then h\<lparr>h_service := None, h_name := Some n\<rparr> # hs else h # clear_service_walk i n hs)"

definition history_db_clear_service :: "sid \<Rightarrow> sys \<Rightarrow> sys" where
  "history_db_clear_service i s = s\<lparr>m_history_db := clear_service_walk i (a_name (svc s i)) (m_history_db s)\<rparr>"

definition state_entry :: "sid \<Rightarrow> sys \<Rightarrow> history_h" where
  "state_entry i s =
     (let a = svc s i in
      \<lparr>h_service = Some i, h_name = None, h_time = a_time_current_state a, h_action = Some (a_current_state a),
       h_data = None,
       h_duration = (if a_last_state a \<noteq> None \<and> 1 < tv_sec (a_time_last_state a)
         then tv_sec (a_time_current_state a) - tv_sec (a_time_last_state a) else 0)\<rparr>)"

definition history_add_values :: "s_event \<Rightarrow> sys \<Rightarrow> (s_event \<times> sys) option" where
  "history_add_values ev s = do {
     i \<leftarrow> event_service EVENT_STATE_CHANGE ev;
     (let s = add_hist (state_entry i s) s
      in Some (ev, if IS_MARK s i FREEING then history_db_clear_service i s else s)) }"

definition fetch_output :: "s_event \<Rightarrow> sys \<Rightarrow> (s_event \<times> sys) option" where
  "fetch_output ev s =
     (case ev_data ev of
        ED_buffer i pa n buffer_pos \<Rightarrow>
          (if ev_type ev \<noteq> EVENT_BUFFER_WATCHER then None
           else Some (ev, add_hist \<lparr>h_service = Some i, h_name = None, h_time = g_clock s, h_action = None,
                  h_data = Some buffer_pos, h_duration = 0\<rparr> s))
      | _ \<Rightarrow> None)"

definition history_db_compensate_time :: "s_event \<Rightarrow> sys \<Rightarrow> (s_event \<times> sys) option" where
  "history_db_compensate_time ev s =
     (case ev_data ev of
        ED_int skew \<Rightarrow>
          (if ev_type ev \<noteq> EVENT_COMPENSATE_TIME then None
           else Some (ev, s\<lparr>m_history_db := map (\<lambda>h. h\<lparr>h_time := (h_time h)\<lparr>tv_sec := tv_sec (h_time h) + skew\<rparr>\<rparr>) (m_history_db s)\<rparr>))
      | _ \<Rightarrow> None)"

definition history_free_all :: "sys \<Rightarrow> sys" where
  "history_free_all s = s\<lparr>m_history_db := []\<rparr>"

section \<open>Printing\<close>

text \<open>The name of the service of an entry, through the pointer if the entry has no name.\<close>

definition entry_name :: "sys \<Rightarrow> history_h \<Rightarrow> string option option" where
  "entry_name s h =
     (case h_name h of
        Some n \<Rightarrow> Some (Some n)
      | None \<Rightarrow>
          (case h_service h of
             None \<Rightarrow> Some None
           | Some i \<Rightarrow> if a_allocated (svc s i) then Some (Some (a_name (svc s i))) else None))"

text \<open>Whether an entry is about the service of that name; the second test is only made if the
  first fails.\<close>

definition entry_matches :: "sys \<Rightarrow> string \<Rightarrow> history_h \<Rightarrow> bool option" where
  "entry_matches s arg h =
     (if h_name h = Some arg then Some True
      else case h_service h of
        None \<Rightarrow> Some False
      | Some i \<Rightarrow> if a_allocated (svc s i) then Some (a_name (svc s i) = arg) else None)"

record active_row =
  ar_name :: string
  ar_state :: string
  ar_type :: string
  ar_time :: timeval
  ar_is :: e_is

definition history_row :: "string option \<Rightarrow> sys \<Rightarrow> history_h \<Rightarrow> active_row list option" where
  "history_row arg s h =
     (case h_action h of
        None \<Rightarrow> Some []
      | Some action \<Rightarrow> do {
          hit \<leftarrow> (case arg of Some n \<Rightarrow> if 1 < length n then entry_matches s n h else Some True | None \<Rightarrow> Some True);
          (if \<not> hit then Some []
           else do {
             n \<leftarrow> entry_name s h;
             ty \<leftarrow> (case h_service h of
                      None \<Rightarrow> Some []
                    | Some i \<Rightarrow> if a_allocated (svc s i)
                        then Some (case a_type (svc s i) of None \<Rightarrow> [] | Some t \<Rightarrow> take 100 (sty_name t)) else None);
             Some [\<lparr>ar_name = (case n of None \<Rightarrow> [] | Some n \<Rightarrow> take 100 n), ar_state = take 100 (st_name action), ar_type = ty,
                ar_time = h_time h, ar_is = st_is action\<rparr>] }) })"

text \<open>Both commands go through the list from the oldest entry; the rows of one entry follow those
  of the entries before it.\<close>

fun collect :: "('a \<Rightarrow> 'b list option) \<Rightarrow> 'a list \<Rightarrow> 'b list option" where
  "collect f [] = Some []"
| "collect f (x # xs) = do { ys \<leftarrow> f x; zs \<leftarrow> collect f xs; Some (ys @ zs) }"

definition cmd_history :: "string option \<Rightarrow> sys \<Rightarrow> active_row list option" where
  "cmd_history arg s = collect (history_row arg s) (rev (m_history_db s))"

definition LOG_ROW_LEN :: nat where "LOG_ROW_LEN = 70"

definition LOG_ROW_LEN_BREAK_ON_SPACE :: nat where "LOG_ROW_LEN_BREAK_ON_SPACE = 60"

definition is_blank :: "char \<Rightarrow> bool" where
  "is_blank c \<longleftrightarrow> c = CHR '' '' \<or> c = CHR 0x09"

text \<open>The number of characters of the next row.\<close>

fun row_len :: "nat \<Rightarrow> string \<Rightarrow> nat" where
  "row_len i [] = i"
| "row_len i (c # cs) =
     (if c = CHR 0x0A \<or> LOG_ROW_LEN \<le> i then i
      else if LOG_ROW_LEN_BREAK_ON_SPACE < i \<and> is_blank c then i
      else row_len (i + 1) cs)"

definition skip_space :: "string \<Rightarrow> string" where
  "skip_space tmp = dropWhile (\<lambda>c. is_blank c \<or> c = CHR 0x0A) tmp"

lemma row_len_ge: "i \<le> row_len i cs"
  by (induction i cs rule: row_len.induct) (auto simp: LOG_ROW_LEN_def LOG_ROW_LEN_BREAK_ON_SPACE_def)

lemma row_len_progress:
  assumes "skip_space tmp = c # cs"
  shows "0 < row_len 0 (c # cs)"
proof -
  have "c \<noteq> CHR 0x0A"
    using assms hd_dropWhile [of "\<lambda>c. is_blank c \<or> c = CHR 0x0A" tmp] by (auto simp: skip_space_def)
  with row_len_ge [of 1 cs] show ?thesis by (simp add: LOG_ROW_LEN_def LOG_ROW_LEN_BREAK_ON_SPACE_def)
qed

function log_rows :: "string \<Rightarrow> string list" where
  "log_rows tmp =
     (case skip_space tmp of
        [] \<Rightarrow> []
      | c # cs \<Rightarrow> (let i = row_len 0 (c # cs) in take i (c # cs) # log_rows (drop i (c # cs))))"
  by pat_completeness auto
termination
proof (relation "measure length", goal_cases)
  case (2 tmp c cs i)
  have "length (skip_space tmp) \<le> length tmp" by (simp add: skip_space_def length_dropWhile_le)
  with 2 row_len_progress [of tmp c cs] show ?case by auto
qed simp

declare log_rows.simps [simp del]

definition padded :: "string option \<Rightarrow> string" where
  "padded n = (let n = (case n of None \<Rightarrow> ''(null)'' | Some n \<Rightarrow> n) in replicate (20 - length n) (CHR '' '') @ n)"

text \<open>The lines of one entry after its name is known. An entry without output and without a state
  is a read through NULL.\<close>

definition log_body :: "string option \<Rightarrow> history_h \<Rightarrow> string option" where
  "log_body n h =
     (case h_data h of
        Some data \<Rightarrow> Some (concat (map (\<lambda>row. '' '' @ padded n @ '' : '' @ row @ [CHR 0x0A]) (log_rows data)))
      | None \<Rightarrow>
          (case h_action h of
             None \<Rightarrow> None
           | Some action \<Rightarrow>
               Some (if st_is action \<notin> {IS_UP, IS_DOWN, IS_FAILED} then []
                 else '' '' @ padded n @ '' | '' @ st_name action @
                   (if 0 < h_duration h then '' (after '' @ show_int (h_duration h) @ '' seconds)'' else []) @ [CHR 0x0A])))"

definition log_rule :: string where "log_rule = '' '' @ replicate 54 (CHR ''-'') @ [CHR 0x0A]"

text \<open>The loop keeps the second of the entry before, to print the time when it changes.\<close>

fun log_entries :: "(int \<Rightarrow> string) \<Rightarrow> string option \<Rightarrow> bool \<Rightarrow> sys \<Rightarrow> int \<Rightarrow> history_h list \<Rightarrow> string option" where
  "log_entries ctime arg only_output s lst [] = Some []"
| "log_entries ctime arg only_output s lst (h # hs) =
     (if only_output \<and> h_data h = None then log_entries ctime arg only_output s lst hs
      else do {
        hit \<leftarrow> (case arg of Some n \<Rightarrow> entry_matches s n h | None \<Rightarrow> Some True);
        (if \<not> hit then log_entries ctime arg only_output s lst hs
         else do {
           n \<leftarrow> entry_name s h;
           body \<leftarrow> log_body n h;
           rest \<leftarrow> log_entries ctime arg only_output s (tv_sec (h_time h)) hs;
           Some ((if lst \<noteq> tv_sec (h_time h) then [CHR 0x0A] @ '' '' @ ctime (tv_sec (h_time h)) @ log_rule else [])
             @ body @ rest) }) })"

text \<open>The argument \<open>output\<close> is at the same time the name the entries are compared with.\<close>

definition cmd_log :: "(int \<Rightarrow> string) \<Rightarrow> string option \<Rightarrow> sys \<Rightarrow> string option" where
  "cmd_log ctime arg s =
     (let arg = (if arg = Some [] then None else arg) in do {
        rows \<leftarrow> log_entries ctime arg (arg = Some ''output'') s 0 (rev (m_history_db s));
        Some ('' '' @ padded (Some ''SERVICE'') @ '' : STATUS'' @ [CHR 0x0A] @ log_rule @ rows) })"

section \<open>Registration\<close>

definition HISTORYS :: s_command where "HISTORYS = command (CHR ''L'') ''show_history'' PAYLOAD_COMMAND USES_OPT ''cmd_history''"

definition LOG :: s_command where "LOG = command (CHR ''l'') ''log'' STRING_COMMAND USES_OPT ''cmd_log''"

definition history_module_init :: "sys \<Rightarrow> int \<times> sys" where
  "history_module_init s =
     (TRUE, hook ''initng_history.c'' EVENT_BUFFER_WATCHER ''fetch_output''
        (hook ''initng_history.c'' EVENT_COMPENSATE_TIME ''history_db_compensate_time''
          (hook ''initng_history.c'' EVENT_STATE_CHANGE ''history_add_values''
            (snd (initng_command_register LOG (snd (initng_command_register HISTORYS (s\<lparr>m_history_db := []\<rparr>))))))))"

definition history_module_unload :: "sys \<Rightarrow> sys" where
  "history_module_unload s =
     initng_event_hook_unregister EVENT_BUFFER_WATCHER ''fetch_output''
       (initng_event_hook_unregister EVENT_COMPENSATE_TIME ''history_db_compensate_time''
         (initng_event_hook_unregister EVENT_STATE_CHANGE ''history_add_values''
           (history_free_all (initng_command_unregister LOG (initng_command_unregister HISTORYS s)))))"

section \<open>Lemmas\<close>

text \<open>The counter of the entries and the list.\<close>

definition history_ok :: "sys \<Rightarrow> bool" where
  "history_ok s \<longleftrightarrow> m_history_records s = int (length (m_history_db s)) \<and> length (m_history_db s) \<le> nat HISTORY"

lemma add_hist_step:
  assumes "history_ok s"
  shows "history_ok (add_hist h s) \<and> m_history_db (add_hist h s) = take (nat HISTORY) (h # m_history_db s)"
  using assms by (auto simp: history_ok_def add_hist_def HISTORY_def Let_def butlast_conv_take)

lemma log_rows_unfold:
  "log_rows tmp = (if skip_space tmp = [] then []
     else take (row_len 0 (skip_space tmp)) (skip_space tmp) # log_rows (drop (row_len 0 (skip_space tmp)) (skip_space tmp)))"
  by (subst log_rows.simps) (simp add: Let_def del: row_len.simps split: list.split)

lemma row_len_bounds: "i \<le> LOG_ROW_LEN \<Longrightarrow> row_len i cs \<le> LOG_ROW_LEN \<and> row_len i cs \<le> i + length cs
    \<and> CHR 0x0A \<notin> set (take (row_len i cs - i) cs)"
proof (induction i cs rule: row_len.induct)
  case (2 i c cs)
  note ge = row_len_ge [of "i + 1" cs]
  show ?case
  proof (cases "c = CHR 0x0A \<or> LOG_ROW_LEN \<le> i \<or> LOG_ROW_LEN_BREAK_ON_SPACE < i \<and> is_blank c")
    case False
    then have "row_len i (c # cs) = row_len (i + 1) cs" "c \<noteq> CHR 0x0A" "i + 1 \<le> LOG_ROW_LEN" by auto
    moreover from this(3) False have "row_len (i + 1) cs \<le> LOG_ROW_LEN \<and> row_len (i + 1) cs \<le> i + 1 + length cs
        \<and> CHR 0x0A \<notin> set (take (row_len (i + 1) cs - (i + 1)) cs)"
      using 2 by auto
    ultimately show ?thesis using ge by (simp add: take_Cons')
  qed (use 2 in auto)
qed simp

section \<open>Properties\<close>

text \<open>C27: the history keeps exactly the newest entries. Whatever sequence of entries the hooks add to a
  list of at most 800 entries whose counter is right, afterwards the list holds the newest 800 of the
  old and new entries together, newest first, and the counter is its length.\<close>

theorem history_keeps_newest:
  assumes "history_ok s"
  shows "m_history_db (fold add_hist hs s) = take 800 (rev hs @ m_history_db s) \<and> history_ok (fold add_hist hs s)"
proof -
  have "history_ok (fold add_hist hs s) \<and> m_history_db (fold add_hist hs s) = take (nat HISTORY) (rev hs @ m_history_db s)"
    using assms
  proof (induction hs arbitrary: s)
    case Nil
    then show ?case by (simp add: history_ok_def)
  next
    case (Cons h hs)
    from add_hist_step [OF Cons.prems] Cons.IH [of "add_hist h s"] show ?case
      by (simp add: take_append min_def)
  qed
  then show ?thesis by (simp add: HISTORY_def)
qed

theorem history_keeps_newest_witness:
  "let s = tiny_sys []; h = state_entry 0 s in m_history_db (fold add_hist [h, h] s) = [h, h]"
  using history_keeps_newest [of "tiny_sys []" "[state_entry 0 (tiny_sys []), state_entry 0 (tiny_sys [])]"]
  by (simp add: history_ok_def tiny_sys_def global_zero_def HISTORY_def)

text \<open>C28: the log prints all the output of a process in rows of at most 70 characters. A row is never
  empty and holds no line break, and the rows together hold every character of the output that is no
  blank and no line break, in the same order.\<close>

theorem log_rows_complete:
  "(\<forall>row \<in> set (log_rows tmp). 0 < length row \<and> length row \<le> LOG_ROW_LEN \<and> CHR 0x0A \<notin> set row)
    \<and> filter (\<lambda>c. \<not> is_blank c \<and> c \<noteq> CHR 0x0A) (concat (log_rows tmp)) = filter (\<lambda>c. \<not> is_blank c \<and> c \<noteq> CHR 0x0A) tmp"
proof (induction tmp rule: length_induct)
  case (1 tmp)
  let ?keep = "\<lambda>c. \<not> is_blank c \<and> c \<noteq> CHR 0x0A"
  have skip: "filter ?keep (skip_space tmp) = filter ?keep tmp"
    unfolding skip_space_def by (induction tmp) auto
  show ?case
  proof (cases "skip_space tmp")
    case Nil
    with skip show ?thesis by (simp add: log_rows_unfold [of tmp])
  next
    case (Cons c cs)
    define rest where "rest = skip_space tmp"
    define n where "n = row_len 0 rest"
    from Cons row_len_progress [OF Cons] have n: "0 < n" "rest \<noteq> []" by (simp_all add: n_def rest_def)
    have "length (drop n rest) < length tmp"
      using n length_dropWhile_le [of "\<lambda>c. is_blank c \<or> c = CHR 0x0A" tmp]
      by (cases rest) (auto simp: rest_def skip_space_def)
    note ih = 1 [rule_format, OF this]
    have "filter ?keep (take n rest) @ filter ?keep (drop n rest) = filter ?keep tmp"
      by (simp only: filter_append [symmetric] append_take_drop_id skip rest_def)
    moreover have "n \<le> LOG_ROW_LEN" "n \<le> length rest" "CHR 0x0A \<notin> set (take n rest)"
      using row_len_bounds [of 0 rest] by (simp_all add: n_def)
    moreover have "log_rows tmp = take n rest # log_rows (drop n rest)"
      using n(2) by (subst log_rows_unfold) (simp add: n_def rest_def)
    ultimately show ?thesis using ih n by simp
  qed
qed

theorem log_rows_complete_witness:
  "list_all (\<lambda>row. length row \<le> LOG_ROW_LEN) (log_rows ''up  12'')
    \<and> filter (\<lambda>c. \<not> is_blank c \<and> c \<noteq> CHR 0x0A) (concat (log_rows ''up  12'')) = ''up12''"
proof -
  have "filter (\<lambda>c. \<not> is_blank c \<and> c \<noteq> CHR 0x0A) ''up  12'' = ''up12''" by (simp add: is_blank_def)
  with log_rows_complete [of "''up  12''"] show ?thesis by (simp only: list_all_iff) blast
qed

text \<open>C30: the history keeps pointers to services that are freed. Take a service whose state change the
  history recorded, in a state other than freeing; the program frees it without a further event, and
  then printing the whole history reads through the pointer to the freed service.\<close>

theorem history_reads_freed_service:
  assumes "history_add_values (event EVENT_STATE_CHANGE (ED_service i)) s = Some (ev, t)" and "\<not> IS_MARK s i FREEING"
    and "history_ok s"
  shows "cmd_history None (initng_active_db_free i t) = None"
proof -
  have none: "collect f xs = None" if "x \<in> set xs" "f x = None" for f and x :: history_h and xs :: "history_h list"
    using that by (induction xs) (auto split: bind_splits)
  let ?u = "initng_active_db_free i t"
  have "IS_MARK (add_hist h s) i FREEING = IS_MARK s i FREEING" for h
    by (simp add: add_hist_def IS_MARK_def Let_def)
  with assms(1,2) have t: "t = add_hist (state_entry i s) s"
    by (auto simp: history_add_values_def event_service_def event_def)
  have "m_history_db (free_processes i ps v) = m_history_db v" for ps v
    by (induction ps arbitrary: v) (simp_all add: initng_process_db_real_free_def add_effects_def upd_svc_def)
  then have "m_history_db ?u = m_history_db t" "\<not> a_allocated (svc ?u i)"
    by (simp_all add: initng_active_db_free_def initng_common_mark_service_def initng_common_state_unlock_def upd_svc_def Let_def
        split: option.split)
  with t add_hist_step [OF assms(3), of "state_entry i s"] have "state_entry i s \<in> set (rev (m_history_db ?u))"
    by (simp add: HISTORY_def eval_nat_numeral)
  moreover have "history_row None ?u (state_entry i s) = None"
    using \<open>\<not> a_allocated (svc ?u i)\<close> by (simp add: history_row_def state_entry_def entry_name_def Let_def)
  ultimately show ?thesis unfolding cmd_history_def by (rule none)
qed

theorem history_reads_freed_service_witness:
  "\<exists>ev t. history_add_values (event EVENT_STATE_CHANGE (ED_service 0)) (tiny_sys [tiny_service ''a'' NEW []]) = Some (ev, t)
     \<and> cmd_history None (initng_active_db_free 0 t) = None"
proof -
  let ?s = "tiny_sys [tiny_service ''a'' NEW []]"
  have mark: "\<not> IS_MARK ?s 0 FREEING"
    by (simp add: IS_MARK_def tiny_service_def NEW_def FREEING_def plain_state_def)
  have ok: "history_ok ?s" by (simp add: history_ok_def tiny_sys_def global_zero_def)
  obtain ev t where t: "history_add_values (event EVENT_STATE_CHANGE (ED_service 0)) ?s = Some (ev, t)"
    by (simp add: history_add_values_def event_service_def event_def Let_def)
  from history_reads_freed_service [OF t mark ok] t show ?thesis by blast
qed

end
