(* ===== verification/After_Fork.thy ===== *)
theory After_Fork
  imports Stcmd
begin

text \<open>
  The child process between fork and execve: the descriptors it sets up, the hooks of the modules
  chdir, chroot, renice, pause, suid, stdout and limit, and the environment it passes on
  (src/main/fork, src/main/env). The child works on its own copy of the program state; what it asks
  of the operating system is in the trace of effects.
\<close>

section \<open>Descriptors\<close>

definition MAX_TARGETS :: nat where "MAX_TARGETS = 10"

definition setup_target :: "pipe_h \<Rightarrow> int \<Rightarrow> effect list" where
  "setup_target q t =
     [Eff_close t]
     @ (if pipe_dir q \<in> {OUT_PIPE, BUFFERED_OUT_PIPE} then [Eff_dup2 (snd (pipe_fd q)) t]
        else if pipe_dir q \<in> {IN_PIPE, IN_AND_OUT_PIPE} then [Eff_dup2 (fst (pipe_fd q)) t]
        else [])
     @ [Eff_setfd t False]"

definition pipes_setup_local_side :: "process_h \<Rightarrow> effect list" where
  "pipes_setup_local_side p =
     concat (map (\<lambda>q. concat (map (setup_target q) (takeWhile (\<lambda>t. 0 < t) (take MAX_TARGETS (pipe_targets q)))))
       (rev (p_pipes p)))"

text \<open>What \<open>initng_fork\<close> does in the child.\<close>

definition fork_child :: "sid \<Rightarrow> nat \<Rightarrow> sys \<Rightarrow> sys option" where
  "fork_child i pa s = do {
     p \<leftarrow> process_at i pa s;
     Some (add_effects (Eff_setsid # pipes_setup_local_side p) s) }"

text \<open>The hooks; the first result tells whether the child goes on or exits.\<close>

definition initng_fork_aforkhooks :: "env \<Rightarrow> sid \<Rightarrow> nat \<Rightarrow> sys \<Rightarrow> (bool \<times> sys) option" where
  "initng_fork_aforkhooks E i pa s = do {
     (ev, s) \<leftarrow> initng_event_send E (event EVENT_AFTER_FORK (ED_process i pa)) s;
     Some (ev_status ev \<noteq> FAILED, s) }"

definition fork_data :: "s_event \<Rightarrow> (sid \<times> nat) option" where
  "fork_data ev = (case ev_data ev of ED_process i pa \<Rightarrow> if ev_type ev = EVENT_AFTER_FORK then Some (i, pa) else None
     | _ \<Rightarrow> None)"

definition fork_failed :: "bool \<Rightarrow> s_event \<Rightarrow> s_event" where
  "fork_failed b ev = (if b then ev\<lparr>ev_status := FAILED\<rparr> else ev)"

section \<open>chdir, chroot, renice, pause\<close>

definition CHDIR :: s_entry where "CHDIR = S_Entry ''chdir'' STRING None"

definition do_chdir :: "env \<Rightarrow> s_event \<Rightarrow> sys \<Rightarrow> (s_event \<times> sys) option" where
  "do_chdir E ev s = do {
     (i, pa) \<leftarrow> fork_data ev;
     (case svc_get_string CHDIR i s of
        None \<Rightarrow> Some (ev, s)
      | Some tmp \<Rightarrow>
          (let s' = add_effects [Eff_chdir tmp] s
           in Some (fork_failed (e_call E (Call_chdir tmp) s = -1) ev, s'))) }"

definition chdir_module_init :: "sys \<Rightarrow> int \<times> sys" where
  "chdir_module_init s = (TRUE, hook ''initng_chdir.c'' EVENT_AFTER_FORK ''do_chdir'' (register_entries [CHDIR] s))"

definition chdir_module_unload :: "sys \<Rightarrow> sys" where
  "chdir_module_unload s = initng_event_hook_unregister EVENT_AFTER_FORK ''do_chdir'' (unregister_entries [CHDIR] s)"

definition CHROOT :: s_entry where "CHROOT = S_Entry ''chroot'' STRING None"

definition do_chroot :: "env \<Rightarrow> s_event \<Rightarrow> sys \<Rightarrow> (s_event \<times> sys) option" where
  "do_chroot E ev s = do {
     (i, pa) \<leftarrow> fork_data ev;
     (case svc_get_string CHROOT i s of
        None \<Rightarrow> Some (ev, s)
      | Some tmp \<Rightarrow>
          (let s' = add_effects [Eff_chdir tmp] s in
           if e_call E (Call_chdir tmp) s = -1 then Some (fork_failed True ev, s')
           else Some (fork_failed (e_call E (Call_chroot tmp) s' = -1) ev, add_effects [Eff_chroot tmp] s'))) }"

definition chroot_module_init :: "sys \<Rightarrow> int \<times> sys" where
  "chroot_module_init s = (TRUE, hook ''initng_chroot.c'' EVENT_AFTER_FORK ''do_chroot'' (register_entries [CHROOT] s))"

definition chroot_module_unload :: "sys \<Rightarrow> sys" where
  "chroot_module_unload s = initng_event_hook_unregister EVENT_AFTER_FORK ''do_chroot'' (unregister_entries [CHROOT] s)"

definition NICE :: s_entry where "NICE = S_Entry ''nice'' INT_T None"

text \<open>The error of nice is told by the error number, which the result -1 stands for here.\<close>

definition do_renice :: "env \<Rightarrow> s_event \<Rightarrow> sys \<Rightarrow> (s_event \<times> sys) option" where
  "do_renice E ev s = do {
     (i, pa) \<leftarrow> fork_data ev;
     (if is_set NICE i s then
        (let n = svc_get_int NICE i s
         in Some (fork_failed (e_call E (Call_nice n) s = -1) ev, add_effects [Eff_nice n] s))
      else Some (ev, s)) }"

definition renice_module_init :: "sys \<Rightarrow> int \<times> sys" where
  "renice_module_init s = (TRUE, hook ''initng_renice.c'' EVENT_AFTER_FORK ''do_renice'' (register_entries [NICE] s))"

definition renice_module_unload :: "sys \<Rightarrow> sys" where
  "renice_module_unload s = initng_event_hook_unregister EVENT_AFTER_FORK ''do_renice'' (unregister_entries [NICE] s)"

definition S_DELAY :: s_entry where "S_DELAY = S_Entry ''exec_delay'' VARIABLE_INT None"

definition MS_DELAY :: s_entry where "MS_DELAY = S_Entry ''exec_m_delay'' VARIABLE_INT None"

definition do_pause :: "s_event \<Rightarrow> sys \<Rightarrow> (s_event \<times> sys) option" where
  "do_pause ev s = do {
     (i, pa) \<leftarrow> fork_data ev;
     p \<leftarrow> process_at i pa s;
     (let vn = Some (pt_name (p_pt p));
          s_delay = initng_data_get_int_var (Some S_DELAY) vn (a_data (svc s i));
          ms_delay = initng_data_get_int_var (Some MS_DELAY) vn (a_data (svc s i))
      in Some (ev, add_effects ((if s_delay \<noteq> 0 then [Eff_sleep s_delay] else [])
           @ (if ms_delay \<noteq> 0 then [Eff_usleep ms_delay] else [])) s)) }"

definition pause_module_init :: "sys \<Rightarrow> int \<times> sys" where
  "pause_module_init s = (TRUE, hook ''initng_pause.c'' EVENT_AFTER_FORK ''do_pause'' (register_entries [S_DELAY, MS_DELAY] s))"

definition pause_module_unload :: "sys \<Rightarrow> sys" where
  "pause_module_unload s = initng_event_hook_unregister EVENT_AFTER_FORK ''do_pause'' (unregister_entries [S_DELAY, MS_DELAY] s)"

section \<open>suid\<close>

definition SUID :: s_entry where "SUID = S_Entry ''suid'' STRING None"

definition SGID :: s_entry where "SGID = S_Entry ''sgid'' STRING None"

definition adjust_env :: "sid \<Rightarrow> string \<Rightarrow> string \<Rightarrow> sys \<Rightarrow> sys" where
  "adjust_env i vn vv s =
     (if initng_data_is_var (Some ENV) (Some vn) (a_data (svc s i)) then s else svc_set_string_var ENV (Some vn) vv i s)"

text \<open>A user or a group that is not found is only counted in a variable that nothing reads.\<close>

definition do_suid :: "env \<Rightarrow> s_event \<Rightarrow> sys \<Rightarrow> (s_event \<times> sys) option" where
  "do_suid E ev s = do {
     (i, pa) \<leftarrow> fork_data ev;
     (let group = (case svc_get_string SGID i s of None \<Rightarrow> None | Some n \<Rightarrow> e_getgrnam E n);
          passwd = (case svc_get_string SUID i s of None \<Rightarrow> None | Some n \<Rightarrow> e_getpwnam E n);
          uid = (case passwd of None \<Rightarrow> 0 | Some p \<Rightarrow> pw_uid p);
          gid = (case group of Some g \<Rightarrow> g | None \<Rightarrow> (case passwd of None \<Rightarrow> 0 | Some p \<Rightarrow> pw_gid p));
          s = add_effects ((if gid \<noteq> 0 then [Eff_setgid gid] else [])
                @ (case passwd of None \<Rightarrow> [] | Some p \<Rightarrow> [Eff_initgroups (pw_name p) (pw_gid p)])
                @ (if uid \<noteq> 0 then [Eff_setuid uid] else [])) s
      in case passwd of
           Some p \<Rightarrow>
             Some (ev, if uid \<noteq> 0 then adjust_env i ''PATH'' ''/bin:/usr/bin''
               (adjust_env i ''HOME'' (pw_dir p) (adjust_env i ''USER'' (pw_name p) s)) else s)
         | None \<Rightarrow> Some (ev, s)) }"

definition suid_module_init :: "sys \<Rightarrow> int \<times> sys" where
  "suid_module_init s = (TRUE, hook ''initng_suid.c'' EVENT_AFTER_FORK ''do_suid'' (register_entries [SUID, SGID] s))"

definition suid_module_unload :: "sys \<Rightarrow> sys" where
  "suid_module_unload s = initng_event_hook_unregister EVENT_AFTER_FORK ''do_suid'' (unregister_entries [SUID, SGID] s)"

section \<open>stdout\<close>

definition STDOUT :: s_entry where "STDOUT = S_Entry ''stdout'' STRING None"
definition STDERR :: s_entry where "STDERR = S_Entry ''stderr'' STRING None"
definition STDALL :: s_entry where "STDALL = S_Entry ''stdall'' STRING None"
definition STDIN :: s_entry where "STDIN = S_Entry ''stdin'' STRING None"

definition open_fd :: "env \<Rightarrow> string option \<Rightarrow> sys \<Rightarrow> int" where
  "open_fd E path s = (case path of None \<Rightarrow> -1 | Some p \<Rightarrow> e_call E (Call_open p) s)"

definition setup_output :: "env \<Rightarrow> s_event \<Rightarrow> sys \<Rightarrow> (s_event \<times> sys) option" where
  "setup_output E ev s = do {
     (i, pa) \<leftarrow> fork_data ev;
     (let s_stdout = svc_get_string STDOUT i s; s_stderr = svc_get_string STDERR i s;
          s_stdall = svc_get_string STDALL i s; s_stdin = svc_get_string STDIN i s
      in if s_stdout = None \<and> s_stderr = None \<and> s_stdall = None \<and> s_stdin = None then Some (ev, s)
         else
           (let same = s_stdout \<noteq> None \<and> s_stderr = s_stdout;
                s_stdall = (if same then s_stdout else s_stdall);
                s_stdout = (if same then None else s_stdout);
                s_stderr = (if same then None else s_stderr);
                fd_stdall = open_fd E s_stdall s;
                fd_stdout = (if s_stdall = None then open_fd E s_stdout s else -1);
                fd_stderr = (if s_stdall = None then open_fd E s_stderr s else -1);
                fd_stdin = open_fd E s_stdin s
            in Some (ev, add_effects (
                 (if 2 < fd_stdall then [Eff_dup2 fd_stdall 1, Eff_dup2 fd_stdall 2, Eff_setfd fd_stdall True]
                  else (if 2 < fd_stdout then [Eff_dup2 fd_stdout 1] else [])
                    @ (if 2 < fd_stderr then [Eff_dup2 fd_stderr 2] else [])
                    @ [Eff_setfd fd_stdout True, Eff_setfd fd_stderr True])
                 @ (if 2 < fd_stdin then [Eff_dup2 fd_stdin 0, Eff_setfd fd_stdin True] else [])) s))) }"

definition stdout_module_init :: "sys \<Rightarrow> int \<times> sys" where
  "stdout_module_init s =
     (TRUE, hook ''initng_stdout.c'' EVENT_AFTER_FORK ''setup_output'' (register_entries [STDOUT, STDERR, STDALL, STDIN] s))"

definition stdout_module_unload :: "sys \<Rightarrow> sys" where
  "stdout_module_unload s =
     initng_event_hook_unregister EVENT_AFTER_FORK ''setup_output'' (unregister_entries [STDOUT, STDERR, STDALL, STDIN] s)"

section \<open>limit\<close>

text \<open>The variables of a resource, soft and hard, and the unit its numbers are in.\<close>

definition rlimit_entry :: "string \<Rightarrow> string \<Rightarrow> s_entry" where
  "rlimit_entry res kind = S_Entry (''rlimit_'' @ res @ ''_'' @ kind) INT_T None"

definition rlimits :: "(string \<times> int) list" where
  "rlimits = [(''as'', 1024), (''core'', 1024), (''cpu'', 1), (''data'', 1024), (''fsize'', 1024), (''memlock'', 1024),
     (''nofile'', 1), (''nproc'', 1), (''rss'', 1024), (''sigpending'', 1), (''stack'', 1024)]"

definition rlimit_entries :: "s_entry list" where
  "rlimit_entries = concat (map (\<lambda>(res, factor). [rlimit_entry res ''soft'', rlimit_entry res ''hard'']) rlimits)"

text \<open>The product of two ints, converted to the unsigned type of a limit.\<close>

definition limit_value :: "int \<Rightarrow> int \<Rightarrow> 64 word" where
  "limit_value n factor = word_of_int (sint (word_of_int (n * factor) :: 32 word))"

definition new_limits :: "sid \<Rightarrow> string \<Rightarrow> int \<Rightarrow> 64 word \<times> 64 word \<Rightarrow> sys \<Rightarrow> 64 word \<times> 64 word" where
  "new_limits i res factor l s =
     (let soft = rlimit_entry res ''soft''; hard = rlimit_entry res ''hard'';
          cur = (if is_set soft i s then limit_value (svc_get_int soft i s) factor else fst l);
          max = (if is_set hard i s then limit_value (svc_get_int hard i s) factor else snd l)
      in (cur, if max < cur then cur else max))"

definition set_limit :: "env \<Rightarrow> sid \<Rightarrow> string \<times> int \<Rightarrow> int \<times> sys \<Rightarrow> int \<times> sys" where
  "set_limit E i rt x =
     (let (res, factor) = rt; (ret, s) = x in
      if \<not> is_set (rlimit_entry res ''soft'') i s \<and> \<not> is_set (rlimit_entry res ''hard'') i s then (ret, s)
      else case e_getrlimit E res s of
        None \<Rightarrow> (ret - 1, s)
      | Some l \<Rightarrow>
          (let (cur, max) = new_limits i res factor l s
           in (if e_call E (Call_setrlimit res cur max) s \<noteq> 0 then ret - 1 else ret,
               add_effects [Eff_setrlimit res cur max] s)))"

definition do_limit :: "env \<Rightarrow> s_event \<Rightarrow> sys \<Rightarrow> (s_event \<times> sys) option" where
  "do_limit E ev s = do {
     (i, pa) \<leftarrow> fork_data ev;
     (let (ret, s) = fold (set_limit E i) rlimits (0, s) in Some (fork_failed (ret \<noteq> 0) ev, s)) }"

definition limit_module_init :: "sys \<Rightarrow> int \<times> sys" where
  "limit_module_init s = (TRUE, hook ''initng_limit.c'' EVENT_AFTER_FORK ''do_limit'' (register_entries rlimit_entries s))"

definition limit_module_unload :: "sys \<Rightarrow> sys" where
  "limit_module_unload s = unregister_entries rlimit_entries (initng_event_hook_unregister EVENT_AFTER_FORK ''do_limit'' s)"

section \<open>The environment\<close>

text \<open>A string of the environment with the size of the block that was allocated for it.\<close>

type_synonym env_block = "nat \<times> string"

definition literal :: "string \<Rightarrow> env_block" where "literal str = (length str + 1, str)"

definition initng_environ :: "string \<Rightarrow> string list" where
  "initng_environ version = [''INITNG='' @ version, ''INITNG_MODULE_DIR='' @ INITNG_MODULE_DIR,
     ''INITNG_ROOT='' @ INITNG_ROOT, ''PATH=/bin:/usr/bin:/sbin:/usr/sbin:/usr/local/bin:/opt/bin'',
     ''HOME=/root'', ''USER=root'', ''TERM=linux'']"

definition INITNG_CONSOLE :: string where "INITNG_CONSOLE = ''/dev/console''"

definition env_allocate :: nat where "env_allocate = 114"

text \<open>The loop over the variables of type ENV; an entry without a variable name is a read through
  NULL.\<close>

fun env_vars :: "nat \<Rightarrow> data_head \<Rightarrow> nat option \<Rightarrow> env_block list \<Rightarrow> env_block list option" where
  "env_vars 0 d itt es = None"
| "env_vars (Suc k) d itt es =
     (case initng_data_get_next_var (Some ENV) None d itt of
        None \<Rightarrow> Some es
      | Some c \<Rightarrow>
          (case val_s (d_t c) of
             None \<Rightarrow> Some es
           | Some v \<Rightarrow>
               (if length es + 1 < env_allocate then do {
                  vn \<leftarrow> d_vn c;
                  env_vars k d (Some (d_addr c)) (es @ [(1 + length vn + length v, vn @ ''='' @ v)]) }
                else env_vars k d (Some (d_addr c)) es)))"

definition initng_env_new :: "env \<Rightarrow> string \<Rightarrow> sid \<Rightarrow> sys \<Rightarrow> env_block list option" where
  "initng_env_new E version i s =
     (let a = svc s i;
          console = (case g_dev_console s of None \<Rightarrow> INITNG_CONSOLE | Some c \<Rightarrow> c);
          es = map literal (initng_environ version)
            @ [(32, ''INITNG_PID='' @ show_int (e_getpid E)),
               (9 + length (a_name a), ''SERVICE='' @ a_name a),
               (6 + length (a_name a), ''NAME='' @ initng_string_basename (a_name a)),
               (9 + length console, ''CONSOLE='' @ console)]
            @ (case g_runlevel s of None \<Rightarrow> [] | Some r \<Rightarrow> [(10 + length r, ''RUNLEVEL='' @ r)])
            @ (case g_old_runlevel s of None \<Rightarrow> [] | Some r \<Rightarrow> [(14 + length r, ''PREVLEVEL='' @ r)])
      in env_vars (Suc (length (visible (a_data a)))) (a_data a) None es)"

text \<open>The child of \<open>simple_exec_fork\<close>: it exits if a hook fails, and otherwise executes the program.\<close>

definition simple_exec_child :: "env \<Rightarrow> string \<Rightarrow> nat \<Rightarrow> sid \<Rightarrow> string list \<Rightarrow> sys \<Rightarrow> sys option" where
  "simple_exec_child E version pa i argv s = do {
     s \<leftarrow> fork_child i pa s;
     (ok, s) \<leftarrow> initng_fork_aforkhooks E i pa s;
     (if \<not> ok then Some (add_effects [Eff_exit 1] s)
      else do {
        environ \<leftarrow> initng_env_new E version i s;
        Some (add_effects [Eff_exec (hd argv) argv] s) }) }"

section \<open>Lemmas\<close>

lemma set_limit_effects:
  assumes "set_limit E i (res, factor) (ret, s) = (ret', t)"
  shows "g_effects t = g_effects s \<or> (\<exists>l. g_effects t = g_effects s @
      [Eff_setrlimit res (fst (new_limits i res factor l s)) (snd (new_limits i res factor l s))])"
    and "svc t = svc s"
proof -
  show "g_effects t = g_effects s \<or> (\<exists>l. g_effects t = g_effects s @
      [Eff_setrlimit res (fst (new_limits i res factor l s)) (snd (new_limits i res factor l s))])"
  proof (cases "e_getrlimit E res s")
    case None
    with assms show ?thesis by (auto simp: set_limit_def split: if_splits)
  next
    case (Some l)
    with assms have "g_effects t = g_effects s \<or> g_effects t = g_effects s @
        [Eff_setrlimit res (fst (new_limits i res factor l s)) (snd (new_limits i res factor l s))]"
      by (auto simp: set_limit_def add_effects_def case_prod_unfold Let_def split: if_splits)
    then show ?thesis by blast
  qed
  from assms show "svc t = svc s"
    by (auto simp: set_limit_def add_effects_def case_prod_unfold Let_def split: if_splits option.splits)
qed

lemma int_to_limit:
  assumes "0 \<le> k" "k < 2 ^ 31"
  shows "uint (word_of_int (sint (word_of_int k :: 32 word)) :: 64 word) = k"
proof -
  have "sint (word_of_int k :: 32 word) = k"
    using assms by (simp add: signed_of_int signed_take_bit_int_eq_self)
  with assms show ?thesis by (simp add: unsigned_of_int take_bit_int_eq_self)
qed

lemma limit_value_exact: "0 \<le> n * factor \<Longrightarrow> n * factor < 2 ^ 31 \<Longrightarrow> uint (limit_value n factor) = n * factor"
  unfolding limit_value_def by (rule int_to_limit)

text \<open>The product is one of ints: four gigabytes in units of 1024 are a limit of zero.\<close>

lemma limit_value_wraps: "limit_value 4194304 1024 = 0"
  by (simp add: limit_value_def)

lemma new_limits_ordered: "fst (new_limits i res factor l s) \<le> snd (new_limits i res factor l s)"
  by (simp add: new_limits_def Let_def not_less)

section \<open>Properties\<close>

text \<open>C29: the limits the child process sets before it executes the program. Whatever the variables of
  the service and the limits in force are, everything the hook of the module limit asks of the system
  is to set the limit of a resource of its table, each with a soft limit not above the hard one; and
  where the service has a soft limit whose product with the unit of the resource fits a signed int, the
  soft limit is exactly that product. A larger product wraps around.\<close>

theorem limits_set:
  assumes "do_limit E ev s = Some (ev', t)" and "fork_data ev = Some (i, pa)"
  shows "\<exists>es. g_effects t = g_effects s @ es \<and> (\<forall>e \<in> set es. \<exists>res factor cur max. e = Eff_setrlimit res cur max
    \<and> (res, factor) \<in> set rlimits \<and> cur \<le> max
    \<and> (let n = svc_get_int (rlimit_entry res ''soft'') i s in
       is_set (rlimit_entry res ''soft'') i s \<and> 0 \<le> n * factor \<and> n * factor < 2 ^ 31 \<longrightarrow> uint cur = n * factor))"
proof -
  define ok where "ok e \<longleftrightarrow> (\<exists>res factor cur max. e = Eff_setrlimit res cur max \<and> (res, factor) \<in> set rlimits \<and> cur \<le> max
    \<and> (let n = svc_get_int (rlimit_entry res ''soft'') i s in
       is_set (rlimit_entry res ''soft'') i s \<and> 0 \<le> n * factor \<and> n * factor < 2 ^ 31 \<longrightarrow> uint cur = n * factor))" for e
  have new: "ok (Eff_setrlimit res (fst (new_limits i res factor l u)) (snd (new_limits i res factor l u)))"
    if "(res, factor) \<in> set rlimits" "svc u = svc s" for res factor l u
  proof -
    have "fst (new_limits i res factor l u) = fst (new_limits i res factor l s)"
      using that(2) by (simp add: new_limits_def Let_def is_set_def svc_get_int_def)
    moreover have "is_set (rlimit_entry res ''soft'') i s \<Longrightarrow> fst (new_limits i res factor l s)
        = limit_value (svc_get_int (rlimit_entry res ''soft'') i s) factor"
      by (simp add: new_limits_def Let_def)
    ultimately show ?thesis
      unfolding ok_def using that(1) new_limits_ordered [of i res factor l u] limit_value_exact by (auto simp: Let_def)
  qed
  have "\<exists>es. g_effects (snd (fold (set_limit E i) ls (ret, u))) = g_effects u @ es \<and> (\<forall>e \<in> set es. ok e)"
    if "set ls \<subseteq> set rlimits" "svc u = svc s" for ls ret u
    using that
  proof (induction ls arbitrary: ret u)
    case (Cons rf ls)
    obtain res factor where rf: "rf = (res, factor)" by (cases rf)
    obtain ret' v where v: "set_limit E i rf (ret, u) = (ret', v)" by (cases "set_limit E i rf (ret, u)")
    note step = set_limit_effects [OF v [unfolded rf]]
    from step(2) Cons.prems(2) have "svc v = svc s" by simp
    with Cons.IH [of v ret'] Cons.prems(1) obtain es where es:
      "g_effects (snd (fold (set_limit E i) ls (ret', v))) = g_effects v @ es" "\<forall>e \<in> set es. ok e" by auto
    from step(1) show ?case
    proof
      assume "g_effects v = g_effects u"
      with es v show ?thesis by auto
    next
      assume "\<exists>l. g_effects v = g_effects u @ [Eff_setrlimit res (fst (new_limits i res factor l u)) (snd (new_limits i res factor l u))]"
      then obtain l where "g_effects v = g_effects u @ [Eff_setrlimit res (fst (new_limits i res factor l u)) (snd (new_limits i res factor l u))]" ..
      with es v new [of res factor u l] Cons.prems rf show ?thesis by auto
    qed
  qed simp
  from this [of rlimits s 0] assms show ?thesis unfolding ok_def
    by (auto simp: do_limit_def case_prod_unfold Let_def)
qed

theorem limits_set_witness:
  "let s = tiny_sys [(tiny_service ''a'' NEW [])\<lparr>a_data := Data_Head [\<lparr>d_addr = 0, d_t = U_i 64, d_type = Some (rlimit_entry ''nofile'' ''soft''),
       d_vn = None, d_linked = True\<rparr>] None\<rparr>];
     E = (bare_env 20)\<lparr>e_getrlimit := (\<lambda>_ _. Some (16, 32))\<rparr>
   in \<exists>ev t cur max. do_limit E (event EVENT_AFTER_FORK (ED_process 0 0)) s = Some (ev, t)
     \<and> g_effects t = [Eff_setrlimit ''nofile'' cur max] \<and> cur \<le> max \<and> uint cur = 64"
proof -
  define s where "s = tiny_sys [(tiny_service ''a'' NEW [])\<lparr>a_data := Data_Head [\<lparr>d_addr = 0, d_t = U_i 64,
    d_type = Some (rlimit_entry ''nofile'' ''soft''), d_vn = None, d_linked = True\<rparr>] None\<rparr>]"
  define E where "E = (bare_env 20)\<lparr>e_getrlimit := (\<lambda>_ _. Some (16, 32))\<rparr>"
  let ?ev = "event EVENT_AFTER_FORK (ED_process 0 0)"
  have set: "is_set (rlimit_entry res k) 0 (add_effects es s) \<longleftrightarrow> rlimit_entry ''nofile'' ''soft'' = rlimit_entry res k" for res k es
    by (auto simp: s_def add_effects_def is_set_def rlimit_entry_def initng_data_is_var_def entry_match_def Let_def split: if_splits)
  then have set0: "is_set (rlimit_entry res k) 0 s \<longleftrightarrow> rlimit_entry ''nofile'' ''soft'' = rlimit_entry res k" for res k
    using set [of res k "[]"] by (simp add: add_effects_def)
  have num: "svc_get_int (rlimit_entry ''nofile'' ''soft'') 0 s = 64" "g_effects s = []"
    by (simp_all add: s_def tiny_sys_def global_zero_def svc_get_int_def rlimit_entry_def initng_data_get_int_var_def entry_match_def)
  have other: "set_limit E 0 (res, factor) (ret, add_effects es s) = (ret, add_effects es s)"
    if "res \<in> {''as'', ''core'', ''cpu'', ''data'', ''fsize'', ''memlock'', ''nproc'', ''rss'', ''sigpending'', ''stack''}" for res factor ret es
  proof -
    have "\<not> is_set (rlimit_entry res ''soft'') 0 (add_effects es s)" "\<not> is_set (rlimit_entry res ''hard'') 0 (add_effects es s)"
      unfolding set using that by (auto simp: rlimit_entry_def)
    then show ?thesis by (simp add: set_limit_def)
  qed
  define l where "l = new_limits 0 ''nofile'' 1 (16, 32) (add_effects [] s)"
  have one: "set_limit E 0 (''nofile'', 1) (ret, add_effects [] s)
      = (ret, add_effects [Eff_setrlimit ''nofile'' (fst l) (snd l)] s)" for ret
    by (simp add: set_limit_def set E_def bare_env_def l_def case_prod_unfold Let_def) (simp add: add_effects_def)
  have "fold (set_limit E 0) rlimits (0, add_effects [] s) = (0, add_effects [Eff_setrlimit ''nofile'' (fst l) (snd l)] s)"
    by (simp add: rlimits_def other one)
  moreover have "add_effects [] s = s" by (simp add: add_effects_def)
  ultimately have t: "do_limit E ?ev s = Some (fork_failed False ?ev, add_effects [Eff_setrlimit ''nofile'' (fst l) (snd l)] s)"
    "g_effects (add_effects [Eff_setrlimit ''nofile'' (fst l) (snd l)] s) = [Eff_setrlimit ''nofile'' (fst l) (snd l)]"
    using num(2) by (simp_all add: do_limit_def fork_data_def event_def)
  from limits_set [OF t(1), of 0 0] t(2) num set0 [of "''nofile''" "''soft''"] have "fst l \<le> snd l \<and> uint (fst l) = 64"
    by (auto simp: fork_data_def event_def rlimits_def Let_def)
  with t show ?thesis unfolding s_def [symmetric] E_def [symmetric] Let_def by blast
qed

end
