(* ===== verification/Monitors.thy ===== *)
theory Monitors
  imports Stcmd
begin

text \<open>
  Modules that watch the world outside the services: netdev keeps a service for every network
  interface, initctl takes the requests of the program init, idleprobe holds services back until
  the processor is idle, critical ends the system when a critical service fails, logfile and sysreq
  write to a file and to the console.
\<close>

section \<open>netdev\<close>

definition NETDEV :: stype_h where
  "NETDEV = \<lparr>sty_name = ''netdev'', sty_hidden = True, sty_start = None, sty_stop = None, sty_restart = None\<rparr>"

definition NIC_STARTING :: a_state_h where "NIC_STARTING = plain_state ''NIC_STARTING'' IS_STARTING"
definition NIC_UP :: a_state_h where "NIC_UP = plain_state ''NIC_UP'' IS_UP"
definition NIC_DOWN :: a_state_h where "NIC_DOWN = plain_state ''NIC_DOWN'' IS_DOWN"

definition devs_reset :: "s_netdev list \<Rightarrow> s_netdev list" where
  "devs_reset = map (\<lambda>d. d\<lparr>nd_status := 0\<rparr>)"

fun mark_known :: "string \<Rightarrow> s_netdev list \<Rightarrow> s_netdev list option" where
  "mark_known name [] = None"
| "mark_known name (d # ds) =
     (if nd_dev d = Some name then Some (d\<lparr>nd_status := 1\<rparr> # ds) else map_option (Cons d) (mark_known name ds))"

fun mark_free :: "string \<Rightarrow> s_netdev list \<Rightarrow> s_netdev list" where
  "mark_free name [] = []"
| "mark_free name (d # ds) =
     (if nd_dev d = None then d\<lparr>nd_dev := Some name, nd_status := 1\<rparr> # ds else d # mark_free name ds)"

definition set_found :: "string \<Rightarrow> s_netdev list \<Rightarrow> s_netdev list" where
  "set_found name ds = (case mark_known name ds of Some ds \<Rightarrow> ds | None \<Rightarrow> mark_free name ds)"

definition net_create :: "string \<Rightarrow> sys \<Rightarrow> sid option \<times> sys" where
  "net_create name s =
     (let (i, s) = initng_active_db_new name s;
          s = upd_svc i (\<lambda>a. a\<lparr>a_type := Some NETDEV\<rparr>) s;
          (r, s) = initng_active_db_register i s
      in if r = FALSE then (None, initng_active_db_free i s) else (Some i, s))"

definition find_or_create :: "string \<Rightarrow> sys \<Rightarrow> sid option \<times> sys" where
  "find_or_create name s =
     (case initng_active_db_find_by_name name s of
        Some i \<Rightarrow> (if a_type (svc s i) = Some NETDEV then Some i else None, s)
      | None \<Rightarrow> net_create name s)"

definition net_name :: "string \<Rightarrow> string" where "net_name name = ''device/'' @ take 10 name"

definition net_set_up :: "string \<Rightarrow> sys \<Rightarrow> int \<times> sys" where
  "net_set_up name s =
     (case find_or_create (net_name name) s of
        (None, s) \<Rightarrow> (FALSE, s)
      | (Some i, s) \<Rightarrow> (TRUE, mark i NIC_UP s))"

definition net_remove :: "string \<Rightarrow> sys \<Rightarrow> sys" where
  "net_remove name s =
     (case initng_active_db_find_by_name (net_name name) s of
        None \<Rightarrow> s
      | Some i \<Rightarrow> if a_type (svc s i) \<noteq> Some NETDEV then s else mark i NIC_DOWN s)"

definition handle_dev :: "nat \<Rightarrow> sys \<Rightarrow> sys" where
  "handle_dev n s =
     (let d = m_devs s ! n in
      case nd_dev d of
        None \<Rightarrow> s
      | Some name \<Rightarrow>
          if nd_status d = 1 then snd (net_set_up name s)
          else (let s = net_remove name s in s\<lparr>m_devs := (m_devs s)[n := d\<lparr>nd_dev := None\<rparr>]\<rparr>))"

definition handle_devs :: "sys \<Rightarrow> sys" where
  "handle_devs s = fold handle_dev [0..<20] s"

definition probe_network_devices :: "env \<Rightarrow> s_event \<Rightarrow> sys \<Rightarrow> (s_event \<times> sys) option" where
  "probe_network_devices E ev s =
     (if ev_type ev \<noteq> EVENT_MAIN then None
      else if g_sys_state s = STATE_STOPPING then Some (ev, s)
      else
        (let s = s\<lparr>m_devs := devs_reset (m_devs s)\<rparr>;
             netsock = e_call E Call_socket s
         in if netsock < 0 then Some (ev, s)
            else case e_ifconf E s of
              None \<Rightarrow> Some (ev, s)
            | Some names \<Rightarrow>
                Some (ev, initng_global_set_sleep 120 (add_effects [Eff_close netsock]
                  (handle_devs (s\<lparr>m_devs := fold set_found names (m_devs s)\<rparr>))))))"

definition system_stopping :: "s_event \<Rightarrow> sys \<Rightarrow> (s_event \<times> sys) option" where
  "system_stopping ev s =
     (case ev_data ev of
        ED_sys_state st \<Rightarrow>
          (if ev_type ev \<noteq> EVENT_SYSTEM_CHANGE then None
           else if st \<noteq> STATE_STOPPING then Some (ev, s)
           else Some (ev, fold (\<lambda>i s. if a_type (svc s i) = Some NETDEV then mark i NIC_DOWN s else s) (rev (g_active_db s)) s))
      | _ \<Rightarrow> None)"

definition netdev_module_init :: "sys \<Rightarrow> int \<times> sys" where
  "netdev_module_init s =
     (TRUE, hook ''initng_netdev.c'' EVENT_SYSTEM_CHANGE ''system_stopping''
        (hook ''initng_netdev.c'' EVENT_MAIN ''probe_network_devices''
          (initng_service_type_register NETDEV (register_states [NIC_STARTING, NIC_UP, NIC_DOWN]
            (s\<lparr>m_devs := replicate 20 \<lparr>nd_status = 0, nd_dev = None\<rparr>\<rparr>)))))"

definition netdev_module_unload :: "sys \<Rightarrow> sys" where
  "netdev_module_unload s =
     initng_service_type_unregister NETDEV
       (initng_event_hook_unregister EVENT_SYSTEM_CHANGE ''system_stopping''
         (initng_event_hook_unregister EVENT_MAIN ''probe_network_devices''
           (unregister_states [NIC_STARTING, NIC_UP, NIC_DOWN] s)))"

section \<open>initctl\<close>

definition INIT_FIFO :: string where "INIT_FIFO = ''/dev/initctl''"

definition ENOENT :: int where "ENOENT = 2"

definition initctl_control_close :: "sys \<Rightarrow> sys" where
  "initctl_control_close s =
     (if 2 < m_initctl_fd s then add_effects [Eff_close (m_initctl_fd s)] s\<lparr>m_initctl_fd := -1\<rparr> else s)"

text \<open>The call of stat gives the error number, the call of fstat zero if the descriptor is still the
  file at the path.\<close>

definition initctl_control_open :: "env \<Rightarrow> sys \<Rightarrow> int \<times> sys" where
  "initctl_control_open E s =
     (let s = (if e_call E (Call_stat INIT_FIFO) s = ENOENT then add_effects [Eff_mkfifo INIT_FIFO] s else s);
          s = (if 2 < m_initctl_fd s \<and> e_call E (Call_fstat (m_initctl_fd s)) s \<noteq> 0 then initctl_control_close s else s)
      in if m_initctl_fd s < 3 then
           (let s = s\<lparr>m_initctl_fd := e_call E (Call_open INIT_FIFO) s\<rparr> in
            if m_initctl_fd s < 3 then (FALSE, s)
            else if e_call E (Call_fifo (m_initctl_fd s)) s = 0
              then (FALSE, (add_effects [Eff_close (m_initctl_fd s)] s)\<lparr>m_initctl_fd := -1\<rparr>)
            else (TRUE, hook ''initng_initctl.c'' EVENT_IO_WATCHER ''pipe_io_handler''
                    (add_effects [Eff_setfd (m_initctl_fd s) True] s)))
         else (TRUE, s))"

definition initng_reload :: "env \<Rightarrow> sys \<Rightarrow> sys option" where
  "initng_reload E s =
     (case initng_command_find_by_command_id (CHR ''c'') s of
        None \<Rightarrow> Some s
      | Some reload \<Rightarrow>
          (case cmd_call reload of
             None \<Rightarrow> Some s
           | Some f \<Rightarrow> map_option snd (e_command E f None s)))"

definition INIT_MAGIC :: int where "INIT_MAGIC = 50927977"

definition INIT_CMD_RUNLVL :: int where "INIT_CMD_RUNLVL = 1"

definition in_chars :: "int \<Rightarrow> string \<Rightarrow> bool" where
  "in_chars r cs \<longleftrightarrow> r \<in> set (map of_char cs)"

definition init_runlevel :: "env \<Rightarrow> int \<Rightarrow> sys \<Rightarrow> sys option" where
  "init_runlevel E r s =
     (if in_chars r ''0'' then map_option snd (stop_then E THEN_POWEROFF s)
      else if in_chars r ''6'' then map_option snd (stop_then E THEN_REBOOT s)
      else if in_chars r ''Uu'' then initng_reload E s
      else if in_chars r ''Qq'' then Some s
      else if in_chars r ''Ss'' then do {
        s \<leftarrow> initng_main_set_runlevel E ''single'' (s\<lparr>g_when_out := THEN_RESTART\<rparr>);
        (x, s) \<leftarrow> initng_handler_stop_all E s;
        Some s }
      else map_option snd (initng_handler_start_new_service_named E (''runlevel'' @ [char_of (r mod 256)]) s))"

definition parse_control_input :: "env \<Rightarrow> sys \<Rightarrow> sys option" where
  "parse_control_input E s =
     (case e_initctl E (m_initctl_fd s) s of
        Initctl_got request \<Rightarrow>
          (if ir_magic request \<noteq> INIT_MAGIC then Some s
           else if ir_cmd request \<noteq> INIT_CMD_RUNLVL then Some s
           else init_runlevel E (ir_runlevel request) s)
      | _ \<Rightarrow> Some s)"

text \<open>The flag of the event data tells the call after select from the check before it. Only an event
  of type EVENT_IO_WATCHER has data of this kind.\<close>

definition pipe_io_handler :: "env \<Rightarrow> s_event \<Rightarrow> sys \<Rightarrow> (s_event \<times> sys) option" where
  "pipe_io_handler E ev s =
     (case ev_data ev of
        ED_io_watch call added readset writeset \<Rightarrow>
          (let fd = m_initctl_fd s in
           if ev_type ev \<noteq> EVENT_IO_WATCHER then None
           else if \<not> call then
             (if fd \<le> 2 then Some (ev, s)
              else if \<not> e_still_open E fd s then Some (ev, s\<lparr>m_initctl_fd := -1\<rparr>)
              else Some (ev\<lparr>ev_data := ED_io_watch call (added + 1) (fd # readset) writeset\<rparr>, s))
           else if added = 0 \<or> fd \<le> 2 \<or> fd \<notin> set readset then Some (ev, s)
           else do {
             s \<leftarrow> parse_control_input E s;
             Some (ev\<lparr>ev_data := ED_io_watch call (added - 1) readset writeset\<rparr>, s) })
      | _ \<Rightarrow> None)"

definition UTMP_FILE :: string where "UTMP_FILE = ''/var/run/utmp''"

definition makeutmp :: "env \<Rightarrow> int \<Rightarrow> sys \<Rightarrow> sys" where
  "makeutmp E runlevel s =
     (if e_call E (Call_access UTMP_FILE) s < 0 then s else add_effects [Eff_pututline runlevel] s)"

definition SIGHUP :: int where "SIGHUP = 1"

definition hup_request :: "env \<Rightarrow> s_event \<Rightarrow> sys \<Rightarrow> (s_event \<times> sys) option" where
  "hup_request E ev s =
     (case ev_data ev of
        ED_int sig \<Rightarrow>
          (if ev_type ev \<noteq> EVENT_SIGNAL then None
           else Some (ev, if sig = SIGHUP then snd (initctl_control_open E s) else s))
      | _ \<Rightarrow> None)"

definition is_system_up :: "env \<Rightarrow> s_event \<Rightarrow> sys \<Rightarrow> (s_event \<times> sys) option" where
  "is_system_up E ev s =
     (case ev_data ev of
        ED_sys_state st \<Rightarrow>
          (if ev_type ev \<noteq> EVENT_SYSTEM_CHANGE then None
           else Some (ev, if st = STATE_UP \<and> \<not> m_utmp_stored s then makeutmp E 3 s else s))
      | _ \<Rightarrow> None)"

definition initctl_module_init :: "env \<Rightarrow> sys \<Rightarrow> int \<times> sys" where
  "initctl_module_init E s =
     (TRUE, hook ''initng_initctl.c'' EVENT_SYSTEM_CHANGE ''is_system_up''
        (hook ''initng_initctl.c'' EVENT_SIGNAL ''hup_request'' (snd (initctl_control_open E (s\<lparr>m_utmp_stored := False\<rparr>)))))"

definition initctl_module_unload :: "sys \<Rightarrow> sys" where
  "initctl_module_unload s =
     initng_event_hook_unregister EVENT_SIGNAL ''hup_request''
       (initng_event_hook_unregister EVENT_SYSTEM_CHANGE ''is_system_up''
         (initng_event_hook_unregister EVENT_IO_WATCHER ''pipe_io_handler'' (initctl_control_close s)))"

section \<open>idleprobe\<close>

definition WAIT_FOR_CPU_IDLE :: s_entry where "WAIT_FOR_CPU_IDLE = S_Entry ''wait_for_cpu_idle'' SET None"

definition WAIT_FOR_CPU_COUNT :: s_entry where "WAIT_FOR_CPU_COUNT = S_Entry ''wait_for_cpu_below'' INT_T None"

definition DEFAULT_IDLE :: int where "DEFAULT_IDLE = 10"

text \<open>The differences to the last numbers, read as signed numbers; time that runs backwards counts
  for the idle time only as none.\<close>

definition cpu_frames :: "64 word list \<Rightarrow> 64 word list \<Rightarrow> int list" where
  "cpu_frames cur old =
     map (\<lambda>n. if n = 3 \<and> \<not> old ! n < cur ! n then 0 else sint (cur ! n - old ! n)) [0..<7]"

definition cpu_scale :: "int list \<Rightarrow> int" where
  "cpu_scale frm = (let tot = sum_list frm in c_div 100000 (if tot < 1 then 1 else tot))"

text \<open>One probe with the numbers of this second: the answer and what is kept. The old numbers stay
  when the answer is yes.\<close>

definition idle_step :: "int \<Rightarrow> idle_state \<Rightarrow> bool \<times> idle_state" where
  "idle_step wait d =
     (let frm = cpu_frames (id_cur d) (id_old d);
          cnt = (if id_old d ! 0 = 0 then id_cnt d
                 else if 90000 < frm ! 3 * cpu_scale frm then id_cnt d + 1 else 0)
      in if id_old d ! 0 \<noteq> 0 \<and> 90000 < frm ! 3 * cpu_scale frm \<and> wait < cnt then (True, d\<lparr>id_cnt := cnt\<rparr>)
         else (False, d\<lparr>id_cnt := cnt, id_old := id_cur d\<rparr>))"

text \<open>If /proc/stat cannot be opened its descriptor is asked for through NULL.\<close>

definition is_cpu_idle :: "env \<Rightarrow> int \<Rightarrow> sys \<Rightarrow> (int \<times> sys) option" where
  "is_cpu_idle E wait s =
     (if wait < 0 then Some (FALSE, s)
      else if tv_sec (g_now s) = id_last (m_idle s) then Some (FALSE, initng_global_set_sleep 1 s)
      else
        (let d = (m_idle s)\<lparr>id_last := tv_sec (g_now s)\<rparr> in
         if \<not> id_open d \<and> e_call E (Call_fopen ''/proc/stat'') s = 0 then None
         else
           (let d = d\<lparr>id_open := True\<rparr> in
            case e_cpu_line E s of
              None \<Rightarrow> Some (FALSE, s\<lparr>m_idle := d\<rparr>)
            | Some line \<Rightarrow>
                (if length line < 4 then Some (FALSE, s\<lparr>m_idle := d\<lparr>id_cur := line @ drop (length line) (id_cur d)\<rparr>\<rparr>)
                 else
                   (let (idle, d) = idle_step wait (d\<lparr>id_cur := take 7 line @ drop (length line) (id_cur d)\<rparr>);
                        s = s\<lparr>m_idle := d\<rparr>
                    in Some (if idle then (TRUE, s) else (FALSE, initng_global_set_sleep 1 s)))))))"

definition check_cpu_idle :: "env \<Rightarrow> s_event \<Rightarrow> sys \<Rightarrow> (s_event \<times> sys) option" where
  "check_cpu_idle E ev s = do {
     i \<leftarrow> event_service EVENT_START_DEP_MET ev;
     (let value = svc_get_int WAIT_FOR_CPU_COUNT i s in do {
        (r, s) \<leftarrow> (if 0 < value then is_cpu_idle E value s else Some (TRUE, s));
        (if r < TRUE then Some (ev\<lparr>ev_status := FAILED\<rparr>, s)
         else if is_set WAIT_FOR_CPU_IDLE i s then do {
           (r, s) \<leftarrow> is_cpu_idle E DEFAULT_IDLE s;
           Some (if r < TRUE then ev\<lparr>ev_status := FAILED\<rparr> else ev, s) }
         else Some (ev, s)) }) }"

definition idleprobe_module_init :: "sys \<Rightarrow> int \<times> sys" where
  "idleprobe_module_init s =
     (TRUE, hook ''initng_idleprobe.c'' EVENT_START_DEP_MET ''check_cpu_idle''
        (register_entries [WAIT_FOR_CPU_IDLE, WAIT_FOR_CPU_COUNT] s))"

definition idleprobe_module_unload :: "sys \<Rightarrow> sys" where
  "idleprobe_module_unload s =
     initng_event_hook_unregister EVENT_START_DEP_MET ''check_cpu_idle''
       (unregister_entries [WAIT_FOR_CPU_IDLE, WAIT_FOR_CPU_COUNT] s)"

section \<open>critical, logfile, sysreq\<close>

definition CRITICAL :: s_entry where "CRITICAL = S_Entry ''critical'' SET None"

text \<open>The login does not come back, so a critical failure has no result.\<close>

definition check_critical :: "s_event \<Rightarrow> sys \<Rightarrow> (s_event \<times> sys) option" where
  "check_critical ev s = do {
     i \<leftarrow> event_service EVENT_IS_CHANGE ev;
     (if GET_STATE s i \<noteq> IS_FAILED \<or> \<not> is_set CRITICAL i s then Some (ev, s) else None) }"

definition critical_module_init :: "sys \<Rightarrow> int \<times> sys" where
  "critical_module_init s = (TRUE, hook ''initng_critical.c'' EVENT_IS_CHANGE ''check_critical'' (register_entries [CRITICAL] s))"

definition critical_module_unload :: "sys \<Rightarrow> sys" where
  "critical_module_unload s = initng_event_hook_unregister EVENT_IS_CHANGE ''check_critical'' (unregister_entries [CRITICAL] s)"

definition LOGFILE :: s_entry where "LOGFILE = S_Entry ''logfile'' STRING None"

definition program_output :: "env \<Rightarrow> s_event \<Rightarrow> sys \<Rightarrow> (s_event \<times> sys) option" where
  "program_output E ev s =
     (case ev_data ev of
        ED_buffer i pa n buffer_pos \<Rightarrow>
          (if ev_type ev \<noteq> EVENT_BUFFER_WATCHER then None
           else case svc_get_string LOGFILE i s of
             None \<Rightarrow> Some (ev, s)
           | Some filename \<Rightarrow>
               (let fd = e_call E (Call_open filename) s in
                if fd < 1 then Some (ev, s) else Some (ev, add_effects [Eff_write filename buffer_pos, Eff_close fd] s)))
      | _ \<Rightarrow> None)"

definition logfile_module_init :: "sys \<Rightarrow> int \<times> sys" where
  "logfile_module_init s = (TRUE, hook ''initng_logfile.c'' EVENT_BUFFER_WATCHER ''program_output'' (register_entries [LOGFILE] s))"

definition logfile_module_unload :: "sys \<Rightarrow> sys" where
  "logfile_module_unload s = initng_event_hook_unregister EVENT_BUFFER_WATCHER ''program_output'' (unregister_entries [LOGFILE] s)"

definition SIGWINCH :: int where "SIGWINCH = 28"

definition pad_right :: "nat \<Rightarrow> string \<Rightarrow> string" where
  "pad_right n str = str @ replicate (n - length str) (CHR '' '')"

fun e_is_val :: "e_is \<Rightarrow> int" where
  "e_is_val IS_NEW = 0"
| "e_is_val IS_UP = 1"
| "e_is_val IS_DOWN = 2"
| "e_is_val IS_FAILED = 3"
| "e_is_val IS_STARTING = 4"
| "e_is_val IS_STOPPING = 5"
| "e_is_val IS_WAITING = 6"

definition sysreq_row :: "sys \<Rightarrow> sid \<Rightarrow> string" where
  "sysreq_row s i =
     (let st = a_current_state (svc s i)
      in '' '' @ pad_right 36 (a_name (svc s i)) @ '' : '' @ pad_right 15 (st_name st) @ '' ('' @ show_int (e_is_val (st_is st)) @ '')''
         @ [CHR 0x0A])"

definition sysreq :: "s_event \<Rightarrow> sys \<Rightarrow> (s_event \<times> sys) option" where
  "sysreq ev s =
     (case ev_data ev of
        ED_int sig \<Rightarrow>
          (if ev_type ev \<noteq> EVENT_SIGNAL then None
           else if sig \<noteq> SIGWINCH then Some (ev, s)
           else Some (ev, add_effects (
             [Eff_print ('' '' @ pad_right 36 ''Service'' @ ''   '' @ pad_right 15 ''State'' @ '' (I)'' @ [CHR 0x0A]),
              Eff_print ('' '' @ replicate 58 (CHR ''-'') @ [CHR 0x0A])]
             @ map (\<lambda>i. Eff_print (sysreq_row s i)) (rev (g_active_db s))) s))
      | _ \<Rightarrow> None)"

definition sysreq_module_init :: "sys \<Rightarrow> int \<times> sys" where
  "sysreq_module_init s = (TRUE, hook ''initng_sysreq.c'' EVENT_SIGNAL ''sysreq'' s)"

definition sysreq_module_unload :: "sys \<Rightarrow> sys" where
  "sysreq_module_unload s = initng_event_hook_unregister EVENT_SIGNAL ''sysreq'' s"

end
