(* ===== verification/Client_Safety.thy ===== *)
theory Client_Safety
  imports Module_Safety History After_Fork Monitors
begin

text \<open>
  The modules that bring services in from outside, take commands, watch the system and prepare the
  child processes keep the invariant of the service memory. A command may free services, so it is
  only required to keep the invariant itself.
\<close>

section \<open>The module loader\<close>

lemma later_shift [okay_rules]:
  assumes "later s0 s"
  shows "later s0 (initng_active_db_compensate_time n s)"
proof -
  have step: "later s0 (upd_svc i (shift_times n) s)" if "later s0 s" for i s
    by (rule later_upd [OF that]) (simp_all add: shift_times_def)
  have "later s0 (compensate_walk n is s)" if "later s0 s" for "is" s
    using that by (induction "is" arbitrary: s) (simp_all add: step)
  with assms show ?thesis by (simp add: initng_active_db_compensate_time_def)
qed

lemma later_open [okay_rules]: "later s0 s \<Longrightarrow> later s0 (snd (initng_module_open E p n s))"
  by (auto simp: initng_module_open_def Let_def intro!: okay_rules split: option.split)

lemma later_open_first [okay_rules]: "later s0 s \<Longrightarrow> later s0 (snd (open_first E ps n s))"
proof (induction ps arbitrary: s)
  case (Cons p ps)
  with later_open [OF Cons.prems, of E p n] show ?case by (auto split: prod.split option.split)
qed simp

lemma later_scan [okay_rules]: "later s0 (snd x) \<Longrightarrow> later s0 (snd (scan_file E fnm path file x))"
  using later_open [of s0 "snd x"]
  by (auto simp: scan_file_def Let_def case_prod_unfold intro!: okay_rules split: option.split)

lemma later_scan_all [okay_rules]:
  "later s0 (snd x) \<Longrightarrow> later s0 (snd (fold (scan_file E fnm path) files x))"
  by (induction files arbitrary: x) (simp_all add: later_scan)

text \<open>The loops over the module list.\<close>

lemma okay_module_loop [okay_rules]:
  assumes "later s0 s" and "\<And>m t. later s0 t \<Longrightarrow> okay snd s0 (body m t)"
  shows "okay snd s0 (while_list_safe g_module_db body k s)"
  unfolding okay_def
proof (intro allI impI)
  fix x
  assume "while_list_safe g_module_db body k s = Some x"
  then have w: "while_list_safe g_module_db body k s = Some (fst x, snd x)" by simp
  have "later s0 t'" if "body m t = Some (r, t')" "later s0 t" for m t r t'
    using assms(2) [OF that(2), of m] that(1) by (simp add: okay_def)
  from while_list_safe_invariant [where P = "later s0", OF this w assms(1)] show "later s0 (snd x)" .
qed

context safe_callbacks
begin

lemma init_module_okay [okay_rules]: "later s0 s \<Longrightarrow> okay snd s0 (init_module E m s)"
  by (auto simp: init_module_def intro!: okay_rules)

lemma unload_okay [okay_rules]: "later s0 s \<Longrightarrow> okay id s0 (unload E m s)"
  by (auto simp: unload_def intro!: okay_rules)

lemma load_okay [okay_rules]: "later s0 s \<Longrightarrow> okay snd s0 (initng_module_load E dir module s)"
  using later_open_first [of s0 s E "module_paths dir module" "module_name_of module"]
  by (auto simp: initng_module_load_def Let_def case_prod_unfold intro!: okay_rules split: option.split)

lemma load_all_okay [okay_rules]: "later s0 s \<Longrightarrow> okay snd s0 (initng_module_load_all E fnm path s)"
  by (auto simp: initng_module_load_all_def load_body_def Let_def case_prod_unfold intro!: okay_rules split: option.split)

lemma unload_all_okay [okay_rules]: "later s0 s \<Longrightarrow> okay id s0 (initng_module_unload_all E s)"
  by (auto simp: initng_module_unload_all_def intro!: okay_rules)

lemma unload_marked_okay [okay_rules]: "later s0 s \<Longrightarrow> okay id s0 (initng_module_unload_marked E s)"
  by (auto simp: initng_module_unload_marked_def unload_marked_body_def intro!: okay_rules okay_map_snd)

end

section \<open>Reading service files\<close>

lemma string_setter_addrs:
  "d_addr ` set (visible (initng_data_set_string_var a ty vn d v)) \<subseteq> insert a (d_addr ` set (visible d))"
  "d_addr ` set (visible (initng_data_set_another_string_var a ty vn d v)) \<subseteq> insert a (d_addr ` set (visible d))"
  using store_addrs visible_add_addrs [of "new_entry a ty' vn (U_s v)" d for ty']
  by (auto simp: initng_data_set_string_var_def initng_data_set_another_string_var_def new_entry_def split: option.splits)

lemma later_setters [okay_rules]:
  assumes "later s0 s"
  shows "later s0 (svc_set_string_var ty vn v i s)" "later s0 (svc_set_another_string_var ty vn v i s)"
    "later s0 (svc_set_var ty vn i s)" "later s0 (svc_set_int_var ty vn n i s)"
  unfolding svc_set_string_var_def svc_set_another_string_var_def svc_set_var_def svc_set_int_var_def svc_setter_def
  by (rule later_upd_data [OF assms], simp_all add: wf_set_string wf_set_another wf_set_var wf_set_int
      string_setter_addrs setter_addrs)+

lemma alive_setters [simp]:
  "alive (svc_set_string_var ty vn v i s) j = alive s j" "alive (svc_set_another_string_var ty vn v i s) j = alive s j"
  "alive (svc_set_var ty vn i s) j = alive s j" "alive (svc_set_int_var ty vn n i s) j = alive s j"
  by (simp_all add: svc_set_string_var_def svc_set_another_string_var_def svc_set_var_def svc_set_int_var_def svc_setter_def
      bump_addr_def upd_data_def)

lemma later_state_type [okay_rules]:
  assumes "later s0 s"
  shows "later s0 (upd_svc i (\<lambda>a. a\<lparr>a_type := ty\<rparr>) s)" "later s0 (upd_svc i (\<lambda>a. a\<lparr>a_current_state := st\<rparr>) s)"
    "later s0 (upd_svc i (\<lambda>a. a\<lparr>a_current_state := st, a_type := ty\<rparr>) s)"
  by (rule later_upd [OF assms]; simp)+

lemma new_not_alive: "later s0 s \<Longrightarrow> \<not> alive s0 (fst (initng_active_db_new n s))"
  by (auto simp: initng_active_db_new_def Let_def later_def prog_wf_def db_wf_def)

lemma later_bp_new_active [okay_rules]:
  assumes s: "later s0 s"
  shows "later s0 (snd (bp_new_active type service path s))"
proof -
  have "initng_active_db_find_by_name service s = Some i \<Longrightarrow> alive s i" for i
    using s by (rule find_by_name_alive)
  with s new_not_alive [OF s, of service] show ?thesis
    by (auto simp: bp_new_active_def Let_def case_prod_unfold intro!: okay_rules later_free split: option.split)
qed

lemma later_words [okay_rules]:
  "later s0 s \<Longrightarrow> later s0 (fold (\<lambda>w. svc_set_another_string_var ty vn w i) ws s)"
  by (induction ws arbitrary: s) (simp_all add: later_setters)

lemma later_bp_set_variable [okay_rules]: "later s0 s \<Longrightarrow> later s0 (snd (bp_set_variable service vartype varname value s))"
  by (auto simp: bp_set_variable_def Let_def intro!: okay_rules split: option.split)

lemma okay_reply [okay_rules]:
  fixes m :: "bp_rep option"
  shows "(\<And>x. m = Some x \<Longrightarrow> okay pr s (f x)) \<Longrightarrow> okay pr s (m \<bind> f)"
  by (rule okay_pure)

context safe_callbacks
begin

lemma bp_done_okay [okay_rules]:
  assumes s: "later s0 s"
  shows "okay snd s0 (bp_done E service s)"
proof (cases "initng_active_db_find_by_name service s")
  case None
  with s show ?thesis by (simp add: bp_done_def okay_rules)
next
  case (Some i)
  then have i: "alive s i" using s find_by_name_alive by blast
  with s Some show ?thesis
    by (auto simp: bp_done_def Let_def case_prod_unfold intro!: okay_rules)
qed

lemma bp_answer_okay [okay_rules]: "later s0 s \<Longrightarrow> okay snd s0 (bp_answer E req s)"
  by (auto simp: bp_answer_def intro!: okay_rules split: bp_req_type.split)

lemma bp_handle_client_okay [okay_rules]: "later s0 s \<Longrightarrow> okay id s0 (bp_handle_client E fd s)"
  by (auto simp: bp_handle_client_def bp_send_def intro!: okay_rules split: recv_result.split)

lemma parser_killed_okay [okay_rules]:
  "later s0 s \<Longrightarrow> alive s i \<Longrightarrow> okay id s0 (service_file_handle_killed E i pa s)"
  by (auto simp: service_file_handle_killed_def intro!: okay_rules)

end

text \<open>The new service and its process, as the parser makes them.\<close>

lemma parse_new_okay:
  assumes s: "later s0 s"
  shows "okay snd s0 (parse_new_service_file E name path s)"
    "parse_new_service_file E name path s = Some (Some i, t) \<Longrightarrow> alive t i"
proof -
  define i where "i = fst (initng_active_db_new name s)"
  define u where "u = upd_svc i (\<lambda>a. a\<lparr>a_current_state := PARSING_FOR_START, a_type := Some unset\<rparr>) (snd (initng_active_db_new name s))"
  have i: "\<not> alive s0 i" unfolding i_def by (rule new_not_alive [OF s])
  have u: "later s0 u" "alive u i"
    unfolding u_def i_def using s by (auto intro!: okay_rules)
  define v where "v = snd (initng_active_db_register i u)"
  have v: "later s0 v" "alive v i" unfolding v_def using u by (auto intro!: okay_rules)
  define p where "p = (fst (initng_process_db_new parse v))\<lparr>p_pipes := list_add
    ((initng_process_db_pipe_new IN_AND_OUT_PIPE)\<lparr>pipe_targets := [3]\<rparr>) (p_pipes (fst (initng_process_db_new parse v)))\<rparr>"
  define w where "w = add_process p i (bump_addr v)"
  have w: "later s0 w" unfolding w_def
    by (rule later_add_process [OF v(1)]) (simp add: p_def initng_process_db_new_def Let_def)
  have wi: "alive w i" using v(2) by (simp add: w_def add_process_def bump_addr_def)
  have eq: "parse_new_service_file E name path s =
      (case e_stat E path s of
         None \<Rightarrow> Some (None, s)
       | Some mode \<Rightarrow>
           (if \<not> S_ISREG mode \<or> and mode S_IXUSR = 0 then Some (None, s)
            else if fst (initng_active_db_register i u) = FALSE then Some (None, initng_active_db_free i v)
            else do {
              (pid, s) \<leftarrow> initng_fork E i (p_addr p) w;
              Some (Some i, if 0 < pid then add_effects [Eff_exec path [path, ''internal_setup'']] s else s) }))"
    by (simp add: parse_new_service_file_def i_def u_def v_def p_def w_def Let_def case_prod_unfold initng_process_db_new_def
        split: option.split)
  show "okay snd s0 (parse_new_service_file E name path s)"
    unfolding eq using s v w later_free [OF v(1) i] by (auto intro!: okay_rules split: option.split)
  have "alive t i" if "initng_fork E i (p_addr p) w = Some (pid, t)" for pid t
    using fork_okay [OF later_refl [OF later_wf [OF w]], of E i "p_addr p"] that wi by (auto simp: okay_def later_def)
  then show "parse_new_service_file E name path s = Some (Some i', t) \<Longrightarrow> alive t i'" for i'
    unfolding eq by (auto simp: add_effects_def split: option.splits if_splits bind_splits)
qed

lemma parse_first_okay:
  assumes "later s0 s"
  shows "okay snd s0 (parse_first E name paths s)" "parse_first E name paths s = Some (Some i, t) \<Longrightarrow> alive t i"
proof -
  have "okay snd s0 (parse_first E name paths s) \<and> (\<forall>i t. parse_first E name paths s = Some (Some i, t) \<longrightarrow> alive t i)"
    using assms
  proof (induction paths arbitrary: s)
    case Nil
    then show ?case by (simp add: okay_rules)
  next
    case (Cons path paths)
    show ?case
    proof (cases "parse_new_service_file E name path s")
      case None
      then show ?thesis by (simp add: okay_rules)
    next
      case (Some x)
      obtain found u where x: "x = (found, u)" by fastforce
      from parse_new_okay(1) [OF Cons.prems, of E name path] Some x have u: "later s0 u" by (simp add: okay_def)
      from parse_new_okay(2) [OF Cons.prems, of E name path] Some x have "found = Some i \<Longrightarrow> alive u i" for i by simp
      with Cons.IH [OF u] Some x u show ?thesis by (auto simp: okay_rules)
    qed
  qed
  then show "okay snd s0 (parse_first E name paths s)" "parse_first E name paths s = Some (Some i, t) \<Longrightarrow> alive t i"
    by blast+
qed

lemma create_new_active_safe:
  assumes "prog_wf s" "ev_alive s ev" "create_new_active E ev s = Some (ev', s')"
  shows "later s s' \<and> ev_alive s' ev' \<and> ev_type ev' = ev_type ev"
proof -
  note s = later_refl [OF assms(1)]
  obtain name where n: "ev_data ev = ED_name name"
    using assms(3) by (auto simp: create_new_active_def split: event_data.splits)
  show ?thesis
  proof (cases "ev_type ev \<noteq> EVENT_NEW_ACTIVE \<or> initng_string_basename name = ''this'' \<or> initng_string_basename name = ''any''")
    case True
    with assms n s show ?thesis by (auto simp: create_new_active_def split: if_splits)
  next
    case False
    with assms(3) n obtain found where f: "parse_first E name (service_paths name) s = Some (found, s')"
      "ev' = (if found \<noteq> None then ev\<lparr>ev_ret := found, ev_status := HANDLED\<rparr> else ev)"
      by (auto simp: create_new_active_def split: bind_splits)
    from parse_first_okay(1) [OF s, of E name "service_paths name"] f(1) have l: "later s s'" by (simp add: okay_def)
    from parse_first_okay(2) [OF s, of E name "service_paths name"] f(1) have "found = Some i \<Longrightarrow> alive s' i" for i by simp
    with l f(2) ev_alive_later [OF l assms(2)] n show ?thesis by (auto simp: ev_alive_def)
  qed
qed

context safe_callbacks
begin

lemma get_pipe_okay: "later s0 s \<Longrightarrow> okay snd s0 (get_pipe E ev s)"
  by (auto simp: get_pipe_def intro!: okay_rules split: event_data.split)

end

section \<open>History\<close>

lemma later_add_hist [okay_rules]: "later s0 s \<Longrightarrow> later s0 (add_hist h s)"
  by (auto simp: add_hist_def Let_def intro!: okay_rules)

lemma alive_add_hist [simp]: "alive (add_hist h s) i = alive s i"
  by (simp add: add_hist_def Let_def)

lemma history_hooks_okay:
  assumes "later s0 s"
  shows "okay snd s0 (history_add_values ev s)" "okay snd s0 (fetch_output ev s)" "okay snd s0 (history_db_compensate_time ev s)"
  using assms
  by (auto simp: history_add_values_def fetch_output_def history_db_compensate_time_def history_db_clear_service_def Let_def
      intro!: okay_rules split: event_data.split)

section \<open>Child processes\<close>

lemma okay_fork_data [okay_rules]:
  fixes m :: "(sid \<times> nat) option"
  shows "(\<And>x. m = Some x \<Longrightarrow> okay pr s (f x)) \<Longrightarrow> okay pr s (m \<bind> f)"
  by (rule okay_pure)

lemma later_adjust_env [okay_rules]: "later s0 s \<Longrightarrow> later s0 (adjust_env i vn vv s)"
  by (simp add: adjust_env_def okay_rules)

lemma later_set_limits [okay_rules]: "later s0 (snd x) \<Longrightarrow> later s0 (snd (fold (set_limit E i) rs x))"
proof (induction rs arbitrary: x)
  case (Cons r rs)
  have "later s0 (snd (set_limit E i r x))"
    using Cons.prems by (auto simp: set_limit_def Let_def case_prod_unfold intro!: okay_rules split: option.split)
  with Cons.IH show ?case by simp
qed simp

lemma fork_hooks_okay:
  assumes "later s0 s"
  shows "okay snd s0 (do_chdir E ev s)" "okay snd s0 (do_chroot E ev s)" "okay snd s0 (do_renice E ev s)"
    "okay snd s0 (do_pause ev s)" "okay snd s0 (do_suid E ev s)" "okay snd s0 (setup_output E ev s)" "okay snd s0 (do_limit E ev s)"
  using assms
  by (auto simp: do_chdir_def do_chroot_def do_renice_def do_pause_def do_suid_def setup_output_def do_limit_def
      Let_def case_prod_unfold intro!: okay_rules split: option.split)

section \<open>Monitors\<close>

lemma later_net [okay_rules]:
  assumes s: "later s0 s"
  shows "later s0 (snd (net_set_up n s))" "later s0 (net_remove n s)"
proof -
  have a: "initng_active_db_find_by_name n s = Some v \<Longrightarrow> alive s v" for v n
    using s by (rule find_by_name_alive)
  from s a show "later s0 (net_remove n s)" by (auto simp: net_remove_def intro!: okay_rules split: option.split)
  have "later s0 (snd (find_or_create n s)) \<and> (\<forall>i. fst (find_or_create n s) = Some i \<longrightarrow> alive (snd (find_or_create n s)) i)" for n
    using s a new_not_alive [OF s, of n]
    by (auto simp: find_or_create_def net_create_def Let_def case_prod_unfold intro!: okay_rules later_free
        split: option.split if_splits)
  from this [of "net_name n"] show "later s0 (snd (net_set_up n s))"
    by (cases "find_or_create (net_name n) s") (auto simp: net_set_up_def intro!: okay_rules split: option.split)
qed

lemma later_handle_devs [okay_rules]: "later s0 s \<Longrightarrow> later s0 (handle_devs s)"
proof -
  have "later s0 (handle_dev n s)" if "later s0 s" for n s
    using that by (auto simp: handle_dev_def Let_def intro!: okay_rules split: option.split)
  then show "later s0 s \<Longrightarrow> later s0 (handle_devs s)" by (simp add: handle_devs_def later_fold)
qed

lemma later_stop_devs:
  "later s0 s \<Longrightarrow> \<forall>i \<in> set is. alive s i \<Longrightarrow>
    later s0 (fold (\<lambda>i s. if a_type (svc s i) = Some NETDEV then mark i NIC_DOWN s else s) is s)"
proof (induction "is" arbitrary: s)
  case (Cons i "is")
  have "later s0 (if a_type (svc s i) = Some NETDEV then mark i NIC_DOWN s else s)"
    using Cons.prems by (auto intro!: okay_rules)
  with Cons.IH Cons.prems(2) show ?case by simp
qed simp

lemma netdev_hooks_okay:
  assumes "later s0 s"
  shows "okay snd s0 (probe_network_devices E ev s)" "okay snd s0 (system_stopping ev s)"
  using assms db_wf_alive [OF assms]
  by (auto simp: probe_network_devices_def system_stopping_def Let_def intro!: okay_rules later_stop_devs
      split: option.split event_data.split)

lemma later_initctl [okay_rules]:
  assumes "later s0 s"
  shows "later s0 (initctl_control_close s)" "later s0 (snd (initctl_control_open E s))" "later s0 (makeutmp E n s)"
  using assms
  by (auto simp: initctl_control_close_def initctl_control_open_def makeutmp_def Let_def intro!: okay_rules)

lemma monitor_hooks_okay:
  assumes "later s0 s"
  shows "okay snd s0 (hup_request E ev s)" "okay snd s0 (is_system_up E ev s)" "okay snd s0 (check_cpu_idle E ev s)"
    "okay snd s0 (check_critical ev s)" "okay snd s0 (program_output E ev s)" "okay snd s0 (sysreq ev s)"
  using assms
  by (auto simp: hup_request_def is_system_up_def check_cpu_idle_def is_cpu_idle_def check_critical_def program_output_def
      sysreq_def Let_def case_prod_unfold intro!: okay_rules split: event_data.split option.split)

section \<open>Commands\<close>

lemma later_zap:
  assumes "prog_wf s" "cmd_free_service arg s = Some (r, t)"
  shows "prog_wf t"
proof (cases "case arg of None \<Rightarrow> None | Some n \<Rightarrow> initng_active_db_find_by_name n s")
  case (Some i)
  with assms free_wf show ?thesis by (auto simp: cmd_free_service_def)
next
  case None
  with assms(2) obtain r' where w: "while_list_safe (\<lambda>x. g_active_db (snd x)) zap_body (Suc (length (g_active_db s))) (FALSE, s)
      = Some (r', r, t)"
    by (auto simp: cmd_free_service_def)
  have "prog_wf (snd x')" if "zap_body i x = Some (r, x')" "prog_wf (snd x)" for i x r x'
    using that free_wf by (auto simp: zap_body_def split: if_splits)
  from while_list_safe_invariant [where P = "\<lambda>x. prog_wf (snd x)", OF this w] assms(1) show ?thesis by simp
qed

context safe_callbacks
begin

lemma stop_then_okay [okay_rules]: "later s0 s \<Longrightarrow> okay snd s0 (stop_then E th s)"
  by (auto simp: stop_then_def intro!: okay_rules)

lemma stcmd_okay:
  assumes s: "later s0 s"
  shows "okay snd s0 (cmd_start_on_new E arg s)" "okay snd s0 (cmd_restart E arg s)" "okay snd s0 (cmd_load_module E arg s)"
    "okay snd s0 (cmd_new_init E arg s)" "okay snd s0 (cmd_run E str s)"
proof -
  have a: "initng_active_db_find_by_name n s = Some v \<Longrightarrow> alive s v" for v n
    using s by (rule find_by_name_alive)
  with s show "okay snd s0 (cmd_start_on_new E arg s)" "okay snd s0 (cmd_restart E arg s)" "okay snd s0 (cmd_load_module E arg s)"
    "okay snd s0 (cmd_new_init E arg s)" "okay snd s0 (cmd_run E str s)"
    by (auto simp: cmd_start_on_new_def cmd_restart_def cmd_load_module_def cmd_new_init_def cmd_run_def Let_def
        intro!: okay_rules restart_okay split: option.split)
qed

lemma init_runlevel_wf:
  assumes s: "prog_wf s" and r: "init_runlevel E r s = Some t"
  shows "prog_wf t"
proof (cases "in_chars r ''Uu''")
  case True
  then have "r \<noteq> 48" "r \<noteq> 54" by (auto simp: in_chars_def)
  with True r s command_safe show ?thesis
    by (auto simp: init_runlevel_def initng_reload_def in_chars_def split: option.splits)
next
  case False
  have "okay id s (init_runlevel E r s)"
    using False later_refl [OF s]
    by (auto simp: init_runlevel_def intro!: okay_rules okay_map_snd)
  with r show ?thesis by (auto simp: okay_def later_def)
qed

lemma pipe_io_handler_wf:
  assumes s: "prog_wf s" and h: "pipe_io_handler E ev s = Some (ev', t)"
  shows "prog_wf t \<and> ev_type ev = EVENT_IO_WATCHER \<and> ev_type ev' = ev_type ev \<and> ev_ret ev' = ev_ret ev \<and> data_alive u (ev_data ev')"
proof -
  have "prog_wf t" if "parse_control_input E s = Some t" for t
    using that s init_runlevel_wf by (auto simp: parse_control_input_def split: initctl_result.splits if_splits)
  moreover have "prog_wf (s\<lparr>m_initctl_fd := -1\<rparr>)"
    by (rule later_wf [OF later_globals [OF later_refl [OF s]]]) simp_all
  ultimately show ?thesis
    using s h by (auto simp: pipe_io_handler_def Let_def split: event_data.splits if_splits bind_splits)
qed

end

section \<open>Registration\<close>

lemma later_commands [okay_rules]:
  assumes "later s0 s"
  shows "later s0 (fold (\<lambda>c s. snd (initng_command_register c s)) cs s)" "later s0 (fold initng_command_unregister cs s)"
  using assms by (auto intro!: later_fold okay_rules)

lemma later_client_init [okay_rules]:
  assumes "later s0 s"
  shows "later s0 (snd (service_file_module_init s))" "later s0 (snd (stcmd_module_init s))"
    "later s0 (snd (history_module_init s))" "later s0 (snd (chdir_module_init s))" "later s0 (snd (chroot_module_init s))"
    "later s0 (snd (renice_module_init s))" "later s0 (snd (pause_module_init s))" "later s0 (snd (suid_module_init s))"
    "later s0 (snd (stdout_module_init s))" "later s0 (snd (limit_module_init s))" "later s0 (snd (netdev_module_init s))"
    "later s0 (snd (initctl_module_init E s))" "later s0 (snd (idleprobe_module_init s))"
    "later s0 (snd (critical_module_init s))" "later s0 (snd (logfile_module_init s))" "later s0 (snd (sysreq_module_init s))"
  using assms
  by (auto simp: service_file_module_init_def stcmd_module_init_def history_module_init_def chdir_module_init_def
      chroot_module_init_def renice_module_init_def pause_module_init_def suid_module_init_def stdout_module_init_def
      limit_module_init_def netdev_module_init_def initctl_module_init_def idleprobe_module_init_def critical_module_init_def
      logfile_module_init_def sysreq_module_init_def intro!: okay_rules)

lemma later_client_unload [okay_rules]:
  assumes "later s0 s"
  shows "later s0 (service_file_module_unload s)" "later s0 (stcmd_module_unload s)"
    "later s0 (history_module_unload s)" "later s0 (chdir_module_unload s)" "later s0 (chroot_module_unload s)"
    "later s0 (renice_module_unload s)" "later s0 (pause_module_unload s)" "later s0 (suid_module_unload s)"
    "later s0 (stdout_module_unload s)" "later s0 (limit_module_unload s)" "later s0 (netdev_module_unload s)"
    "later s0 (initctl_module_unload s)" "later s0 (idleprobe_module_unload s)"
    "later s0 (critical_module_unload s)" "later s0 (logfile_module_unload s)" "later s0 (sysreq_module_unload s)"
  using assms
  by (auto simp: service_file_module_unload_def stcmd_module_unload_def history_module_unload_def history_free_all_def
      chdir_module_unload_def chroot_module_unload_def renice_module_unload_def pause_module_unload_def suid_module_unload_def
      stdout_module_unload_def limit_module_unload_def netdev_module_unload_def initctl_module_unload_def
      idleprobe_module_unload_def critical_module_unload_def logfile_module_unload_def sysreq_module_unload_def
      intro!: okay_rules)

end
