(* ===== verification/Link.thy ===== *)
theory Link
  imports Client_Safety
begin

text \<open>
  The linked program: every function pointer of the modelled modules leads to the function of
  that name. The functions of the modules call the core, and the core calls the functions of the
  modules, so the program is linked in levels: the functions of one level run on the level
  below, and on the lowest level no call returns.
\<close>

section \<open>The linked program\<close>

text \<open>The functions of the modelled modules, by the names under which they are registered.\<close>

definition service_hooks :: "env \<Rightarrow> (string \<times> (s_event \<Rightarrow> sys \<Rightarrow> (s_event \<times> sys) option)) list" where
  "service_hooks E =
    [(''also_service_state'', also_service_state E), (''check_conflict'', check_conflict E),
     (''status_change'', status_change), (''check_last'', check_last E),
     (''check_syncronicly'', check_syncronicly), (''check_syncronicly_service'', check_syncronicly_service),
     (''check_files_to_exist'', check_files_to_exist E),
     (''check_files_to_exist_after'', check_files_to_exist_after E),
     (''interactive_STARTING'', interactive_STARTING E), (''interactive_STOP_MARKED'', interactive_STOP_MARKED E),
     (''on_kill'', on_kill E), (''ctrlaltdel'', ctrlaltdel E),
     (''provide_service_state'', provide_service_state E), (''initng_s_launch'', initng_s_launch E)]"

definition fork_hooks :: "env \<Rightarrow> (string \<times> (s_event \<Rightarrow> sys \<Rightarrow> (s_event \<times> sys) option)) list" where
  "fork_hooks E =
    [(''do_chdir'', do_chdir E), (''do_chroot'', do_chroot E), (''do_renice'', do_renice E), (''do_pause'', do_pause),
     (''do_suid'', do_suid E), (''setup_output'', setup_output E), (''do_limit'', do_limit E)]"

definition watch_hooks :: "env \<Rightarrow> (string \<times> (s_event \<Rightarrow> sys \<Rightarrow> (s_event \<times> sys) option)) list" where
  "watch_hooks E =
    [(''history_add_values'', history_add_values), (''fetch_output'', fetch_output),
     (''history_db_compensate_time'', history_db_compensate_time),
     (''probe_network_devices'', probe_network_devices E), (''system_stopping'', system_stopping),
     (''hup_request'', hup_request E), (''is_system_up'', is_system_up E), (''check_cpu_idle'', check_cpu_idle E),
     (''check_critical'', check_critical), (''program_output'', program_output E), (''sysreq'', sysreq), (''get_pipe'', get_pipe E)]"

definition hook_table :: "env \<Rightarrow> (string \<times> (s_event \<Rightarrow> sys \<Rightarrow> (s_event \<times> sys) option)) list" where
  "hook_table E = service_hooks E @ fork_hooks E @ watch_hooks E
     @ [(''create_new_active'', create_new_active E), (''pipe_io_handler'', pipe_io_handler E)]"

lemmas hook_table_defs = hook_table_def service_hooks_def fork_hooks_def watch_hooks_def

definition state_table :: "env \<Rightarrow> (string \<times> (sid \<Rightarrow> sys \<Rightarrow> sys option)) list" where
  "state_table E =
    [(''init_SERVICE_START_MARKED'', init_SERVICE_START_MARKED E),
     (''init_SERVICE_STOP_MARKED'', init_SERVICE_STOP_MARKED E),
     (''handle_SERVICE_WAITING_FOR_START_DEP'', handle_SERVICE_WAITING_FOR_START_DEP E),
     (''handle_SERVICE_WAITING_FOR_STOP_DEP'', handle_SERVICE_WAITING_FOR_STOP_DEP E),
     (''init_SERVICE_START_DEPS_MET'', init_SERVICE_START_DEPS_MET E),
     (''init_SERVICE_STOP_DEPS_MET'', init_SERVICE_STOP_DEPS_MET E),
     (''init_SERVICE_START_RUN'', \<lambda>i s. Some (init_SERVICE_START_RUN i s)), (''init_SERVICE_STOP_RUN'', \<lambda>i s. Some (init_SERVICE_STOP_RUN i s)),
     (''timeout_SERVICE_START_RUN'', timeout_SERVICE_START_RUN E),
     (''timeout_SERVICE_STOP_RUN'', timeout_SERVICE_STOP_RUN E),
     (''init_DAEMON_START_MARKED'', init_DAEMON_START_MARKED E),
     (''init_DAEMON_STOP_MARKED'', init_DAEMON_STOP_MARKED E),
     (''handle_DAEMON_WAITING_FOR_START_DEP'', handle_DAEMON_WAITING_FOR_START_DEP E),
     (''handle_DAEMON_WAITING_FOR_STOP_DEP'', handle_DAEMON_WAITING_FOR_STOP_DEP E),
     (''init_DAEMON_START_DEPS_MET'', init_DAEMON_START_DEPS_MET E),
     (''init_DAEMON_STOP_DEPS_MET'', init_DAEMON_STOP_DEPS_MET E),
     (''init_DAEMON_KILL'', \<lambda>i s. Some (init_DAEMON_KILL i s)), (''timeout_DAEMON_KILL'', \<lambda>i s. Some (timeout_DAEMON_KILL E i s)),
     (''init_DAEMON_TERM'', \<lambda>i s. Some (init_DAEMON_TERM i s)), (''timeout_DAEMON_TERM'', \<lambda>i s. Some (timeout_DAEMON_TERM E i s)),
     (''init_DAEMON_WAIT_FOR_PID_FILE'', \<lambda>i s. Some (init_DAEMON_WAIT_FOR_PID_FILE i s)),
     (''timeout_DAEMON_WAIT_FOR_PID_FILE'', timeout_DAEMON_WAIT_FOR_PID_FILE E),
     (''init_DAEMON_WAIT_RESP_TOUT'', \<lambda>i s. Some (init_DAEMON_WAIT_RESP_TOUT i s)),
     (''timeout_DAEMON_WAIT_RESP_TOUT'', timeout_DAEMON_WAIT_RESP_TOUT E),
     (''init_RUNLEVEL_START_MARKED'', init_RUNLEVEL_START_MARKED E),
     (''init_RUNLEVEL_STOP_MARKED'', init_RUNLEVEL_STOP_MARKED E),
     (''handle_RUNLEVEL_WAITING_FOR_START_DEP'', handle_RUNLEVEL_WAITING_FOR_START_DEP E),
     (''handle_RUNLEVEL_WAITING_FOR_STOP_DEP'', handle_RUNLEVEL_WAITING_FOR_STOP_DEP E),
     (''task_run_marked'', task_run_marked E), (''handle_deps'', handle_deps E), (''task_deps_met'', task_deps_met E)]"

definition type_table :: "(string \<times> (sid \<Rightarrow> sys \<Rightarrow> (int \<times> sys) option)) list" where
  "type_table =
    [(''start_SERVICE'', start_SERVICE), (''stop_SERVICE'', stop_SERVICE), (''start_DAEMON'', start_DAEMON),
     (''stop_DAEMON'', stop_DAEMON), (''start_RUNLEVEL'', start_RUNLEVEL), (''stop_RUNLEVEL'', stop_RUNLEVEL),
     (''start_task'', start_task), (''dont_try_to_stop_start'', dont_try_to_stop_start)]"

definition kill_table :: "env \<Rightarrow> (string \<times> (sid \<Rightarrow> nat \<Rightarrow> sys \<Rightarrow> sys option)) list" where
  "kill_table E =
    [(''service_handle_killed_start'', service_handle_killed_start E),
     (''service_handle_killed_stop'', service_handle_killed_stop E),
     (''handle_killed_daemon'', handle_killed_daemon E), (''handle_task_leave'', \<lambda>i pa s. Some (handle_task_leave i pa s)),
     (''service_file_handle_killed'', service_file_handle_killed E)]"

definition init_table :: "env \<Rightarrow> (string \<times> (sys \<Rightarrow> (int \<times> sys) option)) list" where
  "init_table E = map (\<lambda>(n, f). (n, \<lambda>s. Some (f s)))
    [(''service'', service_module_init), (''daemon'', daemon_module_init), (''runlevel'', runlevel_module_init),
     (''task'', task_module_init), (''also'', also_module_init), (''conflict'', conflict_module_init),
     (''lockfile'', lockfile_module_init), (''last'', last_module_init), (''synchron'', synchron_module_init),
     (''fstat'', fstat_module_init), (''interactive'', interactive_module_init),
     (''daemon_clean'', daemon_clean_module_init), (''ctrlaltdel'', ctrlaltdel_module_init),
     (''unneeded'', unneeded_module_init), (''provide'', provide_module_init),
     (''simple_launcher'', simple_launcher_module_init), (''service_file'', service_file_module_init),
     (''stcmd'', stcmd_module_init), (''history'', history_module_init), (''chdir'', chdir_module_init),
     (''chroot'', chroot_module_init), (''renice'', renice_module_init), (''pause'', pause_module_init),
     (''suid'', suid_module_init), (''stdout'', stdout_module_init), (''limit'', limit_module_init),
     (''netdev'', netdev_module_init), (''initctl'', initctl_module_init E), (''idleprobe'', idleprobe_module_init),
     (''critical'', critical_module_init), (''logfile'', logfile_module_init), (''sysreq'', sysreq_module_init)]"

definition unload_table :: "(string \<times> (sys \<Rightarrow> sys option)) list" where
  "unload_table = map (\<lambda>(n, f). (n, \<lambda>s. Some (f s)))
    [(''service'', service_module_unload), (''daemon'', daemon_module_unload), (''runlevel'', runlevel_module_unload),
     (''task'', task_module_unload), (''also'', also_module_unload), (''conflict'', conflict_module_unload),
     (''lockfile'', lockfile_module_unload), (''last'', last_module_unload), (''synchron'', synchron_module_unload),
     (''fstat'', fstat_module_unload), (''interactive'', interactive_module_unload),
     (''daemon_clean'', daemon_clean_module_unload), (''ctrlaltdel'', ctrlaltdel_module_unload),
     (''unneeded'', unneeded_module_unload), (''provide'', provide_module_unload),
     (''simple_launcher'', simple_launcher_module_unload), (''service_file'', service_file_module_unload),
     (''stcmd'', stcmd_module_unload), (''history'', history_module_unload), (''chdir'', chdir_module_unload),
     (''chroot'', chroot_module_unload), (''renice'', renice_module_unload), (''pause'', pause_module_unload),
     (''suid'', suid_module_unload), (''stdout'', stdout_module_unload), (''limit'', limit_module_unload),
     (''netdev'', netdev_module_unload), (''initctl'', initctl_module_unload), (''idleprobe'', idleprobe_module_unload),
     (''critical'', critical_module_unload), (''logfile'', logfile_module_unload), (''sysreq'', sysreq_module_unload)]"

definition command_table :: "env \<Rightarrow> (string \<times> (string option \<Rightarrow> sys \<Rightarrow> (int \<times> sys) option)) list" where
  "command_table E =
    [(''cmd_stop_unneeded'', \<lambda>arg. cmd_stop_unneeded E), (''cmd_get_pid_of'', \<lambda>arg s. Some (cmd_get_pid_of arg s, s)),
     (''cmd_start_on_new'', cmd_start_on_new E), (''cmd_free_service'', cmd_free_service), (''cmd_restart'', cmd_restart E),
     (''cmd_initng_poweroff'', \<lambda>arg. cmd_initng_poweroff E), (''cmd_initng_halt'', \<lambda>arg. cmd_initng_halt E),
     (''cmd_initng_reboot'', \<lambda>arg. cmd_initng_reboot E), (''cmd_load_module'', cmd_load_module E),
     (''cmd_percent_done'', \<lambda>arg s. Some (cmd_percent_done s, s)), (''cmd_new_init'', cmd_new_init E),
     (''cmd_run'', \<lambda>arg s. case arg of None \<Rightarrow> None | Some str \<Rightarrow> cmd_run E str s)]"

definition lookup :: "(string \<times> 'a) list \<Rightarrow> (string \<Rightarrow> 'a) \<Rightarrow> string \<Rightarrow> 'a" where
  "lookup table other f = (case map_of table f of Some h \<Rightarrow> h | None \<Rightarrow> other f)"

text \<open>
  One level: the functions of the modelled modules run in \<open>E\<close>, every other function is the one of
  the environment \<open>B\<close>.
\<close>

definition link_step :: "env \<Rightarrow> env \<Rightarrow> env" where
  "link_step B E = B\<lparr>e_hook := lookup (hook_table E) (e_hook B), e_state_fn := lookup (state_table E) (e_state_fn B),
     e_type_fn := lookup type_table (e_type_fn B), e_kill_fn := lookup (kill_table E) (e_kill_fn B),
     e_mod_init := lookup (init_table E) (e_mod_init B), e_mod_unload := lookup unload_table (e_mod_unload B),
     e_command := lookup (command_table E) (e_command B)\<rparr>"

primrec link :: "env \<Rightarrow> nat \<Rightarrow> env" where
  "link B 0 = B"
| "link B (Suc k) = link_step B (link B k)"

lemma link_platform [simp]:
  "e_fuel (link B k) = e_fuel B" "e_readdir (link B k) = e_readdir B" "e_stat (link B k) = e_stat B"
  "e_dlopen (link B k) = e_dlopen B" "e_fork (link B k) = e_fork B" "e_recv (link B k) = e_recv B"
  by (cases k; simp add: link_step_def)+

lemma link_functions:
  "e_hook (link B (Suc k)) = lookup (hook_table (link B k)) (e_hook B)"
  "e_state_fn (link B (Suc k)) = lookup (state_table (link B k)) (e_state_fn B)"
  "e_type_fn (link B (Suc k)) = lookup type_table (e_type_fn B)"
  "e_mod_init (link B (Suc k)) = lookup (init_table (link B k)) (e_mod_init B)"
  by (simp_all add: link_step_def)

lemma lookup_rule: "P (other f) \<Longrightarrow> (\<And>h. (f, h) \<in> set table \<Longrightarrow> P h) \<Longrightarrow> P (lookup table other f)"
  by (auto simp: lookup_def split: option.split dest: map_of_SomeD)

text \<open>All hooks but two change nothing of an event but its status.\<close>

lemma service_hook_event:
  assumes "(f, h) \<in> set (service_hooks E)" "h ev s = Some (ev', s')"
  shows "ev_data ev' = ev_data ev \<and> ev_ret ev' = ev_ret ev \<and> ev_type ev' = ev_type ev"
  using assms
  by (auto simp: service_hooks_def also_service_state_def check_conflict_def status_change_def check_last_def
      check_syncronicly_def check_syncronicly_service_def check_files_to_exist_def check_files_to_exist_after_def
      interactive_STARTING_def interactive_STOP_MARKED_def interactive_ask_def on_kill_def ctrlaltdel_def
      provide_service_state_def initng_s_launch_def Let_def
      split: bind_splits option.splits if_splits event_data.splits e_is.splits)

lemma fork_hook_event:
  assumes "(f, h) \<in> set (fork_hooks E)" "h ev s = Some (ev', s')"
  shows "ev_data ev' = ev_data ev \<and> ev_ret ev' = ev_ret ev \<and> ev_type ev' = ev_type ev"
  using assms
  by (auto simp: fork_hooks_def do_chdir_def do_chroot_def do_renice_def do_pause_def do_suid_def setup_output_def do_limit_def
      fork_failed_def Let_def split: bind_splits option.splits if_splits prod.splits)

lemma watch_hook_event:
  assumes "(f, h) \<in> set (watch_hooks E)" "h ev s = Some (ev', s')"
  shows "ev_data ev' = ev_data ev \<and> ev_ret ev' = ev_ret ev \<and> ev_type ev' = ev_type ev"
  using assms
  by (auto simp: watch_hooks_def history_add_values_def fetch_output_def history_db_compensate_time_def
      probe_network_devices_def system_stopping_def hup_request_def is_system_up_def check_cpu_idle_def check_critical_def
      program_output_def sysreq_def get_pipe_def Let_def
      split: bind_splits option.splits if_splits event_data.splits)

context safe_callbacks
begin

lemma plain_hooks_okay:
  assumes "(f, h) \<in> set (service_hooks E @ fork_hooks E @ watch_hooks E)" "prog_wf s" "ev_alive s ev"
  shows "okay snd s (h ev s)"
proof -
  from assms(2) have s: "later s s" by (rule later_refl)
  note rules = state_hooks_okay [OF s assms(3)] dependency_hooks_okay [OF s assms(3)]
    other_hooks_okay [OF s assms(3)] launch_hook_okay [OF s] history_hooks_okay [OF s] fork_hooks_okay [OF s]
    netdev_hooks_okay [OF s] monitor_hooks_okay [OF s] get_pipe_okay [OF s]
  from assms(1) show ?thesis
    by (auto simp: service_hooks_def fork_hooks_def watch_hooks_def interactive_STARTING_def interactive_STOP_MARKED_def rules)
qed

lemma hook_table_safe:
  assumes h: "(f, h) \<in> set (hook_table E)" "h ev s = Some (ev', s')" and s: "prog_wf s" "ev_alive s ev"
  shows "prog_wf s' \<and> ev_alive s' ev' \<and> ev_type ev' = ev_type ev \<and> (ev_type ev \<noteq> EVENT_IO_WATCHER \<longrightarrow> later s s')"
proof -
  consider (plain) "(f, h) \<in> set (service_hooks E @ fork_hooks E @ watch_hooks E)"
    | (parser) "h = create_new_active E" | (io) "h = pipe_io_handler E"
    using h(1) by (auto simp: hook_table_def)
  then show ?thesis
  proof cases
    case plain
    from plain_hooks_okay [OF plain s] h(2) have l: "later s s'" by (simp add: okay_def)
    from plain have "ev_data ev' = ev_data ev \<and> ev_ret ev' = ev_ret ev \<and> ev_type ev' = ev_type ev"
      using h(2) by (auto dest: service_hook_event fork_hook_event watch_hook_event)
    with l ev_alive_later [OF l s(2)] show ?thesis by (auto simp: ev_alive_def later_def)
  next
    case parser
    with create_new_active_safe [OF s] h(2) later_wf show ?thesis by blast
  next
    case io
    with pipe_io_handler_wf [OF s(1)] h(2) have "prog_wf s'" "ev_type ev = EVENT_IO_WATCHER" "ev_type ev' = ev_type ev"
      "\<And>u. data_alive u (ev_data ev')" by blast+
    then show ?thesis by (simp add: ev_alive_def)
  qed
qed

lemma tables_okay:
  assumes s: "later s s" and i: "alive s i"
  shows "(f, h1) \<in> set (state_table E) \<Longrightarrow> okay id s (h1 i s)"
    "(f, h2) \<in> set type_table \<Longrightarrow> okay snd s (h2 i s)"
    "(f, h3) \<in> set (kill_table E) \<Longrightarrow> okay id s (h3 i pa s)"
  using s i
  by (auto simp: state_table_def type_table_def kill_table_def dont_try_to_stop_start_def intro!: okay_rules)

lemma module_tables_okay:
  assumes s: "later s s"
  shows "(f, h1) \<in> set (init_table E) \<Longrightarrow> okay snd s (h1 s)"
    "(f, h2) \<in> set unload_table \<Longrightarrow> okay id s (h2 s)"
  using s by (auto simp: init_table_def unload_table_def intro!: okay_rules)

lemma command_table_wf:
  assumes s: "prog_wf s" and h: "(f, h) \<in> set (command_table E)" "h arg s = Some (r, t)"
  shows "prog_wf t"
proof (cases "h = cmd_free_service")
  case True
  with later_zap s h(2) show ?thesis by blast
next
  case False
  note l = later_refl [OF s]
  from False h(1) have "okay snd s (h arg s)"
    by (auto simp: command_table_def cmd_initng_poweroff_def cmd_initng_halt_def cmd_initng_reboot_def l
        intro!: okay_rules stcmd_okay split: option.split)
  with h(2) show ?thesis by (auto simp: okay_def later_def)
qed

end

end
