(* ===== verification/Program.thy ===== *)
theory Program
  imports Link
begin

text \<open>
  The whole program on its linked modules: the loader, the wait for input, one round of the main
  loop and the states the program can reach.
\<close>

section \<open>Waiting for input\<close>

lemma okay_pair_invariant:
  assumes "later s0 (snd x)" and body: "\<And>m x. later s0 (snd x) \<Longrightarrow> okay (\<lambda>x. snd (snd x)) s0 (body m x)"
  shows "okay (\<lambda>x. snd (snd x)) s0 (while_list_safe L body k x)"
    "okay (\<lambda>x. snd (snd x)) s0 (each body xs x)"
proof -
  have b: "later s0 (snd x')" if "body m x = Some (r, x')" "later s0 (snd x)" for m x r x'
    using body [OF that(2), of m] that(1) by (simp add: okay_def)
  show "okay (\<lambda>x. snd (snd x)) s0 (while_list_safe L body k x)"
    using while_list_safe_invariant [where P = "\<lambda>x. later s0 (snd x)" and body = body and L = L and k = k and s = x,
        OF b _ assms(1)]
    by (auto simp: okay_def)
  have "later s0 (snd y)" if "each body xs x = Some (r, y)" "later s0 (snd x)" for x r y
    using each_invariant [where P = "\<lambda>x. later s0 (snd x)" and body = body and xs = xs, OF _ that] b by blast
  with assms(1) show "okay (\<lambda>x. snd (snd x)) s0 (each body xs x)"
    by (auto simp: okay_def)
qed

lemma later_watch:
  "later s0 (snd (snd (snd y))) \<Longrightarrow> later s0 (snd (snd (snd (watch_pipe E x y))))"
  by (auto simp: watch_pipe_def Let_def case_prod_unfold intro!: okay_rules split: option.split)

lemma later_watch_all [okay_rules]:
  "later s0 (snd (snd (snd y))) \<Longrightarrow> later s0 (snd (snd (snd (fold (watch_pipe E) xs y))))"
  by (induction xs arbitrary: y) (simp_all add: later_watch)

context safe_callbacks
begin

lemma serve_okay:
  assumes i: "alive s0 i" and x: "later s0 (snd x)"
  shows "okay (\<lambda>x. snd (snd x)) s0 (serve_service E rs ws i x)"
proof -
  have "okay (\<lambda>x. snd (snd x)) s0 (serve_pipe E rs ws i pa n x)" if "later s0 (snd x)" for pa n x
    using that i
    by (auto simp: serve_pipe_def Let_def case_prod_unfold intro!: okay_rules okay_map_snd split: option.split;
        meson later_alive)
  then show ?thesis
    unfolding serve_service_def
    by (intro okay_pair_invariant) (auto intro!: okay_rules okay_pair_invariant x)
qed

text \<open>Only the hooks on the watched descriptors may free services.\<close>

lemma poll_wf:
  assumes s: "prog_wf s" and poll: "initng_io_module_poll E timeout s = Some t"
  shows "prog_wf t"
proof -
  have send: "prog_wf v" if "prog_wf u" "initng_event_send E (event EVENT_IO_WATCHER (ED_io_watch b n rs ws)) u = Some (ev, v)"
    for u v ev b n rs ws
    using send_wf [OF that(1) _ that(2)] by simp
  have serve: "prog_wf v" if "prog_wf u"
      "while_list_safe (\<lambda>x. g_active_db (snd x)) (serve_service E rs ws) k (n, u) = Some (r, m, v)" for u v k n m r rs ws
  proof -
    have "okay (\<lambda>x. snd (snd x)) u (while_list_safe (\<lambda>x. g_active_db (snd x)) (serve_service E rs ws) k (n, u))"
      using later_refl [OF that(1)] by (auto intro!: okay_rules serve_okay)
    with that(2) show ?thesis by (auto simp: okay_def later_def)
  qed
  have watch: "prog_wf (snd (snd (snd (fold (watch_pipe E) xs (n, rs, ws, u)))))" if "prog_wf u" for xs n rs ws u
    using later_watch_all [of u "(n, rs, ws, u)" E xs] later_refl [OF that] by (auto simp: later_def)
  have wserve: "prog_wf t" if "prog_wf u"
      "initng_event_send E (event EVENT_IO_WATCHER (ED_io_watch b n rs ws))
        (snd (snd (snd (fold (watch_pipe E) xs (n', rs', ws', u))))) = Some (ev, v)"
      "while_list_safe (\<lambda>x. g_active_db (snd x)) (serve_service E rs'' ws'') k (m, v) = Some (r, m', t)"
    for u v b n rs ws xs n' rs' ws' ev rs'' ws'' k m r m' t
    by (rule serve [OF send [OF watch [OF that(1)] that(2)] that(3)])
  note wsend = send [OF watch]
  from poll show ?thesis
    unfolding initng_io_module_poll_def case_prod_unfold Let_def
    by (auto simp del: fold_simps dest!: send [OF s] split: bind_splits event_data.splits if_splits
        intro: watch elim: wsend wserve)
qed

end

section \<open>The main function\<close>

text \<open>
  A run that goes on, goes on in a well-formed state. The state the invariant is counted from is
  only used to compose the steps; freeing the services that are down starts it anew.
\<close>

definition wf_run :: "sys \<Rightarrow> run option \<Rightarrow> bool" where
  "wf_run s0 m \<longleftrightarrow> (\<forall>t. m = Some (Continue t) \<longrightarrow> prog_wf t)"

named_theorems run_rules \<open>runs that keep the invariant\<close>

lemma wf_run_end [run_rules]:
  "later s0 s \<Longrightarrow> wf_run s0 (Some (Continue s))" "wf_run s0 (Some (Ended s))" "wf_run s0 None"
  "wf_run s0 (map_option Ended m)"
  by (auto simp: wf_run_def later_def)

lemma wf_run_binds [run_rules]:
  fixes mp :: "('a \<times> sys) option" and mr :: "run option" and ms :: "string option"
  shows "okay id s0 m \<Longrightarrow> (\<And>t. later s0 t \<Longrightarrow> wf_run s0 (f t)) \<Longrightarrow> wf_run s0 (m \<bind> f)"
    "okay snd s0 mp \<Longrightarrow> (\<And>r t. later s0 t \<Longrightarrow> wf_run s0 (g (r, t))) \<Longrightarrow> wf_run s0 (mp \<bind> g)"
    "(\<And>x. ms = Some x \<Longrightarrow> wf_run s0 (h x)) \<Longrightarrow> wf_run s0 (ms \<bind> h)"
    "(\<And>x. wf_run s0 (k x)) \<Longrightarrow> wf_run s0 (mr \<bind> k)"
  by (auto simp: okay_def wf_run_def split: bind_splits)

lemma wf_run_clean_down [run_rules]:
  assumes "later s0 s" "\<And>t. later t t \<Longrightarrow> wf_run t (f t)"
  shows "wf_run s0 (initng_active_db_clean_down s \<bind> f)"
proof -
  from clean_down_wf [OF later_wf [OF assms(1)]] obtain t where t: "initng_active_db_clean_down s = Some t" "prog_wf t"
    by blast
  with assms(2) [OF later_refl [OF t(2)]] show ?thesis by (simp add: wf_run_def)
qed

lemma prog_wf_fields [simp]:
  assumes "prog_wf s"
  shows "prog_wf (s\<lparr>g_now := x1\<rparr>)" "prog_wf (s\<lparr>g_sleep_seconds := x2\<rparr>)" "prog_wf (s\<lparr>g_modules_to_unload := x3\<rparr>)"
    "prog_wf (add_effects es s)" "prog_wf (s\<lparr>g_when_out := x4\<rparr>)" "prog_wf (initng_signal_enable s)"
    "prog_wf (s\<lparr>g_dev_console := x5\<rparr>)" "prog_wf (s\<lparr>g_runlevel := x6\<rparr>)" "prog_wf (s\<lparr>g_no_circular := x7\<rparr>)"
    "prog_wf (s\<lparr>g_hot_reload := x8\<rparr>)"
    "prog_wf (s\<lparr>g_clock := x9\<rparr>)" "prog_wf (s\<lparr>g_signals_got := x10\<rparr>)"
  by (rule later_wf [where s = s], rule later_globals [OF later_refl [OF assms]];
      simp add: add_effects_def initng_signal_enable_def)+

lemma global_new_wf: "prog_wf (initng_config_global_new argv clock)"
  by (simp add: prog_wf_def db_wf_init addr_wf_def calloc_service_def)

lemma handle_it_wf: "prog_wf s \<Longrightarrow> handle_it str s = Continue t \<Longrightarrow> prog_wf t"
  by (auto simp: handle_it_def Let_def split: prod.splits if_splits option.splits)

lemma options_wf: "prog_wf s \<Longrightarrow> options_parse_args argv s = Continue t \<Longrightarrow> prog_wf t"
proof (induction argv arbitrary: s)
  case (Cons opt argv)
  from Cons.prems(2) consider "options_parse_args argv s = Continue t"
    | str u where "handle_it str s = Continue u" "options_parse_args argv u = Continue t"
    by (auto simp: Let_def split: if_splits run.splits)
  then show ?case using Cons.IH Cons.prems(1) handle_it_wf by cases blast+
qed simp

context safe_callbacks
begin

lemma wf_run_wait [run_rules]: "later s0 s \<Longrightarrow> wf_run s0 (main_wait E x s)"
  using poll_wf by (auto simp: main_wait_def wf_run_def later_def split: bind_splits if_splits)

lemma when_out_run [run_rules]: "later s0 s \<Longrightarrow> wf_run s0 (initng_main_when_out E s)"
  by (auto simp: initng_main_when_out_def Let_def intro!: run_rules okay_rules split: run.split)

lemma main_round_run: "prog_wf s \<Longrightarrow> wf_run s (main_round E lst s)"
  by (drule later_refl)
    (auto simp: main_round_def clock_skew_def Let_def intro!: run_rules okay_rules)

lemma main_start_run: "wf_run s (main_start E fnm dir argv clock)"
proof (cases "options_parse_args argv (initng_config_global_new argv clock)")
  case (Continue t)
  with options_wf global_new_wf have "prog_wf t" by blast
  then have t: "later t t" by (rule later_refl)
  have "wf_run t (main_start E fnm dir argv clock)"
    using t Continue
    by (auto simp: main_start_def then_run_def Let_def initng_signal_enable_def
        intro!: run_rules okay_rules split: option.split)
  then show ?thesis by (simp add: wf_run_def)
qed (simp add: main_start_def then_run_def wf_run_def)

end

section \<open>The linked program\<close>

text \<open>Linking keeps the contract of the function pointers.\<close>

lemma link_step_safe:
  assumes B: "safe_callbacks B" and E: "safe_callbacks E"
  shows "safe_callbacks (link_step B E)"
proof
  fix s ev f ev' s'
  assume s: "prog_wf s" "ev_alive s ev" and call: "e_hook (link_step B E) f ev s = Some (ev', s')"
  show "prog_wf s' \<and> ev_alive s' ev' \<and> ev_type ev' = ev_type ev \<and> (ev_type ev \<noteq> EVENT_IO_WATCHER \<longrightarrow> later s s')"
  proof (cases "map_of (hook_table E) f")
    case None
    with call have "e_hook B f ev s = Some (ev', s')" by (simp add: link_step_def lookup_def)
    from safe_callbacks.hook_safe [OF B s this] show ?thesis .
  next
    case (Some h)
    with call have "h ev s = Some (ev', s')" by (simp add: link_step_def lookup_def)
    from safe_callbacks.hook_table_safe [OF E map_of_SomeD [OF Some] this s] show ?thesis .
  qed
next
  fix s i f
  assume s: "prog_wf s" "alive s i"
  note tables = safe_callbacks.tables_okay [OF E later_refl [OF s(1)] s(2)]
  show "okay id s (e_state_fn (link_step B E) f i s)"
    using safe_callbacks.state_safe [OF B s, of f] tables(1)
    by (auto simp: link_step_def intro: lookup_rule [where P = "\<lambda>h. okay id s (h i s)"])
  show "okay snd s (e_type_fn (link_step B E) f i s)"
    using safe_callbacks.type_safe [OF B s, of f] tables(2)
    by (auto simp: link_step_def intro: lookup_rule [where P = "\<lambda>h. okay snd s (h i s)"])
  show "okay id s (e_kill_fn (link_step B E) f i pa s)" for pa
    using safe_callbacks.kill_safe [OF B s, of f pa] tables(3)
    by (auto simp: link_step_def intro: lookup_rule [where P = "\<lambda>h. okay id s (h i pa s)"])
next
  fix s f
  assume s: "prog_wf s"
  note tables = safe_callbacks.module_tables_okay [OF E later_refl [OF s]]
  show "okay snd s (e_mod_init (link_step B E) f s)"
    using safe_callbacks.mod_init_safe [OF B s, of f] tables(1)
    by (auto simp: link_step_def intro: lookup_rule [where P = "\<lambda>h. okay snd s (h s)"])
  show "okay id s (e_mod_unload (link_step B E) f s)"
    using safe_callbacks.mod_unload_safe [OF B s, of f] tables(2)
    by (auto simp: link_step_def intro: lookup_rule [where P = "\<lambda>h. okay id s (h s)"])
next
  fix s f arg r s'
  assume s: "prog_wf s" and call: "e_command (link_step B E) f arg s = Some (r, s')"
  show "prog_wf s'"
  proof (cases "map_of (command_table E) f")
    case None
    with call have "e_command B f arg s = Some (r, s')" by (simp add: link_step_def lookup_def)
    from safe_callbacks.command_safe [OF B s this] show ?thesis .
  next
    case (Some h)
    with call have "h arg s = Some (r, s')" by (simp add: link_step_def lookup_def)
    from safe_callbacks.command_table_wf [OF E s map_of_SomeD [OF Some] this] show ?thesis .
  qed
qed

lemma link_safe: "safe_callbacks B \<Longrightarrow> safe_callbacks (link B k)"
  by (induction k) (simp_all add: link_step_safe)

text \<open>The program with the modelled modules only: no other function can be called.\<close>

definition no_functions :: "env \<Rightarrow> env" where
  "no_functions B = B\<lparr>e_hook := \<lambda>_ _ _. None, e_state_fn := \<lambda>_ _ _. None, e_type_fn := \<lambda>_ _ _. None,
     e_kill_fn := \<lambda>_ _ _ _. None, e_mod_init := \<lambda>_ _. None, e_mod_unload := \<lambda>_ _. None, e_command := \<lambda>_ _ _. None\<rparr>"

lemma no_functions_safe: "safe_callbacks (no_functions B)"
  by (rule safe_callbacks.intro) (simp_all add: no_functions_def okay_None)

interpretation linked: safe_callbacks "link (no_functions B) k" for B k
  by (rule link_safe) (rule no_functions_safe)

end
