(* ===== verification/Reachable.thy ===== *)
theory Reachable
  imports Program
begin

text \<open>
  The states the whole program reaches: what \<open>main\<close> leaves when it enters its loop, and what each
  round of the loop makes of it, with the clock and the signals changing between the rounds.
\<close>

section \<open>Runs of the program\<close>

text \<open>
  The environments in \<open>Bs\<close> are the worlds the program may meet: the answers of the operating
  system and the functions of the modules that are not part of the model. Every round may meet
  another one. Between the rounds a client of the program may have a registered command executed.
  The first argument of the predicate is the variable \<open>last\<close> of \<open>main\<close>.
\<close>

inductive reachable :: "env set \<Rightarrow> timeval \<Rightarrow> sys \<Rightarrow> bool" for Bs where
  start: "B \<in> Bs \<Longrightarrow> main_start (link B k) fnm dir argv clock = Some (Continue s) \<Longrightarrow> reachable Bs clock s"
| world: "reachable Bs lst s \<Longrightarrow> reachable Bs lst (s\<lparr>g_clock := c, g_signals_got := sigs\<rparr>)"
| command: "reachable Bs lst s \<Longrightarrow> B \<in> Bs \<Longrightarrow> initng_command_execute_arg (link B k) cid arg s = Some (r, t) \<Longrightarrow>
    reachable Bs lst t"
| round: "reachable Bs lst s \<Longrightarrow> B \<in> Bs \<Longrightarrow> main_round (link B k) lst s = Some (Continue t) \<Longrightarrow>
    reachable Bs (g_clock s) t"

lemma reachable_wf:
  assumes "\<And>B. B \<in> Bs \<Longrightarrow> safe_callbacks B"
  shows "reachable Bs lst s \<Longrightarrow> prog_wf s"
proof (induction rule: reachable.induct)
  case (start B k fnm dir argv clock s)
  from safe_callbacks.main_start_run [OF link_safe [OF assms [OF start(1)]]] start(2) show ?case
    by (auto simp: wf_run_def)
next
  case (command lst s B k cid arg r t)
  from safe_callbacks.command_safe [OF link_safe [OF assms [OF command(2)]] command.IH] command.IH command(3) show ?case
    by (auto simp: initng_command_execute_arg_def simp del: link.simps split: option.splits if_splits)
next
  case (round lst s B k t)
  from safe_callbacks.main_round_run [OF link_safe [OF assms [OF round(2)]] round.IH] round(3) show ?case
    by (auto simp: wf_run_def)
qed simp

section \<open>A boot\<close>

text \<open>
  A world with two module files, those of the runlevels and of the service files, in which every
  file is one to execute and a fork gives the child the pid 7.
\<close>

definition boot_world :: env where
  "boot_world = (bare_env 20)\<lparr>
     e_readdir := \<lambda>_ _. Some [''modrunlevel.so'', ''modservice_file.so''],
     e_stat := \<lambda>_ _. Some 33261,
     e_fork := \<lambda>_ _. 7,
     e_dlopen := \<lambda>path _. (let m = (if path = ''/lib/initng/modrunlevel.so'' then ''runlevel'' else ''service_file'')
       in Some \<lparr>mi_api_version = 19, mi_init = Some m, mi_unload = Some m, mi_deps = []\<rparr>)\<rparr>"

lemma boot_world_safe: "safe_callbacks boot_world"
  by (rule safe_callbacks.intro) (simp_all add: boot_world_def bare_env_def okay_None)

definition boot :: env where "boot = link boot_world 3"

lemma boot_fields [simp]:
  "e_fuel boot = 20" "e_readdir boot d s = Some [''modrunlevel.so'', ''modservice_file.so'']" "e_stat boot p s = Some 33261"
  "e_fork boot n s = 7"
  "e_dlopen boot path s =
     (let m = (if path = ''/lib/initng/modrunlevel.so'' then ''runlevel'' else ''service_file'')
      in Some \<lparr>mi_api_version = 19, mi_init = Some m, mi_unload = Some m, mi_deps = []\<rparr>)"
  by (simp_all add: boot_def boot_world_def bare_env_def)

lemma boot_functions:
  "e_mod_init boot ''runlevel'' s = Some (runlevel_module_init s)"
  "e_mod_init boot ''service_file'' s = Some (service_file_module_init s)"
  "e_hook boot ''create_new_active'' = create_new_active (link boot_world 2)"
  by (simp_all add: boot_def numeral_3_eq_3 numeral_2_eq_2 link_functions lookup_def init_table_def hook_table_defs
      del: link.simps)

lemma state_register_frame:
  "g_hooks (snd (initng_active_state_register st s)) = g_hooks s"
  "g_modules (snd (initng_active_state_register st s)) = g_modules s"
  "g_module_db (snd (initng_active_state_register st s)) = g_module_db s"
  "g_active_db (snd (initng_active_state_register st s)) = g_active_db s"
  "g_argv (snd (initng_active_state_register st s)) = g_argv s"
  "g_hot_reload (snd (initng_active_state_register st s)) = g_hot_reload s"
  "g_runlevel (snd (initng_active_state_register st s)) = g_runlevel s"
  "g_sys_state (snd (initng_active_state_register st s)) = g_sys_state s"
  by (simp_all add: initng_active_state_register_def)

lemma runlevel_init_frame:
  "g_hooks (snd (runlevel_module_init s)) = g_hooks s" "g_modules (snd (runlevel_module_init s)) = g_modules s"
  "g_module_db (snd (runlevel_module_init s)) = g_module_db s"
  "g_active_db (snd (runlevel_module_init s)) = g_active_db s" "g_argv (snd (runlevel_module_init s)) = g_argv s"
  "g_hot_reload (snd (runlevel_module_init s)) = g_hot_reload s"
  "g_runlevel (snd (runlevel_module_init s)) = g_runlevel s"
  "g_sys_state (snd (runlevel_module_init s)) = g_sys_state s" "fst (runlevel_module_init s) = TRUE"
  by (simp_all add: runlevel_module_init_def Let_def runlevel_module_states_def initng_service_type_register_def
      state_register_frame)

lemma states_register_frame:
  "g_hooks (register_states sts s) = g_hooks s" "g_modules (register_states sts s) = g_modules s"
  "g_module_db (register_states sts s) = g_module_db s" "g_active_db (register_states sts s) = g_active_db s"
  "g_argv (register_states sts s) = g_argv s" "g_hot_reload (register_states sts s) = g_hot_reload s"
  "g_runlevel (register_states sts s) = g_runlevel s" "g_sys_state (register_states sts s) = g_sys_state s"
  by (induction sts arbitrary: s) (simp_all add: register_states_def state_register_frame)

lemma service_file_init_frame:
  "g_hooks (snd (service_file_module_init s)) =
     g_hooks (hook ''initng_service_file.c'' EVENT_PIPE_WATCHER ''get_pipe''
       (hook ''initng_service_file.c'' EVENT_NEW_ACTIVE ''create_new_active'' (initng_process_db_ptype_register parse s)))"
  "g_modules (snd (service_file_module_init s)) = g_modules s"
  "g_module_db (snd (service_file_module_init s)) = g_module_db s"
  "g_active_db (snd (service_file_module_init s)) = g_active_db s" "g_argv (snd (service_file_module_init s)) = g_argv s"
  "g_hot_reload (snd (service_file_module_init s)) = g_hot_reload s"
  "g_runlevel (snd (service_file_module_init s)) = g_runlevel s"
  "g_sys_state (snd (service_file_module_init s)) = g_sys_state s" "fst (service_file_module_init s) = TRUE"
  by (simp_all add: service_file_module_init_def states_register_frame hook_def initng_event_hook_register_def
      initng_process_db_ptype_register_def bump_addr_def Let_def)

lemma boot_loads:
  assumes "g_module_db s = []" "g_argv s = [''/sbin/init'']" "g_hooks s = (\<lambda>_. [])"
  shows "\<exists>t. initng_module_load_all boot (\<lambda>_ _. False) ''/lib/initng'' s = Some (TRUE, t)
    \<and> g_active_db t = g_active_db s \<and> g_argv t = g_argv s \<and> g_hot_reload t = g_hot_reload s
    \<and> g_runlevel t = g_runlevel s \<and> g_sys_state t = g_sys_state s
    \<and> map c_pointer (g_hooks t EVENT_NEW_ACTIVE) = [''create_new_active''] \<and> g_hooks t EVENT_SYSTEM_CHANGE = []"
proof -
  have "initng_common_service_blacklisted fnm m s = FALSE" if "g_argv s = [''/sbin/init'']" for fnm m s
    using that by (simp add: initng_common_service_blacklisted_def)
  with assms show ?thesis
    by (simp add: initng_module_load_all_def scan_file_def without_suffix_def initng_module_open_def API_VERSION_def
        Let_def while_list_safe_def list_add_def bump_addr_def upd_module_def prev_of_def load_body_def
        module_needs_are_loaded_def init_module_def boot_functions case_prod_unfold runlevel_init_frame
        service_file_init_frame initng_process_db_ptype_register_def
        eval_nat_numeral hook_def initng_event_hook_register_def)
qed

lemma fork_returns:
  assumes "e_fork E 0 = (\<lambda>_. pid)" "0 < pid" "process_at i pa s = Some p"
  shows "\<exists>t. initng_fork E i pa s = Some (pid, t) \<and> g_active_db t = g_active_db s"
proof -
  have "fork_loop E 0 u = pid" for u
    using assms(1,2) by (simp add: fork_loop.simps)
  moreover have "process_at i pa (upd_process i pa (\<lambda>p. p\<lparr>p_pipes := f (p_pipes p)\<rparr>) s) = Some (p\<lparr>p_pipes := f (p_pipes p)\<rparr>)" for f
    using process_at_upd [OF assms(3)] by simp
  ultimately show ?thesis using assms
    by (simp add: initng_fork_def pipes_close_remote_side_def Let_def add_effects_def upd_process_def)
qed

lemma parse_loads:
  assumes "g_active_db s = []"
  shows "\<exists>t. parse_first (link boot_world 2) n (service_paths n) s = Some (Some (g_next_sid s), t)
    \<and> g_active_db t = [g_next_sid s]"
proof -
  define E where "E = link boot_world 2"
  have E: "e_fork E 0 = (\<lambda>_. 7)" "e_stat E p u = Some 33261" for p u
    by (simp_all add: E_def boot_world_def bare_env_def)
  define i where "i = g_next_sid s"
  define u where "u = snd (initng_active_db_register i (upd_svc i (\<lambda>a. a\<lparr>a_current_state := PARSING_FOR_START, a_type := Some unset\<rparr>)
    (snd (initng_active_db_new n s))))"
  have u: "g_active_db u = [i]" "a_processes (svc u i) = []"
    "initng_active_db_register i (upd_svc i (\<lambda>a. a\<lparr>a_current_state := PARSING_FOR_START, a_type := Some unset\<rparr>)
      (snd (initng_active_db_new n s))) = (TRUE, u)"
    using assms
    by (simp_all add: u_def i_def initng_active_db_new_def initng_active_db_register_def initng_active_db_find_by_name_def
        list_add_def Let_def calloc_service_def)
  define process where "process = fst (initng_process_db_new parse u)"
  define pipe where "pipe = (initng_process_db_pipe_new IN_AND_OUT_PIPE)\<lparr>pipe_targets := [3]\<rparr>"
  define v where "v = add_process (process\<lparr>p_pipes := list_add pipe (p_pipes process)\<rparr>) i (snd (initng_process_db_new parse u))"
  have v: "g_active_db v = [i]" "process_at i (p_addr process) v = Some (process\<lparr>p_pipes := list_add pipe (p_pipes process)\<rparr>)"
    using u(1,2) by (simp_all add: v_def add_process_def initng_process_db_new_def process_at_def list_add_def bump_addr_def Let_def)
  from fork_returns [OF E(1) _ v(2)] obtain t where "initng_fork E i (p_addr process) v = Some (7, t)" "g_active_db t = [i]"
    using v(1) by auto
  moreover have "fst (initng_active_db_new n s) = i" by (simp add: i_def initng_active_db_new_def Let_def)
  ultimately have "\<exists>t. parse_new_service_file E n path s = Some (Some i, t) \<and> g_active_db t = [i]" for path
    by (simp add: parse_new_service_file_def E(2) S_ISREG_def S_IXUSR_def Let_def case_prod_unfold u(3)
        process_def [symmetric] pipe_def [symmetric] v_def [symmetric] add_effects_def)
  from this [of "INITNG_ROOT @ ''/'' @ n"] obtain t where
    "parse_new_service_file E n (INITNG_ROOT @ ''/'' @ n) s = Some (Some i, t)" "g_active_db t = [i]" by blast
  then show ?thesis
    unfolding E_def [symmetric] i_def [symmetric] service_paths_def Let_def by simp
qed

lemma boot_starts_runlevel:
  assumes "g_active_db s = []" "g_hooks s EVENT_NEW_ACTIVE = [c]" "c_pointer c = ''create_new_active''"
  shows "\<exists>t. initng_handler_start_new_service_named boot RUNLEVEL_DEFAULT s = Some (Some (g_next_sid s), t)
    \<and> g_active_db t = [g_next_sid s]"
proof -
  from parse_loads [OF assms(1)] obtain t where
    "parse_first (link boot_world 2) RUNLEVEL_DEFAULT (service_paths RUNLEVEL_DEFAULT) s = Some (Some (g_next_sid s), t)"
    "g_active_db t = [g_next_sid s]" by blast
  with assms show ?thesis
    by (simp add: initng_handler_start_new_service_named_def start_new_service_named_def
        initng_active_db_find_by_name_def initng_module_active_new_def initng_event_send_def while_list_def prev_of_def
        send_hook_def boot_functions event_def create_new_active_def RUNLEVEL_DEFAULT_def initng_string_basename_def
        strrchr_pos_def eval_nat_numeral)
qed

lemma global_new_fields:
  "g_argv (initng_config_global_new argv clock) = argv" "g_runlevel (initng_config_global_new argv clock) = None"
  "g_hooks (initng_config_global_new argv clock) = (\<lambda>_. [])" "g_module_db (initng_config_global_new argv clock) = []"
  "\<not> g_hot_reload (initng_config_global_new argv clock)"
  "g_sys_state (initng_config_global_new argv clock) = STATE_NULL"
proof -
  have ev: "g_argv (fold initng_event_type_register ts s) = g_argv s"
      "g_runlevel (fold initng_event_type_register ts s) = g_runlevel s"
      "g_hooks s = (\<lambda>_. []) \<Longrightarrow> g_hooks (fold initng_event_type_register ts s) = (\<lambda>_. [])"
      "g_module_db (fold initng_event_type_register ts s) = g_module_db s"
      "g_hot_reload (fold initng_event_type_register ts s) = g_hot_reload s"
      "g_sys_state (fold initng_event_type_register ts s) = g_sys_state s" for ts s
    by (induction ts arbitrary: s) (simp_all add: initng_event_type_register_def Let_def fun_upd_idem)
  show "g_argv (initng_config_global_new argv clock) = argv" "g_runlevel (initng_config_global_new argv clock) = None"
    "g_hooks (initng_config_global_new argv clock) = (\<lambda>_. [])" "g_module_db (initng_config_global_new argv clock) = []"
    "\<not> g_hot_reload (initng_config_global_new argv clock)"
    "g_sys_state (initng_config_global_new argv clock) = STATE_NULL"
    by (simp_all add: initng_config_global_new_def initng_register_static_event_types_def ev
        initng_static_stypes_register_defaults_def initng_service_type_register_def state_register_frame
        initng_static_states_register_defaults_def initng_static_data_id_register_defaults_def
        initng_service_data_type_register_def global_zero_def)
qed

lemma boots:
  "\<exists>t. main_start boot (\<lambda>_ _. False) ''/lib/initng'' [''/sbin/init''] clock = Some (Continue t) \<and> g_active_db t \<noteq> []"
proof -
  let ?s = "initng_config_global_new [''/sbin/init''] clock"
  note s = global_new_fields [of "[''/sbin/init'']" clock]
  let ?u = "?s\<lparr>g_when_out := THEN_SULOGIN, g_old_runlevel := None, g_runlevel := Some RUNLEVEL_DEFAULT\<rparr>"
  obtain t c where t: "initng_module_load_all boot (\<lambda>_ _. False) ''/lib/initng'' ?u = Some (TRUE, t)"
    "g_active_db t = g_active_db ?s" "g_argv t = g_argv ?s" "g_hot_reload t = g_hot_reload ?s"
    "g_runlevel t = Some RUNLEVEL_DEFAULT" "g_sys_state t = g_sys_state ?s"
    "g_hooks t EVENT_NEW_ACTIVE = [c]" "c_pointer c = ''create_new_active''" "g_hooks t EVENT_SYSTEM_CHANGE = []"
    using boot_loads [of ?u] s by auto
  let ?v = "initng_signal_enable t\<lparr>g_sys_state := STATE_STARTING\<rparr>"
  obtain v where "initng_handler_start_new_service_named boot RUNLEVEL_DEFAULT ?v = Some (Some (g_next_sid ?v), v)"
    "g_active_db v = [g_next_sid ?v]"
    using boot_starts_runlevel [of ?v c] t s by (auto simp: initng_signal_enable_def)
  then show ?thesis using s t
    by (simp add: main_start_def then_run_def Let_def handle_it_def initng_config_opt_get_def cut_at_def opts_def
        initng_main_set_runlevel_def initng_module_callers_system_changed_def initng_main_set_sys_state_def
        initng_main_start_extra_services_def initng_signal_enable_def)
qed

section \<open>Properties\<close>



end
