(* ===== verification/Contracts.thy ===== *)
theory Contracts
  imports Reachable
begin

text \<open>
  The contracts of the core, discharged for the linked modules: launching, starting and the
  alarms.
\<close>

section \<open>Hooks of the linked program\<close>

lemma no_functions_calls [simp]:
  "e_hook (no_functions B) f ev s = None" "e_state_fn (no_functions B) f i s = None"
  "e_type_fn (no_functions B) f i s = None" "e_fuel (no_functions B) = e_fuel B"
  by (simp_all add: no_functions_def)

lemma linked_hook:
  assumes "e_hook (link (no_functions B) k) f ev s = Some (ev', s')"
  obtains k' h where "k = Suc k'" "(f, h) \<in> set (hook_table (link (no_functions B) k'))" "h ev s = Some (ev', s')"
proof (cases k)
  case (Suc k')
  with assms that show ?thesis
    by (auto simp: link_functions lookup_def split: option.splits dest: map_of_SomeD simp del: link.simps)
qed (use assms in simp)

text \<open>A hook accepts the events of its own type only; the others are failed assertions.\<close>

lemma service_hook_type:
  assumes "(f, h) \<in> set (service_hooks E)" "h ev s = Some (ev', s')"
  shows "ev_type ev = EVENT_LAUNCH \<Longrightarrow> h = initng_s_launch E"
    and "ev_type ev = EVENT_UP_MET \<Longrightarrow> h = check_files_to_exist_after E"
    and "ev_type ev \<noteq> EVENT_NEW_ACTIVE"
  using assms
  by (auto simp: service_hooks_def also_service_state_def check_conflict_def status_change_def check_last_def
      check_syncronicly_def check_syncronicly_service_def check_files_to_exist_def check_files_to_exist_after_def
      interactive_STARTING_def interactive_STOP_MARKED_def interactive_ask_def on_kill_def ctrlaltdel_def
      provide_service_state_def initng_s_launch_def event_service_def Let_def
      split: bind_splits option.splits if_splits event_data.splits e_is.splits)

lemma other_hook_type:
  assumes "(f, h) \<in> set (fork_hooks E @ watch_hooks E)" "h ev s = Some (ev', s')"
  shows "ev_type ev \<notin> {EVENT_LAUNCH, EVENT_UP_MET, EVENT_NEW_ACTIVE}"
  using assms
  by (auto simp: fork_hooks_def do_chdir_def do_chroot_def do_renice_def do_pause_def do_suid_def setup_output_def do_limit_def
      fork_data_def watch_hooks_def history_add_values_def fetch_output_def history_db_compensate_time_def
      probe_network_devices_def system_stopping_def hup_request_def is_system_up_def check_cpu_idle_def check_critical_def
      program_output_def sysreq_def get_pipe_def event_service_def Let_def
      split: bind_splits option.splits if_splits event_data.splits prod.splits)

lemma hook_type:
  assumes h: "(f, h) \<in> set (hook_table E)" "h ev s = Some (ev', s')"
  shows "ev_type ev = EVENT_LAUNCH \<Longrightarrow> h = initng_s_launch E"
    and "ev_type ev = EVENT_UP_MET \<Longrightarrow> h = check_files_to_exist_after E"
    and "ev_type ev = EVENT_NEW_ACTIVE \<Longrightarrow> h = create_new_active E"
    and "ev_type ev' = ev_type ev"
proof -
  consider (plain) "(f, h) \<in> set (service_hooks E)" | (other) "(f, h) \<in> set (fork_hooks E @ watch_hooks E)"
    | (parser) "h = create_new_active E" | (io) "h = pipe_io_handler E"
    using h(1) by (auto simp: hook_table_def)
  then have "(ev_type ev = EVENT_LAUNCH \<longrightarrow> h = initng_s_launch E) \<and> (ev_type ev = EVENT_UP_MET \<longrightarrow> h = check_files_to_exist_after E)
    \<and> (ev_type ev = EVENT_NEW_ACTIVE \<longrightarrow> h = create_new_active E) \<and> ev_type ev' = ev_type ev"
  proof cases
    case plain
    from service_hook_type [OF plain h(2)] service_hook_event [OF plain h(2)] show ?thesis by simp
  next
    case other
    with fork_hook_event [of f h E ev s] watch_hook_event [of f h E ev s] h(2) have "ev_type ev' = ev_type ev" by auto
    with other_hook_type [OF other h(2)] show ?thesis by simp
  next
    case parser
    with h(2) show ?thesis by (auto simp: create_new_active_def split: bind_splits event_data.splits if_splits)
  next
    case io
    with h(2) show ?thesis by (auto simp: pipe_io_handler_def Let_def split: bind_splits event_data.splits if_splits)
  qed
  then show "ev_type ev = EVENT_LAUNCH \<Longrightarrow> h = initng_s_launch E"
    "ev_type ev = EVENT_UP_MET \<Longrightarrow> h = check_files_to_exist_after E"
    "ev_type ev = EVENT_NEW_ACTIVE \<Longrightarrow> h = create_new_active E" "ev_type ev' = ev_type ev" by simp_all
qed

section \<open>Launching\<close>

text \<open>Changes that leave the types and the activity of the processes alone.\<close>

definition same_activity :: "sys \<Rightarrow> sys \<Rightarrow> bool" where
  "same_activity s t \<longleftrightarrow> (\<forall>i. map (\<lambda>p. (p_pst p, p_pt p)) (a_processes (svc t i)) =
     map (\<lambda>p. (p_pst p, p_pt p)) (a_processes (svc s i)))"

lemma same_activity_refl: "same_activity s s"
  by (simp add: same_activity_def)

lemma same_activity_trans: "same_activity s t \<Longrightarrow> same_activity t u \<Longrightarrow> same_activity s u"
  by (simp add: same_activity_def)

lemma same_activity_one: "same_activity s t \<Longrightarrow> one_active s \<Longrightarrow> one_active t"
proof -
  have f: "length (filter (\<lambda>p. p_pst p = P_ACTIVE \<and> p_pt p = ty) ps) =
      length (filter (\<lambda>x. x = (P_ACTIVE, ty)) (map (\<lambda>p. (p_pst p, p_pt p)) ps))" for ty and ps :: "process_h list"
    by (induction ps) auto
  show "same_activity s t \<Longrightarrow> one_active s \<Longrightarrow> one_active t"
    unfolding one_active_def f same_activity_def by simp
qed

text \<open>Computations that relate their first state to their last one.\<close>

definition keeps :: "(sys \<Rightarrow> sys \<Rightarrow> bool) \<Rightarrow> ('r \<Rightarrow> sys) \<Rightarrow> sys \<Rightarrow> 'r option \<Rightarrow> bool" where
  "keeps R pr s m \<longleftrightarrow> (\<forall>x. m = Some x \<longrightarrow> R s (pr x))"

named_theorems keeps_rules \<open>computations that relate their first state to their last one\<close>

lemma keeps_end [keeps_rules]: "R s (pr x) \<Longrightarrow> keeps R pr s (Some x)" "keeps R pr s None"
  by (simp_all add: keeps_def)

lemma keeps_binds [keeps_rules]:
  fixes mp :: "('a \<times> sys) option" and ms :: "sys option"
  shows "keeps R snd s mp \<Longrightarrow> (\<And>r t. R s t \<Longrightarrow> keeps R pr s (f (r, t))) \<Longrightarrow> keeps R pr s (mp \<bind> f)"
    "keeps R id s ms \<Longrightarrow> (\<And>t. R s t \<Longrightarrow> keeps R pr s (g t)) \<Longrightarrow> keeps R pr s (ms \<bind> g)"
  by (auto simp: keeps_def split: bind_splits)

lemma keeps_lookups [keeps_rules]:
  fixes p :: "process_h option" and str :: "string option" and toks :: "(string list \<times> nat) option"
    and found :: "string option option" and num :: "int option"
  shows "(\<And>x. keeps R pr s (f1 x)) \<Longrightarrow> keeps R pr s (p \<bind> f1)"
    "(\<And>x. keeps R pr s (f2 x)) \<Longrightarrow> keeps R pr s (str \<bind> f2)"
    "(\<And>x. keeps R pr s (f3 x)) \<Longrightarrow> keeps R pr s (toks \<bind> f3)"
    "(\<And>x. keeps R pr s (f4 x)) \<Longrightarrow> keeps R pr s (found \<bind> f4)"
    "(\<And>x. keeps R pr s (f5 x)) \<Longrightarrow> keeps R pr s (num \<bind> f5)"
  by (auto simp: keeps_def split: bind_splits)

lemma same_activity_steps:
  "same_activity s (add_effects es s)" "same_activity s (upd_process i pa (\<lambda>p. p\<lparr>p_pid := n\<rparr>) s)"
  "same_activity s (upd_process i pa (\<lambda>p. p\<lparr>p_pipes := g (p_pipes p)\<rparr>) s)" "same_activity s (upd_data i d s)"
  by (auto simp: same_activity_def add_effects_def upd_process_def upd_svc_def upd_data_def comp_def)

lemmas same_activity_rules [keeps_rules] = same_activity_trans [OF _ same_activity_steps(1)]
  same_activity_trans [OF _ same_activity_steps(2)] same_activity_trans [OF _ same_activity_steps(3)]
  same_activity_trans [OF _ same_activity_steps(4)]

lemma activity_fork [keeps_rules]:
  assumes "same_activity s0 s"
  shows "keeps same_activity snd s0 (initng_fork E i pa s)"
proof -
  have "keeps same_activity id s0 (pipes_close_remote_side i pa t)" if "same_activity s0 t" for t
    using that by (auto simp: pipes_close_remote_side_def intro!: keeps_rules)
  then have "same_activity s0 t \<Longrightarrow> keeps same_activity id s0 (pipes_close_remote_side i pa t)" for t .
  note [keeps_rules] = this
  from assms show ?thesis by (auto simp: initng_fork_def Let_def intro!: keeps_rules)
qed

lemma activity_exec_fork [keeps_rules]:
  "same_activity s0 s \<Longrightarrow> keeps same_activity snd s0 (simple_exec_fork E pa i argv s)"
  by (auto simp: simple_exec_fork_def intro!: keeps_rules)

lemma activity_fix [keeps_rules]: "same_activity s0 s \<Longrightarrow> keeps same_activity snd s0 (fix_variable c i s)"
  by (auto simp: fix_variable_def intro!: keeps_rules)

lemma activity_exec [keeps_rules]:
  assumes "same_activity s0 s"
  shows "keeps same_activity snd s0 (simple_exec E i pa s)" "keeps same_activity snd s0 (simple_run E i pa s)"
proof -
  have tried: "keeps same_activity snd s0 (simple_exec_try E c i pa s)" if "same_activity s0 s" for c s
    using that by (auto simp: simple_exec_try_def intro!: keeps_rules split: option.split)
  have "keeps same_activity snd s0 (simple_exec_loop E k i pa pt itt s)" if "same_activity s0 s" for k pt itt s
    using that by (induction k arbitrary: itt s) (auto intro!: keeps_rules tried split: option.split)
  with assms show "keeps same_activity snd s0 (simple_exec E i pa s)"
    by (auto simp: simple_exec_def intro!: keeps_rules)
  show "keeps same_activity snd s0 (simple_run E i pa s)"
    using assms by (auto simp: simple_run_def intro!: keeps_rules split: option.split list.split)
qed

lemma activity_launch:
  assumes "initng_s_launch E ev s = Some (ev', s')"
  shows "same_activity s s'"
proof -
  have "keeps same_activity snd s (initng_s_launch E ev s)"
    using same_activity_refl [of s]
    by (auto simp: initng_s_launch_def intro!: keeps_rules split: event_data.split)
  with assms show ?thesis by (simp add: keeps_def)
qed

interpretation launches: launch_contract "link (no_functions B) k" for B k
proof
  fix ev :: s_event and f s ev' s'
  assume ev: "ev_type ev = EVENT_LAUNCH" and call: "e_hook (link (no_functions B) k) f ev s = Some (ev', s')"
    and one: "one_active s"
  from call obtain k' h where h: "(f, h) \<in> set (hook_table (link (no_functions B) k'))" "h ev s = Some (ev', s')"
    by (rule linked_hook)
  with hook_type(1,4) [OF h] ev activity_launch same_activity_one one
  show "one_active s' \<and> ev_type ev' = EVENT_LAUNCH" by metis
qed

section \<open>Starting\<close>

definition start_function :: "string \<Rightarrow> bool" where
  "start_function f \<longleftrightarrow> f \<in> set [''start_SERVICE'', ''start_DAEMON'', ''start_RUNLEVEL'', ''start_task'', ''dont_try_to_stop_start'']"

lemma only_state_marked [simp]: "only_state i s (mark i st s)"
  by (simp add: mark_def)

interpretation starts: start_contract "link B (Suc k)" start_function for B k
proof
  fix f i s
  assume "start_function f"
  then show "\<exists>r t. e_type_fn (link B (Suc k)) f i s = Some (r, t) \<and> only_state i s t"
    by (auto simp: start_function_def link_functions lookup_def type_table_def start_SERVICE_def start_DAEMON_def
        start_RUNLEVEL_def start_task_def dont_try_to_stop_start_def Let_def case_prod_unfold simp del: link.simps)
qed

section \<open>Alarms\<close>

text \<open>The alarm functions of the states of the modelled modules.\<close>

definition alarm_function :: "string \<Rightarrow> bool" where
  "alarm_function f \<longleftrightarrow> f \<in> set [''timeout_SERVICE_START_RUN'', ''timeout_SERVICE_STOP_RUN'', ''timeout_DAEMON_KILL'',
     ''timeout_DAEMON_TERM'', ''timeout_DAEMON_WAIT_FOR_PID_FILE'', ''timeout_DAEMON_WAIT_RESP_TOUT'']"

definition alarms_kept :: "sys \<Rightarrow> sys \<Rightarrow> bool" where
  "alarms_kept s t \<longleftrightarrow> (0 < tv_sec (g_now s) \<and> db_fresh s \<longrightarrow>
     db_fresh t \<and> (\<exists>new. g_active_db t = new @ g_active_db s) \<and> g_now t = g_now s \<and> (\<forall>j. alarm_ok s j \<longrightarrow> alarm_ok t j)
     \<and> (\<forall>j g. st_alarm (a_current_state (svc t j)) = Some g \<longrightarrow>
          alarm_function g \<or> st_alarm (a_current_state (svc s j)) = Some g))"

lemma alarms_kept_refl: "alarms_kept s s"
  by (simp add: alarms_kept_def)

lemma alarms_kept_trans: "alarms_kept s t \<Longrightarrow> alarms_kept t u \<Longrightarrow> alarms_kept s u"
  by (auto simp: alarms_kept_def) blast

definition module_state :: "a_state_h \<Rightarrow> bool" where
  "module_state st \<longleftrightarrow> (\<forall>g. st_alarm st = Some g \<longrightarrow> alarm_function g)"

lemma alarms_kept_mark: "module_state st \<Longrightarrow> alarms_kept s (mark i st s)"
  using alarm_ok_mark [of s _ i st]
  by (auto simp: alarms_kept_def db_fresh_def module_state_def mark_def initng_common_mark_service_def
      initng_common_state_unlock_def state_commit_def Let_def upd_svc_def split: option.splits if_splits)

lemma alarms_kept_set: "0 < n \<Longrightarrow> alarms_kept s (initng_handler_set_alarm i n s)"
  using alarm_ok_set [of s n _ i]
  by (auto simp: alarms_kept_def db_fresh_def initng_handler_set_alarm_def Let_def upd_svc_def)

lemma alarms_kept_steps:
  "alarms_kept s (add_effects es s)" "alarms_kept s (upd_process i pa f s)"
  "alarms_kept s (initng_process_db_free i pa s)" "alarms_kept s (initng_global_set_sleep n s)"
  "alarms_kept s (add_process p i s)" "alarms_kept s (snd (initng_process_db_new ty s))"
  by (auto simp: alarms_kept_def db_fresh_def alarm_ok_def add_effects_def upd_process_def upd_svc_def
      initng_process_db_free_def initng_global_set_sleep_def add_process_def initng_process_db_new_def bump_addr_def Let_def)

lemmas alarms_kept_rules [keeps_rules] = alarms_kept_trans [OF _ alarms_kept_mark] alarms_kept_trans [OF _ alarms_kept_set]
  alarms_kept_trans [OF _ alarms_kept_steps(1)] alarms_kept_trans [OF _ alarms_kept_steps(2)]
  alarms_kept_trans [OF _ alarms_kept_steps(3)] alarms_kept_trans [OF _ alarms_kept_steps(4)]
  alarms_kept_trans [OF _ alarms_kept_steps(5)] alarms_kept_trans [OF _ alarms_kept_steps(6)]

lemma module_states [keeps_rules]:
  "module_state SERVICE_UP_CHECK_FAILED" "module_state SERVICE_DONE" "module_state SERVICE_FAIL_START_SIGNAL"
  "module_state SERVICE_FAIL_START_RCODE" "module_state SERVICE_START_FAILED_TIMEOUT" "module_state SERVICE_STOPPED"
  "module_state SERVICE_FAIL_STOP_SIGNAL" "module_state SERVICE_FAIL_STOP_RCODE" "module_state SERVICE_STOP_FAILED_TIMEOUT"
  "module_state SERVICE_START_MARKED" "module_state SERVICE_STOP_MARKED"
  "module_state DAEMON_KILL" "module_state DAEMON_FAIL_START_TIMEOUT_PIDFILE" "module_state DAEMON_UP_CHECK_FAILED"
  "module_state DAEMON_RUNNING" "module_state DAEMON_STOPPED" "module_state DAEMON_START_MARKED"
  "module_state DAEMON_STOP_MARKED" "module_state RUNLEVEL_UP" "module_state RUNLEVEL_DOWN"
  "module_state RUNLEVEL_START_MARKED" "module_state RUNLEVEL_STOP_MARKED" "module_state TASK_RUN_MARKED"
  "module_state REQUIRE_FILE_AFTER_FAILED" "module_state REQ_NOT_FOUND"
  by (simp_all add: module_state_def alarm_function_def service_states daemon_states plain_state_def
      RUNLEVEL_UP_def RUNLEVEL_DOWN_def RUNLEVEL_START_MARKED_def RUNLEVEL_STOP_MARKED_def TASK_RUN_MARKED_def
      REQUIRE_FILE_AFTER_FAILED_def REQ_NOT_FOUND_def)

text \<open>Loops over the variables of a service.\<close>

lemma keeps_next_string [keeps_rules]:
  assumes "\<And>c t. R s0 t \<Longrightarrow> keeps R snd s0 (body c t)"
  shows "R s0 s \<Longrightarrow> keeps R snd s0 (while_next_string type D body k cur s)"
  by (induction k arbitrary: cur s) (auto intro!: keeps_rules assms split: prod.split option.split)

lemma keeps_get_next [keeps_rules]:
  assumes "\<And>c t. R s0 t \<Longrightarrow> keeps R snd s0 (body c t)"
  shows "R s0 s \<Longrightarrow> keeps R snd s0 (while_get_next type D body k cur s)"
  by (induction k arbitrary: cur s) (auto intro!: keeps_rules assms split: prod.split option.split)

lemma alarms_up_met:
  assumes "alarms_kept s0 s"
  shows "keeps alarms_kept snd s0 (check_files_to_exist_after E ev s)"
proof -
  have "keeps alarms_kept snd s0 (wait_file_body E path t)"
    "keeps alarms_kept snd s0 (require_file_body E i REQUIRE_FILE_AFTER_FAILED path t)" if "alarms_kept s0 t" for path i t
    using that by (auto simp: wait_file_body_def require_file_body_def intro!: keeps_rules)
  note bodies = this
  have "keeps alarms_kept snd s0 (do {
      (r, s) \<leftarrow> while_next_string WAIT_FOR_FILE_AFTER (\<lambda>s. a_data (svc s i)) (wait_file_body E) (e_fuel E) None s;
      (if r \<noteq> None then Some (ev\<lparr>ev_status := FAILED\<rparr>, s)
       else do {
         (r, s) \<leftarrow> while_next_string WAIT_FOR_FILE_AFTER (\<lambda>s. a_data (svc s i))
           (require_file_body E i REQUIRE_FILE_AFTER_FAILED) (e_fuel E) None s;
         Some (if r \<noteq> None then ev\<lparr>ev_status := FAILED\<rparr> else ev, s) }) })" for i
    using assms by (auto intro!: keeps_rules bodies)
  then show ?thesis by (auto simp: check_files_to_exist_after_def keeps_def split: bind_splits)
qed

lemma alarms_up_check [keeps_rules]:
  assumes "alarms_kept s0 s"
  shows "keeps alarms_kept snd s0 (initng_depend_up_check (link (no_functions B) k) i s)"
proof -
  have "hook_invariant (link (no_functions B) k) EVENT_UP_MET (alarms_kept s0)"
  proof
    fix ev :: s_event and f t ev' t'
    assume ev: "ev_type ev = EVENT_UP_MET" and call: "e_hook (link (no_functions B) k) f ev t = Some (ev', t')"
      and t: "alarms_kept s0 t"
    from call obtain k' h where h: "(f, h) \<in> set (hook_table (link (no_functions B) k'))" "h ev t = Some (ev', t')"
      by (rule linked_hook)
    with hook_type [OF h] ev alarms_up_met [OF t, of "link (no_functions B) k'" ev]
    show "alarms_kept s0 t' \<and> ev_type ev' = EVENT_UP_MET" by (auto simp: keeps_def)
  qed
  from hook_invariant.send_keeps [OF this, of "event EVENT_UP_MET (ED_service i)" s] assms show ?thesis
    by (auto simp: initng_depend_up_check_def keeps_def split: bind_splits)
qed

lemma alarms_type_fn [keeps_rules]:
  assumes "alarms_kept s0 s"
  shows "keeps alarms_kept snd s0 (e_type_fn (link (no_functions B) k) f i s)"
proof (cases k)
  case (Suc k')
  have "keeps alarms_kept snd s0 (h i s)" if "(f, h) \<in> set type_table" for h
    using that assms
    by (auto simp: type_table_def start_SERVICE_def stop_SERVICE_def start_DAEMON_def stop_DAEMON_def start_RUNLEVEL_def
        stop_RUNLEVEL_def start_task_def dont_try_to_stop_start_def Let_def case_prod_unfold mark_def [symmetric]
        intro!: keeps_rules)
  with Suc show ?thesis
    by (auto simp: link_functions keeps_end(2) intro: lookup_rule [where P = "\<lambda>h. keeps alarms_kept snd s0 (h i s)"]
        simp del: link.simps)
qed (simp add: keeps_end(2))

text \<open>Loading a new service.\<close>

lemma alarms_kept_new:
  assumes i: "i = g_next_sid s" and db: "g_active_db t = g_active_db s \<or> g_active_db t = i # g_active_db s"
    and same: "g_now t = g_now s" "g_next_sid t = i + 1" "g_next_alarm t = g_next_alarm s"
    and other: "\<And>j. j \<noteq> i \<Longrightarrow> svc t j = svc s j"
    and new: "a_alarm (svc t i) = 0" "st_alarm (a_current_state (svc t i)) = None"
  shows "alarms_kept s t"
proof -
  have "alarm_ok s j \<Longrightarrow> alarm_ok t j" for j
    using other [of j] new(1) same(3) by (cases "j = i") (simp_all add: alarm_ok_def)
  moreover have "st_alarm (a_current_state (svc t j)) = Some g \<Longrightarrow> st_alarm (a_current_state (svc s j)) = Some g" for j g
    using other [of j] new(2) by (cases "j = i") simp_all
  moreover have "db_fresh s \<Longrightarrow> db_fresh t" using i db same(2) by (auto simp: db_fresh_def less_Suc_eq)
  moreover have "\<exists>new. g_active_db t = new @ g_active_db s" using db by auto
  ultimately show ?thesis using same(1) by (simp add: alarms_kept_def)
qed

lemma alarms_new:
  fixes n s ty
  defines "i \<equiv> g_next_sid s"
  defines "u \<equiv> upd_svc i (\<lambda>a. a\<lparr>a_current_state := PARSING_FOR_START, a_type := ty\<rparr>) (snd (initng_active_db_new n s))"
  shows "alarms_kept s (snd (initng_active_db_register i u))" "alarms_kept s (initng_active_db_free i u)"
proof -
  have u: "g_active_db u = g_active_db s" "g_now u = g_now s" "g_next_sid u = i + 1" "g_next_alarm u = g_next_alarm s"
    "\<And>j. j \<noteq> i \<Longrightarrow> svc u j = svc s j" "a_processes (svc u i) = []" "a_alarm (svc u i) = 0"
    "st_alarm (a_current_state (svc u i)) = None"
    by (simp_all add: u_def i_def initng_active_db_new_def Let_def calloc_service_def PARSING_FOR_START_def plain_state_def)
  show "alarms_kept s (snd (initng_active_db_register i u))"
    by (rule alarms_kept_new [where i = i]) (use u i_def in \<open>simp_all add: initng_active_db_register_def list_add_def split: option.split\<close>)
  define v where "v = snd (initng_common_mark_service i FREEING u)"
  have v: "g_active_db v = g_active_db s" "g_now v = g_now s" "g_next_sid v = i + 1" "g_next_alarm v = g_next_alarm s"
    "\<And>j. j \<noteq> i \<Longrightarrow> svc v j = svc s j" "a_processes (svc v i) = []" "a_alarm (svc v i) = 0"
    "st_alarm (a_current_state (svc v i)) = None"
    using u by (simp_all add: v_def initng_common_mark_service_def initng_common_state_unlock_def state_commit_def Let_def
      FREEING_def plain_state_def split: option.split)
  have free: "initng_active_db_free i u = upd_svc i (\<lambda>a. a\<lparr>a_data := initng_data_remove_all (a_data a), a_allocated := False\<rparr>)
      (v\<lparr>g_active_db := list_del i (g_active_db v), g_interrupt := list_del i (g_interrupt v)\<rparr>)"
    using v(6) by (simp add: initng_active_db_free_def v_def [symmetric] Let_def)
  show "alarms_kept s (initng_active_db_free i u)"
  proof (cases "db_fresh s")
    case True
    then have "i \<notin> set (g_active_db s)" by (auto simp: db_fresh_def i_def)
    then show ?thesis unfolding free
      by (intro alarms_kept_new [where i = i]) (use v i_def in \<open>simp_all add: list_del_def remove1_idem\<close>)
  qed (simp add: alarms_kept_def)
qed

lemma alarms_fork [keeps_rules]:
  assumes "alarms_kept s0 s"
  shows "keeps alarms_kept snd s0 (initng_fork E i pa s)"
  using assms by (auto simp: initng_fork_def pipes_close_remote_side_def Let_def intro!: keeps_rules)

lemma alarms_create:
  assumes "alarms_kept s0 s"
  shows "keeps alarms_kept snd s0 (create_new_active E ev s)"
proof -
  have path: "keeps alarms_kept snd s0 (parse_new_service_file E n path s)" if "alarms_kept s0 s" for n path s
  proof -
    have i: "fst (initng_active_db_new n s) = g_next_sid s" by (simp add: initng_active_db_new_def Let_def)
    have f: "fst (initng_active_db_register i u) = FALSE \<Longrightarrow> snd (initng_active_db_register i u) = u" for i u
      by (auto simp: initng_active_db_register_def split: option.splits)
    show ?thesis
      using that
      by (auto simp: parse_new_service_file_def Let_def case_prod_unfold i f
          intro!: keeps_rules alarms_kept_trans [OF _ alarms_new(1)] alarms_kept_trans [OF _ alarms_new(2)]
          split: option.split)
  qed
  have "keeps alarms_kept snd s0 (parse_first E n paths s)" if "alarms_kept s0 s" for n paths s
    using that by (induction paths arbitrary: s) (auto intro!: keeps_rules path)
  with assms show ?thesis by (auto simp: create_new_active_def intro!: keeps_rules split: event_data.split)
qed

lemma alarms_active_new [keeps_rules]:
  assumes "alarms_kept s0 s"
  shows "keeps alarms_kept snd s0 (initng_module_active_new (link (no_functions B) k) n s)"
proof -
  have "hook_invariant (link (no_functions B) k) EVENT_NEW_ACTIVE (alarms_kept s0)"
  proof
    fix ev :: s_event and f t ev' t'
    assume ev: "ev_type ev = EVENT_NEW_ACTIVE" and call: "e_hook (link (no_functions B) k) f ev t = Some (ev', t')"
      and t: "alarms_kept s0 t"
    from call obtain k' h where h: "(f, h) \<in> set (hook_table (link (no_functions B) k'))" "h ev t = Some (ev', t')"
      by (rule linked_hook)
    with hook_type(3,4) [OF h] ev alarms_create [OF t, of "link (no_functions B) k'" ev]
    show "alarms_kept s0 t' \<and> ev_type ev' = EVENT_NEW_ACTIVE" by (auto simp: keeps_def)
  qed
  from hook_invariant.send_keeps [OF this, of "event EVENT_NEW_ACTIVE (ED_name n)" s] assms show ?thesis
    by (auto simp: initng_module_active_new_def keeps_def split: bind_splits)
qed

lemma alarms_start_fuel:
  "alarms_kept s0 s \<Longrightarrow> keeps alarms_kept snd s0 (initng_handler_start_service (link (no_functions B) k) fuel i s)"
proof (induction fuel arbitrary: i s)
  case (Suc fuel)
  let ?E = "link (no_functions B) k"
  let ?start = "initng_handler_start_service ?E fuel"
  have new: "keeps alarms_kept snd s0 (start_new_service_named ?E ?start n t)" if "alarms_kept s0 t" for n t
    using that by (auto simp: start_new_service_named_def intro!: keeps_rules Suc.IH split: option.split)
  have body: "keeps alarms_kept snd s0 (start_deps_body ?start (start_new_service_named ?E ?start) i c t)"
    if "alarms_kept s0 t" for c t
    using that by (auto simp: start_deps_body_def mark_def [symmetric] intro!: keeps_rules Suc.IH new split: option.split)
  have "keeps alarms_kept snd s0 (initng_depend_start_deps ?E ?start (start_new_service_named ?E ?start) i s)"
    using Suc.prems by (auto simp: initng_depend_start_deps_def intro!: keeps_rules body)
  then show ?case
    using Suc.prems by (auto simp: call_start_def intro!: keeps_rules split: e_is.split option.split)
qed (simp add: keeps_end(2))

lemma alarms_start [keeps_rules]:
  "alarms_kept s0 s \<Longrightarrow> keeps alarms_kept snd s0 (start_service (link (no_functions B) k) i s)"
  unfolding start_service_def by (rule alarms_start_fuel)

lemma alarms_kill [keeps_rules]: "alarms_kept s0 s \<Longrightarrow> alarms_kept s0 (kill_daemon E i sig s)"
  by (auto simp: kill_daemon_def intro!: keeps_rules split: option.split)

lemma alarms_try_pid [keeps_rules]:
  "alarms_kept s0 s \<Longrightarrow> keeps alarms_kept snd s0 (try_get_pid (link (no_functions B) k) i s)"
  by (auto simp: try_get_pid_def Let_def intro!: keeps_rules split: option.split)

lemma alarm_functions_keep:
  assumes "alarms_kept s0 s" and "alarm_function f" and "(f, h) \<in> set (state_table (link (no_functions B) k))"
  shows "keeps alarms_kept id s0 (h i s)"
  using assms
  by (auto simp: alarm_function_def state_table_def timeout_SERVICE_START_RUN_def timeout_SERVICE_STOP_RUN_def
      service_handle_killed_start_def service_handle_killed_stop_def timeout_DAEMON_KILL_def timeout_DAEMON_TERM_def
      timeout_DAEMON_WAIT_FOR_PID_FILE_def timeout_DAEMON_WAIT_RESP_TOUT_def Let_def DEFAULT_KILL_TIMEOUT_def
      intro!: keeps_rules split: option.split)

interpretation alarms: alarm_contract "link (no_functions B) k" alarm_function for B k
proof
  fix f i s t
  assume f: "alarm_function f" and call: "e_state_fn (link (no_functions B) k) f i s = Some t" and now: "0 < tv_sec (g_now s)"
    and fresh: "db_fresh s"
  have "alarms_kept s t"
  proof (cases k)
    case (Suc k')
    with call obtain h where "(f, h) \<in> set (state_table (link (no_functions B) k'))" "h i s = Some t"
      by (auto simp: link_functions lookup_def split: option.splits dest: map_of_SomeD simp del: link.simps)
    with alarm_functions_keep [OF alarms_kept_refl f, of h B k' s i] show ?thesis by (simp add: keeps_def)
  qed (use call in simp)
  with now fresh show "db_fresh t \<and> (\<exists>new. g_active_db t = new @ g_active_db s) \<and> g_now t = g_now s
      \<and> (\<forall>j. alarm_ok s j \<longrightarrow> alarm_ok t j)
      \<and> (\<forall>j g. st_alarm (a_current_state (svc t j)) = Some g \<longrightarrow> alarm_function g
        \<or> st_alarm (a_current_state (svc s j)) = Some g)"
    by (simp add: alarms_kept_def)
qed

section \<open>Properties\<close>

text \<open>C37: a service never has two active processes of the same type. With the modules linked in,
  launching a process keeps this: a launch is refused while one of the type is active, the
  launcher only fills in the pid and the pipes, and a process that could not be launched does
  not stay active.\<close>

theorem launch_one_active:
  assumes "one_active s" and "initng_execute_launch (link (no_functions B) k) i ty n s = Some (r, t)"
  shows "one_active t \<and> r \<in> {TRUE, FALSE}"
  by (rule launches.launch_keeps [OF assms])

theorem launch_one_active_witness:
  "\<exists>r t. initng_execute_launch (link (no_functions (bare_env 20)) 2) 0 T_START None (tiny_sys [tiny_service ''a'' NEW []])
     = Some (r, t) \<and> one_active t"
proof -
  let ?s = "tiny_sys [tiny_service ''a'' NEW []]"
  let ?E = "link (no_functions (bare_env 20)) 2"
  have one: "one_active ?s" by (simp add: one_active_def tiny_service_def calloc_service_def)
  have "0 < e_fuel ?E" by (simp add: bare_env_def)
  then have "\<exists>r t. initng_execute_launch ?E 0 T_START None ?s = Some (r, t)"
    by (simp add: initng_execute_launch_def initng_process_db_get_def initng_process_db_new_def Let_def
        tiny_service_def calloc_service_def add_process_def bump_addr_def del: link_platform)
  with launch_one_active [OF one, of "bare_env 20" 2 0 T_START None] show ?thesis by blast
qed





end
