(* ===== verification/Sessions.thy ===== *)
theory Sessions
  imports Contracts
begin

text \<open>
  Whole exchanges with the linked modules: a request that starts a service gets through to the
  state machine of its type, and a child process goes through its hooks to the program it executes.
\<close>

section \<open>Starting gets through\<close>

lemma mark_commits:
  assumes "a_state_lock (svc s i) = 0" "a_current_state (svc s i) \<noteq> st"
  shows "fst (initng_common_mark_service i st s) = TRUE"
    "a_current_state (svc (snd (initng_common_mark_service i st s)) i) = st"
    "a_state_lock (svc (snd (initng_common_mark_service i st s)) i) = 0"
    "i \<in> set (g_interrupt (snd (initng_common_mark_service i st s)))"
  using assms
  by (simp_all add: initng_common_mark_service_def initng_common_state_unlock_def state_commit_def Let_def list_add_def)

lemma same_deps_requires: "same_deps s t \<Longrightarrow> requires_known t i = requires_known s i"
proof -
  assume sd: "same_deps s t"
  note f = same_deps_find [OF sd]
  from sd show ?thesis unfolding requires_known_def f by (simp add: same_deps_def)
qed

lemma start_marks_service:
  assumes ready: "start_ready (link B (Suc k)) start_function rank s" "i \<in> set (g_active_db s)" "rank i < e_fuel B" "requires_known s i"
    and down: "GET_STATE s i = IS_DOWN" "\<not> is_set RESTARTING i s" "g_sys_state s = STATE_STARTING \<or> g_sys_state s = STATE_UP"
    and ty: "a_type (svc s i) = Some TYPE_SERVICE" "a_state_lock (svc s i) = 0"
  shows "\<exists>t. start_service (link B (Suc k)) i s = Some (TRUE, t) \<and> IS_MARK t i SERVICE_START_MARKED \<and> i \<in> set (g_interrupt t)"
proof -
  from starts.start_reaches_type [OF ready(1,2) _ ready(4) down ty(1)] ready(3)
  obtain t where t: "start_service (link B (Suc k)) i s = call_start (link B (Suc k)) i t" "svc t i = svc s i"
    by (auto simp del: link.simps)
  have "call_start (link B (Suc k)) i t = start_SERVICE i t"
    using t(2) ty(1)
    by (simp add: call_start_def TYPE_SERVICE_def link_functions lookup_def type_table_def del: link.simps)
  moreover have "a_current_state (svc t i) \<noteq> SERVICE_START_MARKED" "a_current_state (svc t i) \<noteq> SERVICE_WAITING_FOR_STOP_DEP"
    using t(2) down(1) by (auto simp: GET_STATE_def service_states plain_state_def)
  ultimately show ?thesis
    using t ty(2) mark_commits [of t i SERVICE_START_MARKED]
    by (auto simp: start_SERVICE_def IS_MARK_def case_prod_unfold Let_def)
qed

section \<open>The child process\<close>

lemma suid_unknown_user:
  assumes "fork_data ev = Some (i, pa)" "svc_get_string SUID i s = Some user" "e_getpwnam E user = None"
    "svc_get_string SGID i s = None"
  shows "do_suid E ev s = Some (ev, s)"
  using assms by (simp add: do_suid_def Let_def add_effects_def)

lemma env_new_effects: "initng_env_new E version i (add_effects es s) = initng_env_new E version i s"
  by (simp add: initng_env_new_def add_effects_def)

section \<open>Properties\<close>





end
