(* ===== verification/Reload.thy ===== *)
theory Reload
  imports Module_DB
begin

text \<open>
  The module reload: it writes the service database to a file when the program replaces itself
  by a new image, and reads it back in the new image. The file is a list of the structures of
  initng_reload.h; the copies into their arrays cut the strings. A pointer that is NULL where the
  code needs it, and a write behind an array, are the result None.
\<close>

section \<open>Writing\<close>

definition MAX_SERVICE_NAME_STRING_LEN :: nat where "MAX_SERVICE_NAME_STRING_LEN = 200"
definition MAX_SERVICE_STATE_LEN :: nat where "MAX_SERVICE_STATE_LEN = 100"
definition MAX_DATA_STRING_LEN :: nat where "MAX_DATA_STRING_LEN = 200"
definition MAX_TYPE_STRING_LEN :: nat where "MAX_TYPE_STRING_LEN = 100"
definition MAX_PROCESSES :: nat where "MAX_PROCESSES = 6"
definition MAX_PTYPE_STRING_LEN :: nat where "MAX_PTYPE_STRING_LEN = 100"
definition MAX_ENTRYS_FOR_SERVICE :: nat where "MAX_ENTRYS_FOR_SERVICE = 20"
definition MAX_DATA_VN_LEN :: nat where "MAX_DATA_VN_LEN = 100"
definition MAX_PIPES :: nat where "MAX_PIPES = 6"
definition MAX_PIPE_TARGETS :: nat where "MAX_PIPE_TARGETS = 5"

lemmas reload_limits = MAX_SERVICE_NAME_STRING_LEN_def MAX_SERVICE_STATE_LEN_def MAX_DATA_STRING_LEN_def
  MAX_TYPE_STRING_LEN_def MAX_PROCESSES_def MAX_PTYPE_STRING_LEN_def MAX_ENTRYS_FOR_SERVICE_def
  MAX_DATA_VN_LEN_def MAX_PIPES_def MAX_PIPE_TARGETS_def

definition save_targets :: "int list \<Rightarrow> int list" where
  "save_targets ts = takeWhile (\<lambda>t. 0 < t) (take MAX_PIPE_TARGETS ts)"

definition save_pipe :: "pipe_h \<Rightarrow> r_pipe" where
  "save_pipe q = \<lparr>rp_pipe = pipe_fd q, rp_dir = pipe_dir q, rp_targets = save_targets (pipe_targets q)\<rparr>"

text \<open>The array of pipes has one element more than \<open>MAX_PIPES\<close>, and the loop has no bound.\<close>

definition save_process :: "process_h \<Rightarrow> r_process option" where
  "save_process p =
     (if MAX_PIPES + 1 < length (p_pipes p) then None
      else Some \<lparr>rp_ptype = take MAX_PTYPE_STRING_LEN (pt_name (p_pt p)), rp_pipes = map save_pipe (rev (p_pipes p)),
             rp_pid = p_pid p, rp_rcode = p_r_code p\<rparr>)"

fun all_some :: "'a option list \<Rightarrow> 'a list option" where
  "all_some [] = Some []"
| "all_some (x # xs) = do { y \<leftarrow> x; ys \<leftarrow> all_some xs; Some (y # ys) }"

definition string_kind :: "e_dt \<Rightarrow> bool" where
  "string_kind k \<longleftrightarrow> k \<in> {STRING, STRINGS, VARIABLE_STRING, VARIABLE_STRINGS}"

definition int_kind :: "e_dt \<Rightarrow> bool" where
  "int_kind k \<longleftrightarrow> k \<in> {INT_T, VARIABLE_INT}"

definition save_data :: "s_data \<Rightarrow> r_d_e option" where
  "save_data c = do {
     ty \<leftarrow> d_type c;
     t \<leftarrow> (if string_kind (ent_type ty) then do { str \<leftarrow> val_s (d_t c); Some (U_s (take MAX_DATA_STRING_LEN str)) }
           else if int_kind (ent_type ty) then Some (U_i (val_i (d_t c))) else Some U_zero);
     vn \<leftarrow> (if 50 < e_dt_val (ent_type ty) then d_vn c else Some []);
     Some \<lparr>rd_type = take MAX_TYPE_STRING_LEN (ent_name ty), rd_opt_type = ent_type ty,
       rd_vn = take MAX_DATA_VN_LEN vn, rd_t = t\<rparr> }"

text \<open>The entry of a service, and whether its variables filled the array.\<close>

definition save_entry :: "active_db_h \<Rightarrow> (data_save_struct \<times> bool) option" where
  "save_entry a =
     (let cs = filter (\<lambda>c. d_type c \<noteq> None) (dh_list (a_data a)) in do {
        ps \<leftarrow> all_some (map save_process (take MAX_PROCESSES (rev (a_processes a))));
        ds \<leftarrow> all_some (map save_data (take MAX_ENTRYS_FOR_SERVICE cs));
        Some (\<lparr>rs_name = take MAX_SERVICE_NAME_STRING_LEN (a_name a),
               rs_type = (case a_type a of None \<Rightarrow> [] | Some t \<Rightarrow> take MAX_TYPE_STRING_LEN (sty_name t)),
               rs_state = take MAX_SERVICE_STATE_LEN (st_name (a_current_state a)),
               rs_time = a_time_current_state a, rs_process = ps, rs_data = ds\<rparr>,
              MAX_ENTRYS_FOR_SERVICE \<le> length cs) })"

fun write_entries :: "env \<Rightarrow> sys \<Rightarrow> sid list \<Rightarrow> int \<Rightarrow> data_save_struct list \<Rightarrow> (int \<times> data_save_struct list) option" where
  "write_entries E s [] success out = Some (success, out)"
| "write_entries E s (i # is) success out =
     (if MAX_SERVICE_NAME_STRING_LEN \<le> length (a_name (svc s i)) then write_entries E s is FALSE out
      else do {
        (e, full) \<leftarrow> save_entry (svc s i);
        (if e_call E (Call_fwrite (length out)) s \<noteq> 1 then Some (FALSE, out)
         else write_entries E s is (if full then FALSE else success) (out @ [e])) })"

definition SAVE_FILE :: string where "SAVE_FILE = ''/var/initng_db_backup.v15''"

definition SAVE_FILE_V13 :: string where "SAVE_FILE_V13 = ''/var/initng_db_backup.v13''"

definition write_file :: "env \<Rightarrow> sys \<Rightarrow> (int \<times> sys) option" where
  "write_file E s =
     (if e_call E (Call_fopen SAVE_FILE) s = 0 then Some (FALSE, s)
      else do {
        (success, out) \<leftarrow> write_entries E s (rev (g_active_db s)) TRUE [];
        Some (success, s\<lparr>m_save_file := Some out\<rparr>) })"

section \<open>Reading\<close>

text \<open>The pipe a process gets when it is made stays in front of the pipes of the file.\<close>

definition load_pipe :: "r_pipe \<Rightarrow> pipe_h" where
  "load_pipe r = \<lparr>pipe_fd = rp_pipe r, pipe_dir = rp_dir r, pipe_targets = save_targets (rp_targets r),
     pipe_buffer = [], pipe_buffer_allocated = 0\<rparr>"

definition load_process :: "r_process \<Rightarrow> sid \<Rightarrow> sys \<Rightarrow> sys option" where
  "load_process r i s = do {
     pt \<leftarrow> initng_process_db_ptype_find (rp_ptype r) s;
     (let (p, s) = initng_process_db_new pt s;
          pipes = map load_pipe (takeWhile (\<lambda>q. rp_dir q \<noteq> UNKNOWN_PIPE) (take MAX_PIPES (rp_pipes r)))
      in Some (add_process (p\<lparr>p_pid := rp_pid r, p_pipes := fold list_add pipes (p_pipes p), p_r_code := rp_rcode r\<rparr>) i s)) }"

fun load_processes :: "r_process list \<Rightarrow> sid \<Rightarrow> sys \<Rightarrow> sys option" where
  "load_processes [] i s = Some s"
| "load_processes (r # rs) i s = do { s \<leftarrow> load_process r i s; load_processes rs i s }"

text \<open>The union read as a text or as a number; the bytes of the other member are not modelled.\<close>

fun union_string :: "u_val \<Rightarrow> string option" where
  "union_string (U_s str) = Some str"
| "union_string U_zero = Some []"
| "union_string (U_i n) = None"

fun union_int :: "u_val \<Rightarrow> int option" where
  "union_int (U_i n) = Some n"
| "union_int U_zero = Some 0"
| "union_int (U_s str) = None"

definition load_value :: "e_dt \<Rightarrow> u_val \<Rightarrow> u_val option" where
  "load_value k t =
     (if string_kind k then map_option U_s (union_string t)
      else if int_kind k then map_option U_i (union_int t) else Some U_zero)"

definition load_data :: "(s_entry \<Rightarrow> string \<Rightarrow> string option) \<Rightarrow> r_d_e \<Rightarrow> sid \<Rightarrow> sys \<Rightarrow> sys option" where
  "load_data name_of r i s =
     (case initng_service_data_type_find (rd_type r) s of
        None \<Rightarrow> Some s
      | Some ty \<Rightarrow> do {
          t \<leftarrow> load_value (ent_type ty) (rd_t r);
          Some (bump_addr (upd_data i (data_list_add (new_entry (g_next_addr s) ty (name_of ty (rd_vn r)) t)) s)) })"

fun load_datas :: "(s_entry \<Rightarrow> string \<Rightarrow> string option) \<Rightarrow> r_d_e list \<Rightarrow> sid \<Rightarrow> sys \<Rightarrow> sys option" where
  "load_datas name_of [] i s = Some s"
| "load_datas name_of (r # rs) i s = do { s \<leftarrow> load_data name_of r i s; load_datas name_of rs i s }"

definition variable_name :: "s_entry \<Rightarrow> string \<Rightarrow> string option" where
  "variable_name ty vn = (if 50 < e_dt_val (ent_type ty) then Some vn else None)"

text \<open>What both readers do with one entry of the file: the processes and the variables of the entry
  are loaded by the functions given.\<close>

definition load_entry :: "string \<Rightarrow> string \<Rightarrow> string \<Rightarrow> timeval \<Rightarrow> (sid \<Rightarrow> sys \<Rightarrow> sys option) \<Rightarrow> (sid \<Rightarrow> sys \<Rightarrow> sys option) \<Rightarrow>
    int \<times> sys \<Rightarrow> (int \<times> sys) option" where
  "load_entry name state type time processes datas x =
     (let (success, s) = x in
      if initng_active_db_find_by_name name s \<noteq> None then Some (success, s)
      else
        (let (i, s) = initng_active_db_new name s in
         case initng_active_state_find state s of
           None \<Rightarrow> Some (FALSE, s)
         | Some st \<Rightarrow>
             (case initng_service_type_get_by_name type s of
                None \<Rightarrow> Some (FALSE, s)
              | Some ty \<Rightarrow> do {
                  s \<leftarrow> processes i (upd_svc i (\<lambda>a. a\<lparr>a_current_state := st, a_type := Some ty, a_time_current_state := time\<rparr>) s);
                  s \<leftarrow> datas i s;
                  (let (r, s) = initng_active_db_register i s
                   in Some (if r \<noteq> TRUE then (FALSE, initng_active_db_free i s) else (success, s))) })))"

definition read_entry :: "data_save_struct \<Rightarrow> int \<times> sys \<Rightarrow> (int \<times> sys) option" where
  "read_entry e = load_entry (rs_name e) (rs_state e) (rs_type e) (rs_time e)
     (load_processes (takeWhile (\<lambda>r. rp_ptype r \<noteq> []) (take MAX_PROCESSES (rs_process e))))
     (load_datas variable_name (takeWhile (\<lambda>r. rd_opt_type r \<noteq> U_D_T) (rs_data e)))"

fun read_entries :: "('e \<Rightarrow> int \<times> sys \<Rightarrow> (int \<times> sys) option) \<Rightarrow> 'e list \<Rightarrow> int \<times> sys \<Rightarrow> (int \<times> sys) option" where
  "read_entries read [] x = Some x"
| "read_entries read (e # es) x = do { x \<leftarrow> read e x; read_entries read es x }"

definition read_file :: "env \<Rightarrow> sys \<Rightarrow> (int \<times> sys) option" where
  "read_file E s =
     (if e_call E (Call_fopen SAVE_FILE) s = 0 then Some (FALSE, s)
      else do {
        (success, s) \<leftarrow> read_entries read_entry (case m_save_file s of None \<Rightarrow> [] | Some es \<Rightarrow> es) (TRUE, s);
        Some (success, if e_call E (Call_unlink SAVE_FILE) s = 0 then s\<lparr>m_save_file := None\<rparr> else s) })"

text \<open>The file of an older version: one pipe for each process and no variable names.\<close>

definition load_process_v13 :: "r_process_v13 \<Rightarrow> sid \<Rightarrow> sys \<Rightarrow> sys option" where
  "load_process_v13 r i s = do {
     pt \<leftarrow> initng_process_db_ptype_find (rv_ptype r) s;
     (let (p, s) = initng_process_db_new pt s;
          op = (initng_process_db_pipe_new BUFFERED_OUT_PIPE)
                 \<lparr>pipe_fd := (rv_stdout1 r, rv_stdout2 r), pipe_targets := [1, 2]\<rparr>
      in Some (add_process (p\<lparr>p_pid := rv_pid r, p_pipes := list_add op (p_pipes p), p_r_code := rv_rcode r\<rparr>) i s)) }"

fun load_processes_v13 :: "r_process_v13 list \<Rightarrow> sid \<Rightarrow> sys \<Rightarrow> sys option" where
  "load_processes_v13 [] i s = Some s"
| "load_processes_v13 (r # rs) i s = do { s \<leftarrow> load_process_v13 r i s; load_processes_v13 rs i s }"

definition read_entry_v13 :: "data_save_struct_v13 \<Rightarrow> int \<times> sys \<Rightarrow> (int \<times> sys) option" where
  "read_entry_v13 e = load_entry (rv_name e) (rv_state e) (rv_type e) (rv_time e)
     (load_processes_v13 (takeWhile (\<lambda>r. rv_ptype r \<noteq> []) (take MAX_PROCESSES (rv_process e))))
     (load_datas (\<lambda>_ _. None) (takeWhile (\<lambda>r. rd_opt_type r \<noteq> U_D_T) (rv_data e)))"

definition read_file_v13 :: "env \<Rightarrow> sys \<Rightarrow> (int \<times> sys) option" where
  "read_file_v13 E s =
     (if e_call E (Call_fopen SAVE_FILE_V13) s = 0 then Some (FALSE, s)
      else do {
        (success, s) \<leftarrow> read_entries read_entry_v13 (case m_save_file_v13 s of None \<Rightarrow> [] | Some es \<Rightarrow> es) (TRUE, s);
        Some (success, if e_call E (Call_unlink SAVE_FILE_V13) s = 0 then s\<lparr>m_save_file_v13 := None\<rparr> else s) })"

section \<open>Hooks and command\<close>

definition dump_state :: "env \<Rightarrow> s_event \<Rightarrow> sys \<Rightarrow> (s_event \<times> sys) option" where
  "dump_state E ev s =
     (if ev_type ev \<noteq> EVENT_DUMP_ACTIVE_DB then None
      else do {
        (r, s) \<leftarrow> write_file E s;
        Some (if r \<noteq> TRUE then ev\<lparr>ev_status := FAILED\<rparr> else ev, s) })"

text \<open>A save file exists if the program has one.\<close>

definition reload_state :: "env \<Rightarrow> s_event \<Rightarrow> sys \<Rightarrow> (s_event \<times> sys) option" where
  "reload_state E ev s =
     (if ev_type ev \<noteq> EVENT_RELOAD_ACTIVE_DB then None
      else if m_save_file s \<noteq> None then do {
        (r, s) \<leftarrow> read_file E s;
        Some (if r = FALSE then ev\<lparr>ev_status := FAILED\<rparr> else ev, s) }
      else if m_save_file_v13 s \<noteq> None then do {
        (r, s) \<leftarrow> read_file_v13 E s;
        Some (if r = FALSE then ev\<lparr>ev_status := FAILED\<rparr> else ev, s) }
      else Some (ev, s))"

definition save_backup :: "env \<Rightarrow> s_event \<Rightarrow> sys \<Rightarrow> (s_event \<times> sys) option" where
  "save_backup E ev s =
     (case ev_data ev of
        ED_sys_state st \<Rightarrow>
          (if ev_type ev \<noteq> EVENT_SYSTEM_CHANGE then None
           else if st = STATE_UP then do { (r, s) \<leftarrow> write_file E s; Some (ev, s) }
           else if st = STATE_STOPPING then
             Some (ev, if e_call E (Call_unlink SAVE_FILE) s = 0 then s\<lparr>m_save_file := None\<rparr> else s)
           else Some (ev, s))
      | _ \<Rightarrow> None)"

text \<open>A successful execve ends this image of the program; then there is no result.\<close>

definition cmd_fast_reload :: "env \<Rightarrow> sys \<Rightarrow> (int \<times> sys) option" where
  "cmd_fast_reload E s = do {
     (retval, s) \<leftarrow> initng_module_callers_active_db_dump E s;
     (if retval = TRUE \<and> e_execve E ''/sbin/initng'' s then None else Some (TRUE, s)) }"

definition FAST_RELOAD :: s_command where
  "FAST_RELOAD = \<lparr>cmd_id = CHR ''c'', cmd_long_id = Some ''hot_reload'', cmd_com_type = INT_COMMAND,
     cmd_opt_type = NO_OPT, cmd_call = Some ''cmd_fast_reload''\<rparr>"

definition reload_module_init :: "sys \<Rightarrow> int \<times> sys" where
  "reload_module_init s =
     (TRUE, snd (initng_command_register FAST_RELOAD
        (hook ''initng_reload.c'' EVENT_RELOAD_ACTIVE_DB ''reload_state''
          (hook ''initng_reload.c'' EVENT_DUMP_ACTIVE_DB ''dump_state''
            (hook ''initng_reload.c'' EVENT_SYSTEM_CHANGE ''save_backup'' s)))))"

definition reload_module_unload :: "sys \<Rightarrow> sys" where
  "reload_module_unload s =
     initng_command_unregister FAST_RELOAD
       (initng_event_hook_unregister EVENT_RELOAD_ACTIVE_DB ''reload_state''
         (initng_event_hook_unregister EVENT_DUMP_ACTIVE_DB ''dump_state''
           (initng_event_hook_unregister EVENT_SYSTEM_CHANGE ''save_backup'' s)))"

section \<open>What the file keeps\<close>

text \<open>The parts of a service that the file keeps, and the registrations the new image needs.\<close>

definition process_image :: "process_h \<Rightarrow> ptype_h \<times> int \<times> int" where
  "process_image p = (p_pt p, p_pid p, p_r_code p)"

definition var_image :: "s_data \<Rightarrow> s_entry option \<times> string option \<times> u_val" where
  "var_image c = (d_type c, d_vn c, d_t c)"

definition same_registries :: "sys \<Rightarrow> sys \<Rightarrow> bool" where
  "same_registries s t \<longleftrightarrow> g_states t = g_states s \<and> g_stypes t = g_stypes s \<and> g_ptypes t = g_ptypes s
     \<and> g_option_db t = g_option_db s"

definition savable_process :: "sys \<Rightarrow> process_h \<Rightarrow> bool" where
  "savable_process s p \<longleftrightarrow> initng_process_db_ptype_find (pt_name (p_pt p)) s = Some (p_pt p)
     \<and> pt_name (p_pt p) \<noteq> [] \<and> length (pt_name (p_pt p)) \<le> MAX_PTYPE_STRING_LEN \<and> length (p_pipes p) \<le> MAX_PIPES"

definition savable_var :: "sys \<Rightarrow> s_data \<Rightarrow> bool" where
  "savable_var s c \<longleftrightarrow> (case d_type c of
     None \<Rightarrow> False
   | Some ty \<Rightarrow> initng_service_data_type_find (ent_name ty) s = Some ty \<and> length (ent_name ty) \<le> MAX_TYPE_STRING_LEN
       \<and> ent_type ty \<noteq> U_D_T
       \<and> (case d_t c of
            U_s str \<Rightarrow> string_kind (ent_type ty) \<and> length str \<le> MAX_DATA_STRING_LEN
          | U_i n \<Rightarrow> int_kind (ent_type ty)
          | U_zero \<Rightarrow> \<not> string_kind (ent_type ty) \<and> \<not> int_kind (ent_type ty))
       \<and> (case d_vn c of
            Some vn \<Rightarrow> 50 < e_dt_val (ent_type ty) \<and> length vn \<le> MAX_DATA_VN_LEN
          | None \<Rightarrow> \<not> 50 < e_dt_val (ent_type ty)))"

definition savable :: "sys \<Rightarrow> sid \<Rightarrow> bool" where
  "savable s i \<longleftrightarrow> (let a = svc s i in
     length (a_name a) < MAX_SERVICE_NAME_STRING_LEN
     \<and> initng_active_state_find (st_name (a_current_state a)) s = Some (a_current_state a)
     \<and> length (st_name (a_current_state a)) \<le> MAX_SERVICE_STATE_LEN
     \<and> (case a_type a of None \<Rightarrow> False
        | Some ty \<Rightarrow> initng_service_type_get_by_name (sty_name ty) s = Some ty \<and> length (sty_name ty) \<le> MAX_TYPE_STRING_LEN)
     \<and> length (a_processes a) \<le> MAX_PROCESSES \<and> list_all (savable_process s) (a_processes a)
     \<and> length (dh_list (a_data a)) < MAX_ENTRYS_FOR_SERVICE \<and> list_all (savable_var s) (dh_list (a_data a)))"

definition service_image :: "active_db_h \<Rightarrow> string \<times> a_state_h \<times> stype_h option \<times> timeval \<times>
    (ptype_h \<times> int \<times> int) list \<times> (s_entry option \<times> string option \<times> u_val) list" where
  "service_image a = (a_name a, a_current_state a, a_type a, a_time_current_state a,
     map process_image (a_processes a), map var_image (dh_list (a_data a)))"

text \<open>The variables come back in the reverse order.\<close>

definition reload_image :: "active_db_h \<Rightarrow> string \<times> a_state_h \<times> stype_h option \<times> timeval \<times>
    (ptype_h \<times> int \<times> int) list \<times> (s_entry option \<times> string option \<times> u_val) list" where
  "reload_image a = (a_name a, a_current_state a, a_type a, a_time_current_state a,
     map process_image (a_processes a), rev (map var_image (dh_list (a_data a))))"

lemma all_some_map: "(\<And>x. x \<in> set xs \<Longrightarrow> f x = Some (g x)) \<Longrightarrow> all_some (map f xs) = Some (map g xs)"
  by (induction xs) auto

lemma find_registries:
  assumes "same_registries s t"
  shows "initng_active_state_find n t = initng_active_state_find n s"
    "initng_service_type_get_by_name n t = initng_service_type_get_by_name n s"
    "initng_process_db_ptype_find n t = initng_process_db_ptype_find n s"
    "initng_service_data_type_find n t = initng_service_data_type_find n s"
  using assms by (simp_all add: same_registries_def initng_active_state_find_def initng_service_type_get_by_name_def
      initng_process_db_ptype_find_def initng_service_data_type_find_def)

definition process_record :: "process_h \<Rightarrow> r_process" where
  "process_record p = \<lparr>rp_ptype = pt_name (p_pt p), rp_pipes = map save_pipe (rev (p_pipes p)),
     rp_pid = p_pid p, rp_rcode = p_r_code p\<rparr>"

definition var_record :: "s_data \<Rightarrow> r_d_e" where
  "var_record c = (let ty = the (d_type c) in
     \<lparr>rd_type = ent_name ty, rd_opt_type = ent_type ty, rd_vn = (case d_vn c of None \<Rightarrow> [] | Some vn \<Rightarrow> vn), rd_t = d_t c\<rparr>)"

definition service_record :: "active_db_h \<Rightarrow> data_save_struct" where
  "service_record a = \<lparr>rs_name = a_name a, rs_type = sty_name (the (a_type a)), rs_state = st_name (a_current_state a),
     rs_time = a_time_current_state a, rs_process = map process_record (rev (a_processes a)),
     rs_data = map var_record (dh_list (a_data a))\<rparr>"

lemma save_process_record: "savable_process s p \<Longrightarrow> save_process p = Some (process_record p)"
  by (simp add: savable_process_def save_process_def process_record_def)

lemma kinds_disjoint: "int_kind k \<Longrightarrow> \<not> string_kind k"
  by (auto simp: int_kind_def string_kind_def)

lemma save_data_record: "savable_var s c \<Longrightarrow> save_data c = Some (var_record c)"
  by (auto simp: savable_var_def save_data_def var_record_def Let_def kinds_disjoint split: option.splits u_val.splits)

lemma save_service_record:
  assumes "savable s i"
  shows "save_entry (svc s i) = Some (service_record (svc s i), False)"
proof -
  let ?a = "svc s i"
  have ps: "all_some (map save_process (rev (a_processes ?a))) = Some (map process_record (rev (a_processes ?a)))"
    using assms by (intro all_some_map save_process_record) (auto simp: savable_def Let_def list_all_iff)
  have ds: "all_some (map save_data (dh_list (a_data ?a))) = Some (map var_record (dh_list (a_data ?a)))"
    using assms by (intro all_some_map save_data_record) (auto simp: savable_def Let_def list_all_iff)
  have "filter (\<lambda>c. d_type c \<noteq> None) (dh_list (a_data ?a)) = dh_list (a_data ?a)"
    using assms by (auto simp: savable_def Let_def list_all_iff savable_var_def intro!: filter_True split: option.splits)
  with assms ps ds show ?thesis
    by (auto simp: save_entry_def savable_def Let_def service_record_def split: option.splits)
qed

lemma write_entries_records:
  assumes "\<And>n. e_call E (Call_fwrite n) s = 1" "\<forall>i \<in> set is. savable s i"
  shows "write_entries E s is success out = Some (success, out @ map (\<lambda>i. service_record (svc s i)) is)"
  using assms(2)
proof (induction "is" arbitrary: out)
  case (Cons i "is")
  then have "\<not> MAX_SERVICE_NAME_STRING_LEN \<le> length (a_name (svc s i))" by (simp add: savable_def Let_def)
  with Cons assms(1) save_service_record [of s i] show ?case by simp
qed simp

text \<open>Loading into one new service.\<close>

definition loading :: "sid \<Rightarrow> sys \<Rightarrow> sys \<Rightarrow> bool" where
  "loading i s t \<longleftrightarrow> same_registries s t \<and> g_active_db t = g_active_db s \<and> g_next_sid t = g_next_sid s
     \<and> (\<forall>j. j \<noteq> i \<longrightarrow> svc t j = svc s j) \<and> a_name (svc t i) = a_name (svc s i)
     \<and> a_current_state (svc t i) = a_current_state (svc s i) \<and> a_type (svc t i) = a_type (svc s i)
     \<and> a_time_current_state (svc t i) = a_time_current_state (svc s i)
     \<and> ((\<forall>p \<in> set (a_processes (svc s i)). p_addr p < g_next_addr s) \<longrightarrow>
        (\<forall>p \<in> set (a_processes (svc t i)). p_addr p < g_next_addr t))"

lemma loading_trans: "loading i s t \<Longrightarrow> loading i t u \<Longrightarrow> loading i s u"
  by (simp add: loading_def same_registries_def)

lemma load_process_record:
  assumes "savable_process r p" "same_registries r s" "\<forall>p \<in> set (a_processes (svc s i)). p_addr p < g_next_addr s"
  shows "\<exists>t. load_process (process_record p) i s = Some t \<and> loading i s t \<and> a_data (svc t i) = a_data (svc s i)
    \<and> map process_image (a_processes (svc t i)) = process_image p # map process_image (a_processes (svc s i))"
proof -
  have "initng_process_db_ptype_find (pt_name (p_pt p)) s = Some (p_pt p)"
    using assms(1) find_registries [OF assms(2)] by (simp add: savable_process_def)
  with assms(3) show ?thesis
    by (fastforce simp: load_process_def process_record_def initng_process_db_new_def add_process_def upd_svc_def bump_addr_def
        list_add_def loading_def same_registries_def process_image_def Let_def)
qed

lemma load_process_records:
  assumes "\<forall>p \<in> set ps. savable_process r p"
  shows "same_registries r s \<Longrightarrow> \<forall>p \<in> set (a_processes (svc s i)). p_addr p < g_next_addr s \<Longrightarrow>
    \<exists>t. load_processes (map process_record ps) i s = Some t \<and> loading i s t \<and> a_data (svc t i) = a_data (svc s i)
    \<and> map process_image (a_processes (svc t i)) = rev (map process_image ps) @ map process_image (a_processes (svc s i))"
  using assms
proof (induction ps arbitrary: s)
  case Nil
  then show ?case by (auto simp: loading_def same_registries_def)
next
  case (Cons p ps)
  from load_process_record [OF _ Cons.prems(1,2), of p] Cons.prems(3) obtain t where t:
    "load_process (process_record p) i s = Some t" "loading i s t" "a_data (svc t i) = a_data (svc s i)"
    "map process_image (a_processes (svc t i)) = process_image p # map process_image (a_processes (svc s i))" by auto
  from Cons.IH [of t] t(2) Cons.prems obtain u where
    "load_processes (map process_record ps) i t = Some u" "loading i t u" "a_data (svc u i) = a_data (svc t i)"
    "map process_image (a_processes (svc u i)) = rev (map process_image ps) @ map process_image (a_processes (svc t i))"
    by (auto simp: loading_def same_registries_def)
  with t loading_trans [OF t(2)] show ?case by auto
qed

lemma load_var_record:
  assumes "savable_var r c" "same_registries r s"
  shows "\<exists>t. load_data variable_name (var_record c) i s = Some t \<and> loading i s t \<and> a_processes (svc t i) = a_processes (svc s i)
    \<and> map var_image (dh_list (a_data (svc t i))) = var_image c # map var_image (dh_list (a_data (svc s i)))"
  using assms(1) find_registries(4) [OF assms(2)]
  by (cases "a_data (svc s i)")
    (auto simp: savable_var_def load_data_def var_record_def variable_name_def load_value_def Let_def new_entry_def upd_data_def
      upd_svc_def bump_addr_def loading_def same_registries_def var_image_def less_Suc_eq kinds_disjoint
      split: option.splits u_val.splits)

lemma load_var_records:
  assumes "\<forall>c \<in> set cs. savable_var r c"
  shows "same_registries r s \<Longrightarrow>
    \<exists>t. load_datas variable_name (map var_record cs) i s = Some t \<and> loading i s t \<and> a_processes (svc t i) = a_processes (svc s i)
    \<and> map var_image (dh_list (a_data (svc t i))) = rev (map var_image cs) @ map var_image (dh_list (a_data (svc s i)))"
  using assms
proof (induction cs arbitrary: s)
  case Nil
  then show ?case by (auto simp: loading_def same_registries_def)
next
  case (Cons c cs)
  from load_var_record [OF _ Cons.prems(1), of c i] Cons.prems(2) obtain t where t:
    "load_data variable_name (var_record c) i s = Some t" "loading i s t" "a_processes (svc t i) = a_processes (svc s i)"
    "map var_image (dh_list (a_data (svc t i))) = var_image c # map var_image (dh_list (a_data (svc s i)))" by auto
  from Cons.IH [of t] t(2) Cons.prems obtain u where
    "load_datas variable_name (map var_record cs) i t = Some u" "loading i t u" "a_processes (svc u i) = a_processes (svc t i)"
    "map var_image (dh_list (a_data (svc u i))) = rev (map var_image cs) @ map var_image (dh_list (a_data (svc t i)))"
    by (auto simp: loading_def same_registries_def)
  with t loading_trans [OF t(2)] show ?case by auto
qed

text \<open>One entry makes one new service, in front of the others.\<close>

definition sids_fresh :: "sys \<Rightarrow> bool" where
  "sids_fresh s \<longleftrightarrow> (\<forall>i \<in> set (g_active_db s). i < g_next_sid s)"

lemma read_service_record:
  assumes sav: "savable r j" and reg: "same_registries r s" and new: "a_name (svc r j) \<notin> (\<lambda>i. a_name (svc s i)) ` set (g_active_db s)"
    and fresh: "sids_fresh s"
  shows "\<exists>t. read_entry (service_record (svc r j)) (success, s) = Some (success, t) \<and> same_registries r t \<and> sids_fresh t
    \<and> map (\<lambda>i. service_image (svc t i)) (g_active_db t)
        = reload_image (svc r j) # map (\<lambda>i. service_image (svc s i)) (g_active_db s)"
proof -
  let ?a = "svc r j" and ?i = "g_next_sid s"
  have find_new: "initng_active_db_find_by_name (a_name ?a) u = None"
    if "g_active_db u = g_active_db s" "\<forall>i \<in> set (g_active_db s). svc u i = svc s i" for u
    using new that find_by_name_Some [of "a_name ?a" u] by (cases "initng_active_db_find_by_name (a_name ?a) u") force+
  obtain ty where ty: "a_type ?a = Some ty" "initng_service_type_get_by_name (sty_name ty) r = Some ty"
    using sav by (auto simp: savable_def Let_def split: option.splits)
  define u where "u = upd_svc ?i (\<lambda>a. a\<lparr>a_current_state := a_current_state ?a, a_type := Some ty,
    a_time_current_state := a_time_current_state ?a\<rparr>) (snd (initng_active_db_new (a_name ?a) s))"
  have u: "same_registries r u" "g_active_db u = g_active_db s" "g_next_sid u = ?i + 1" "\<forall>k. k \<noteq> ?i \<longrightarrow> svc u k = svc s k"
    "a_name (svc u ?i) = a_name ?a" "a_current_state (svc u ?i) = a_current_state ?a" "a_type (svc u ?i) = Some ty"
    "a_time_current_state (svc u ?i) = a_time_current_state ?a" "a_processes (svc u ?i) = []" "dh_list (a_data (svc u ?i)) = []"
    using reg by (simp_all add: u_def initng_active_db_new_def Let_def same_registries_def calloc_service_def DATA_HEAD_INIT_def upd_svc_def)
  obtain v where v: "load_processes (map process_record (rev (a_processes ?a))) ?i u = Some v" "loading ?i u v"
    "a_data (svc v ?i) = a_data (svc u ?i)" "map process_image (a_processes (svc v ?i)) = map process_image (a_processes ?a)"
    using load_process_records [of "rev (a_processes ?a)" r u ?i] sav u(1,9)
    by (auto simp: savable_def Let_def list_all_iff rev_map)
  have "same_registries r v" using u(1) v(2) by (simp add: loading_def same_registries_def)
  then obtain w where w: "load_datas variable_name (map var_record (dh_list (a_data ?a))) ?i v = Some w" "loading ?i v w"
    "a_processes (svc w ?i) = a_processes (svc v ?i)" "map var_image (dh_list (a_data (svc w ?i))) = rev (map var_image (dh_list (a_data ?a)))"
    using load_var_records [of "dh_list (a_data ?a)" r v ?i] sav u(10) v(3)
    by (auto simp: savable_def Let_def list_all_iff)
  from loading_trans [OF v(2) w(2)] have l: "loading ?i u w" .
  have img: "service_image (svc w ?i) = reload_image ?a"
    using l u v(4) w(3,4) ty(1) by (simp add: service_image_def reload_image_def loading_def)
  have i: "?i \<notin> set (g_active_db s)" using fresh by (auto simp: sids_fresh_def)
  have others: "\<forall>k \<in> set (g_active_db s). svc w k = svc s k"
    using l u(4) i by (metis loading_def)
  have reg_w: "initng_active_db_register ?i w = (TRUE, w\<lparr>g_active_db := ?i # g_active_db s\<rparr>)"
    using find_new [of w] others l u(2,5) i by (simp add: initng_active_db_register_def loading_def list_add_def)
  have procs: "takeWhile (\<lambda>q. rp_ptype q \<noteq> []) (map process_record (rev (a_processes ?a)))
      = map process_record (rev (a_processes ?a))"
    using sav by (auto simp: savable_def Let_def list_all_iff savable_process_def process_record_def takeWhile_eq_all_conv)
  have vars: "takeWhile (\<lambda>q. rd_opt_type q \<noteq> U_D_T) (map var_record (dh_list (a_data ?a))) = map var_record (dh_list (a_data ?a))"
    using sav by (auto simp: savable_def Let_def list_all_iff savable_var_def var_record_def takeWhile_eq_all_conv split: option.splits)
  have new_i: "fst (initng_active_db_new (a_name ?a) s) = ?i" by (simp add: initng_active_db_new_def Let_def)
  have reg_n: "same_registries r (snd (initng_active_db_new (a_name ?a) s))"
    using reg by (simp add: initng_active_db_new_def Let_def same_registries_def)
  have "read_entry (service_record ?a) (success, s) = Some (success, w\<lparr>g_active_db := ?i # g_active_db s\<rparr>)"
    using find_new [of s] find_registries [OF reg_n] ty sav
    by (simp add: read_entry_def load_entry_def service_record_def case_prod_unfold Let_def new_i procs vars
        u_def [symmetric] v(1) w(1) reg_w savable_def)
  moreover have "same_registries r (w\<lparr>g_active_db := ?i # g_active_db s\<rparr>)"
    using u(1) l by (simp add: loading_def same_registries_def)
  moreover have "sids_fresh (w\<lparr>g_active_db := ?i # g_active_db s\<rparr>)"
    using fresh l u(3) by (auto simp: sids_fresh_def loading_def)
  ultimately show ?thesis using img others by simp
qed

lemma read_service_records:
  assumes "\<forall>j \<in> set js. savable r j" "distinct (map (\<lambda>j. a_name (svc r j)) js)"
  shows "same_registries r s \<Longrightarrow> sids_fresh s \<Longrightarrow>
    (\<forall>j \<in> set js. a_name (svc r j) \<notin> (\<lambda>i. a_name (svc s i)) ` set (g_active_db s)) \<Longrightarrow>
    \<exists>t. read_entries read_entry (map (\<lambda>j. service_record (svc r j)) js) (success, s) = Some (success, t)
    \<and> map (\<lambda>i. service_image (svc t i)) (g_active_db t)
      = rev (map (\<lambda>j. reload_image (svc r j)) js) @ map (\<lambda>i. service_image (svc s i)) (g_active_db s)"
  using assms
proof (induction js arbitrary: s)
  case (Cons j js)
  from Cons.prems read_service_record [of r j s success] obtain t where t:
    "read_entry (service_record (svc r j)) (success, s) = Some (success, t)" "same_registries r t" "sids_fresh t"
    "map (\<lambda>i. service_image (svc t i)) (g_active_db t) = reload_image (svc r j) # map (\<lambda>i. service_image (svc s i)) (g_active_db s)"
    by auto
  from arg_cong [OF t(4), of "\<lambda>xs. fst ` set xs"]
  have names: "(\<lambda>i. a_name (svc t i)) ` set (g_active_db t) = insert (a_name (svc r j)) ((\<lambda>i. a_name (svc s i)) ` set (g_active_db s))"
    by (simp add: image_image service_image_def reload_image_def)
  have "\<forall>j \<in> set js. a_name (svc r j) \<notin> (\<lambda>i. a_name (svc t i)) ` set (g_active_db t)"
    unfolding names using Cons.prems(3,5) by (auto simp: image_iff)
  from Cons.IH [OF t(2,3) this] Cons.prems(4,5) obtain u where
    "read_entries read_entry (map (\<lambda>j. service_record (svc r j)) js) (success, t) = Some (success, u)"
    "map (\<lambda>i. service_image (svc u i)) (g_active_db u)
      = rev (map (\<lambda>j. reload_image (svc r j)) js) @ map (\<lambda>i. service_image (svc t i)) (g_active_db t)" by auto
  with t(1,4) show ?case by simp
qed simp

section \<open>Properties\<close>



end
