(* ===== verification/Spec2Isabelle.thy ===== *)
theory Spec2Isabelle
  imports Linked_List Sessions Reload
begin

text \<open>
  A verification development of initng, an init system in C. Paths are relative to src/; headers
  are under src/include/initng, the program is under src/src/main and its modules are under
  src/src/modules.

  \<^bold>\<open>The program.\<close> The process init keeps a database of services. A service has a name, a type, a
  current state, typed variables and processes. Setting a state (\<open>initng_common_mark_service\<close>)
  commits it and puts the service into the interrupt list. The main loop takes the services out
  of that list, sends events about the change and calls the function of the new state, which may
  set further states, launch processes or start and stop other services. The types, most states
  and all reactions to events come from modules, which the core knows only by function pointers
  in lists. Outside input comes in by signals, by pipes of processes, by alarms and by commands.

  \<^bold>\<open>The model.\<close> The state of the program is the record \<open>sys\<close> (theory System): the fields \<open>g_*\<close>
  are those of \<open>s_global g\<close> (config/global.h), the fields \<open>m_*\<close> the static variables of modules,
  \<open>svc\<close> is the memory of the service structures, and a trace records the effects on the outside
  world. A computation has an option result: None is a crash (NULL, freed memory, a write behind a
  block, a failed assertion) or a call that does not return. The record \<open>env\<close> holds what is not in
  the sources: answers of the operating system, and the functions behind function pointers. Lists
  of the program are HOL lists, newest first; theory Linked_List shows that the pointer structure
  of list.h implements them.

  \<^bold>\<open>Theories and sources.\<close>
  \<^item> Prelude: result codes (misc.h), the loops of list.h over a list that the body may change, and
    the lemmas that make such a loop a recursion over the list.
  \<^item> Linked_List: list.h on a heap of next and prev pointers.
  \<^item> Hash, C_String: main/hash, main/string.
  \<^item> Data: main/data, main/service, main/static/data_id.c, data.h.
  \<^item> System: the structures of the other headers, \<open>sys\<close> and \<open>env\<close>.
  \<^item> State_Change: main/common, main/active_state, main/static/states.c.
  \<^item> Event: main/event, main/module_callers.
  \<^item> Process_DB, Active_DB: main/process_db, main/active_db.
  \<^item> Depend, Handler, Interrupt: main/depend, main/handler, main/interrupt.
  \<^item> Process_Control: main/execute, main/io (reading), main/kill, main/signal.
  \<^item> Launcher, After_Fork: main/fork and main/env; modules simple_launcher, chdir, chroot, renice,
    pause, suid, stdout, limit.
  \<^item> Service_Type, Daemon, Runlevel: modules service, daemon, runlevel and task.
  \<^item> Hook_Modules: modules also, conflict, lockfile, last, synchron, fstat, interactive,
    daemon_clean, ctrlaltdel, provide and the hook of unneeded.
  \<^item> Monitors: modules netdev, initctl, idleprobe, critical, logfile, sysreq.
  \<^item> Module_DB: main/module, main/command, the registration of unneeded.
  \<^item> Service_File, Stcmd, Reload, History: the modules of these names.
  \<^item> Main_Loop: main/frontend, main/config, main/main, main/io/poll.c.
  \<^item> Link: the function pointers of all modelled modules lead to their functions.
  \<^item> Safety, Module_Safety, Client_Safety, Program, Reachable, Contracts, Sessions: the properties
    that span components.

  Definitions have the names of the C functions. A C function that occurs in several modules has
  the module as a prefix (\<open>history_module_init\<close>); the body of a loop is a definition of its own
  (\<open>start_dep_body\<close>).

  \<^bold>\<open>Links.\<close> The core calls modules and modules call the core, so \<open>link B k\<close> builds the program in
  levels: the functions of level k+1 run on level k, and the functions of level 0 are those of the
  world \<open>B\<close>, which \<open>no_functions\<close> makes not return. A theorem for all k therefore covers every depth
  of nested calls.

  \<^bold>\<open>Fuel.\<close> Loops over lists that their body changes and the recursion of the start handler take
  the fuel \<open>e_fuel\<close>. The theorems on results state how much is enough: one more than the length
  of the list for the loops (\<open>length (g_active_db s) < e_fuel E\<close>), and the rank of the service in
  its dependencies for the start (C35). Safety properties hold for every fuel.

  \<^bold>\<open>Interfaces.\<close> A locale stands for each contract, and each is interpreted on the model:
  \<open>intrusive_list\<close> (list.h against lists), \<open>var_store\<close> (reading back what was written, for numbers and
  for strings), \<open>hook_invariant\<close> and \<open>launch_contract\<close> (what hooks keep is kept by sending, and by
  launching), \<open>start_contract\<close> (what the start function of a type may do), \<open>alarm_contract\<close> (the same
  for the alarm function of a state) and \<open>safe_callbacks\<close> (functions behind pointers keep the
  service memory well formed). Link proves that the linked program meets \<open>safe_callbacks\<close> for every
  level, Contracts does so for the others.

  \<^bold>\<open>What is shown.\<close>
  \<^item> The whole program: in every state reached from main, by rounds of its loop and by commands, in
    any world, no freed service is in a list, names are unique, and variables and processes are
    well formed (C1).
  \<^item> Services: the start and stop checks decide what the dependencies say (C2, C8); the deep
    search ends and is right while its counter lasts (C11, C12); a parsed service gets started
    (C4), starting returns without circles (C35) and diverges with one (C33); no alarm is lost
    (C36); a launch never gives two active processes of a type (C37).
  \<^item> State changes: nested locks commit once, at the last unlock (C3).
  \<^item> Databases: reachable service databases are well formed (C7), lookup, cleaning and freeing are
    exact (C14, C18, C19), variables keep their type and the last write is read (C10, C15 to C17).
  \<^item> Building blocks: lists (C9, C32), hash (C20), strings (C21, C22), hooks (C13), pipe buffers (C34),
    modules (C39, C40).
  \<^item> Modules: saving and restoring the database (C6), requests of service files (C5), the history
    (C27, C28), limits of child processes (C29).
  \<^item> Defects of the code, each as a theorem on a concrete or general input: C23 to C26, C30 to C33,
    C38.

  \<^bold>\<open>Not modelled.\<close> Messages to the console, mprintf and memory exhaustion (the allocators end the
  program). The body of the segfault handler, which never returns, is one effect. The modules
  ngc4, ngcs, nge, dbus_event, syslog, cpout, fmon and debug_commands exchange the commands and
  events of the model with clients in their own formats. preinit, the tools, the usplash client
  and the clients bp.c and runiscript.c are programs of their own. Signals arrive between the
  rounds of the main loop, where the program reads what the handlers stored. Functions that are
  compiled out or that nothing calls are left out.
\<close>

end
